(* ===== verification/Prelude.thy ===== *)
theory Prelude
  imports Main
begin

section \<open>Shared vocabulary\<close>

text \<open>
  What every component of the development uses: the collections the component theories fill with
  their own facts, the C++ machine-integer range, the decimal printing of \<open>std::to_string\<close>,
  and lemmas on lists and sums that the library does not state in the form needed here.

  C++ \<open>int\<close> values are modelled by \<^typ>\<open>int\<close>. Signed overflow is undefined behaviour in
  C++, so a sum that can leave the 32-bit range is written with \<open>in_i32\<close> as an explicit failing
  branch of the model, and a sum that cannot is covered by a bound proved for it.
\<close>

named_theorems frame \<open>what an operation leaves alone\<close>
named_theorems smap_simps \<open>equations of the ordered map\<close>

subsection \<open>Machine integers\<close>

definition int_max :: int where
  "int_max = 2147483647"

definition int_min :: int where
  "int_min = -2147483648"

definition in_i32 :: "int \<Rightarrow> bool" where
  "in_i32 x \<longleftrightarrow> int_min \<le> x \<and> x \<le> int_max"

lemma in_i32I: "int_min \<le> x \<Longrightarrow> x \<le> int_max \<Longrightarrow> in_i32 x"
  by (simp add: in_i32_def)

lemmas i32_defs = in_i32_def int_max_def int_min_def

subsection \<open>Decimal printing\<close>

text \<open>\<open>std::to_string(int)\<close>: the decimal digits, with a leading minus sign below zero.\<close>

definition digit_char :: "nat \<Rightarrow> char" where
  "digit_char d = char_of (48 + d)"

fun nat_to_string :: "nat \<Rightarrow> string" where
  "nat_to_string n =
     (if n < 10 then [digit_char n] else nat_to_string (n div 10) @ [digit_char (n mod 10)])"

declare nat_to_string.simps [simp del]

definition to_string :: "int \<Rightarrow> string" where
  "to_string i = (if i < 0 then CHR ''-'' # nat_to_string (nat (- i)) else nat_to_string (nat i))"

subsection \<open>Ascending iteration of a \<open>std::set<int>\<close>\<close>

text \<open>The elements a range-for over a \<open>std::set\<close> visits, in its order.\<close>

definition asc_set :: "'a::linorder list \<Rightarrow> 'a list" where
  "asc_set xs = sort (remdups xs)"

lemma asc_set_strict: "sorted_wrt (<) (asc_set xs)"
  unfolding asc_set_def
  by (metis distinct_remdups distinct_sort sorted_sort strict_sorted_iff)

lemma set_asc_set [simp]: "set (asc_set xs) = set xs"
  by (simp add: asc_set_def)

subsection \<open>Sums over lists\<close>

lemma sum_list_map_if_filter:
  "(\<Sum>x\<leftarrow>xs. if P x then f x else (0::'b::comm_monoid_add)) = (\<Sum>x\<leftarrow>filter P xs. f x)"
  by (induction xs) auto

lemma sum_list_map_nonneg:
  "(\<And>x. x \<in> set xs \<Longrightarrow> (0::int) \<le> f x) \<Longrightarrow> 0 \<le> (\<Sum>x\<leftarrow>xs. f x)"
  by (induction xs) (auto intro!: add_nonneg_nonneg)

lemma sum_list_map_mono_int:
  "(\<And>x. x \<in> set xs \<Longrightarrow> (f x :: int) \<le> g x) \<Longrightarrow> (\<Sum>x\<leftarrow>xs. f x) \<le> (\<Sum>x\<leftarrow>xs. g x)"
  by (rule sum_list_mono)

lemma member_le_sum_list_int:
  "(\<And>x. x \<in> set xs \<Longrightarrow> (0::int) \<le> x) \<Longrightarrow> y \<in> set xs \<Longrightarrow> y \<le> sum_list xs"
proof (induction xs)
  case Nil
  then show ?case by simp
next
  case (Cons x xs)
  have tail: "0 \<le> sum_list xs"
    using Cons.prems(1) by (intro sum_list_nonneg) auto
  show ?case
  proof (cases "y = x")
    case True
    then show ?thesis using tail by simp
  next
    case False
    then have "y \<le> sum_list xs"
      using Cons by auto
    then show ?thesis using Cons.prems(1)[of x] by simp
  qed
qed

end
