(* ===== verification/Holdem_Evaluator.thy ===== *)
theory Holdem_Evaluator
  imports Prelude "HOL-Library.Multiset" "HOL-Library.Sublist"
    "HOL-Library.Product_Lexorder" "HOL-Library.List_Lexorder"
begin

section \<open>Hand evaluation (engine/holdem\_types.hpp, engine/holdem\_evaluator.cpp)\<close>

text \<open>
  \<open>evaluate5\<close> ranks five cards, \<open>compare_hands\<close> orders two results and \<open>best_hand\<close> takes the best
  five of up to seven. \<open>std::sort\<close> is not stable, so which of two cards of equal value comes first
  is not fixed by the code; the model sorts stably, and \<open>evaluate5_perm\<close> below shows that the result
  does not depend on the order of the cards, hence not on that choice.
\<close>

record Card =
  card_s :: string
  card_r :: string
  card_v :: int

record HandEval =
  eval_rank :: int
  eval_value :: "int list"
  eval_desc :: string

definition default_eval :: HandEval where
  "default_eval = \<lparr>eval_rank = 0, eval_value = [], eval_desc = []\<rparr>"

subsection \<open>The code\<close>

text \<open>The recursive lambda \<open>dfs\<close> of \<open>combinations\<close>: \<open>current\<close> is what has been picked so far.\<close>

function comb_dfs :: "'a list \<Rightarrow> nat \<Rightarrow> nat \<Rightarrow> 'a list \<Rightarrow> 'a list list" where
  "comb_dfs arr k start current =
     (if length current = k then [current]
      else concat (map (\<lambda>i. comb_dfs arr k (i + 1) (current @ [arr ! i])) [start..<length arr]))"
  by pat_completeness auto
termination
  by (relation "measure (\<lambda>(arr, k, start, current). length arr - start)") auto

declare comb_dfs.simps [simp del]

definition combinations :: "'a list \<Rightarrow> nat \<Rightarrow> 'a list list" where
  "combinations arr k = comb_dfs arr k 0 []"

text \<open>\<open>std::sort\<close> with the comparator \<open>a > b\<close> on integers.\<close>

definition sort_desc :: "int list \<Rightarrow> int list" where
  "sort_desc xs = sort_key uminus xs"

definition straight_of :: "int list \<Rightarrow> bool \<times> int" where
  "straight_of ranks =
     (let uniq = sort_desc (remdups_adj (sort ranks)) in
      if length uniq = 5 then
        (if hd uniq - last uniq = 4 then (True, hd uniq)
         else if uniq = [14, 5, 4, 3, 2] then (True, 5)
         else (False, 0))
      else (False, 0))"

text \<open>
  The \<open>std::map<int, int, std::greater<int>> counts\<close> visited from the highest rank down, as
  (count, rank) pairs, then sorted by count and rank, both descending.
\<close>

definition by_freq :: "int list \<Rightarrow> (int \<times> int) list" where
  "by_freq ranks =
     sort_key (\<lambda>(count, rank). (- count, - rank))
       (map (\<lambda>r. (int (count_list ranks r), r)) (sort_desc (remdups ranks)))"

definition evaluate5 :: "Card list \<Rightarrow> HandEval" where
  "evaluate5 cards =
     (let sorted = sort_key (\<lambda>c. - card_v c) cards;
          ranks = map card_v sorted;
          suits = map card_s sorted;
          flush = list_all (\<lambda>s. s = hd suits) suits;
          (straight, straight_max) = straight_of ranks;
          freq = by_freq ranks;
          first = (\<lambda>i. fst (freq ! i));
          second = (\<lambda>i. snd (freq ! i))
      in
      if flush \<and> straight then
        \<lparr>eval_rank = (if straight_max = 14 then 10 else 9), eval_value = [straight_max],
         eval_desc = (if straight_max = 14 then ''Royal Flush'' else ''Straight Flush'')\<rparr>
      else if first 0 = 4 then
        \<lparr>eval_rank = 8, eval_value = [second 0, second 1], eval_desc = ''Four of a Kind''\<rparr>
      else if first 0 = 3 \<and> first 1 = 2 then
        \<lparr>eval_rank = 7, eval_value = [second 0, second 1], eval_desc = ''Full House''\<rparr>
      else if flush then
        \<lparr>eval_rank = 6, eval_value = ranks, eval_desc = ''Flush''\<rparr>
      else if straight then
        \<lparr>eval_rank = 5, eval_value = [straight_max], eval_desc = ''Straight''\<rparr>
      else if first 0 = 3 then
        \<lparr>eval_rank = 4, eval_value = [second 0, second 1, second 2], eval_desc = ''Three of a Kind''\<rparr>
      else if first 0 = 2 \<and> first 1 = 2 then
        \<lparr>eval_rank = 3, eval_value = [second 0, second 1, second 2], eval_desc = ''Two Pair''\<rparr>
      else if first 0 = 2 then
        \<lparr>eval_rank = 2, eval_value = [second 0, second 1, second 2, second 3], eval_desc = ''One Pair''\<rparr>
      else
        \<lparr>eval_rank = 1, eval_value = ranks, eval_desc = ''High Card''\<rparr>)"

fun compare_values :: "int list \<Rightarrow> int list \<Rightarrow> int" where
  "compare_values (x # xs) (y # ys) = (if x \<noteq> y then x - y else compare_values xs ys)"
| "compare_values _ _ = 0"

definition compare_hands :: "HandEval \<Rightarrow> HandEval \<Rightarrow> int" where
  "compare_hands a b =
     (if eval_rank a \<noteq> eval_rank b then eval_rank a - eval_rank b
      else compare_values (eval_value a) (eval_value b))"

definition best_step :: "HandEval \<times> bool \<Rightarrow> Card list \<Rightarrow> HandEval \<times> bool" where
  "best_step st combo =
     (let (best, has_best) = st;
          current = evaluate5 combo
      in if \<not> has_best \<or> compare_hands current best > 0 then (current, True) else (best, has_best))"

definition best_hand :: "Card list \<Rightarrow> HandEval" where
  "best_hand cards = fst (foldl best_step (default_eval, False) (combinations cards 5))"

subsection \<open>The combinations\<close>

text \<open>
  \<open>picks xs k\<close> lists the ways to take \<open>k\<close> elements in order; the depth-first search computes it, so
  it visits exactly the subsequences of length \<open>k\<close>.
\<close>

fun picks :: "'a list \<Rightarrow> nat \<Rightarrow> 'a list list" where
  "picks xs 0 = [[]]"
| "picks [] (Suc k) = []"
| "picks (x # xs) (Suc k) = map ((#) x) (picks xs k) @ picks xs (Suc k)"

lemma picks_drop:
  "concat (map (\<lambda>i. map ((#) (xs ! i)) (picks (drop (Suc i) xs) k)) [s..<length xs]) =
   picks (drop s xs) (Suc k)"
proof (induction "length xs - s" arbitrary: s)
  case 0
  then show ?case by simp
next
  case (Suc n)
  then have s: "s < length xs" and "n = length xs - Suc s" by auto
  then have "concat (map (\<lambda>i. map ((#) (xs ! i)) (picks (drop (Suc i) xs) k)) [Suc s..<length xs]) =
             picks (drop (Suc s) xs) (Suc k)"
    using Suc(1) by blast
  with s show ?case
    by (simp add: upt_conv_Cons Cons_nth_drop_Suc[symmetric])
qed

lemma comb_dfs_picks:
  "length current \<le> k \<Longrightarrow>
   comb_dfs arr k start current = map ((@) current) (picks (drop start arr) (k - length current))"
proof (induction arr k start current rule: comb_dfs.induct)
  case (1 arr k start current)
  show ?case
  proof (cases "length current = k")
    case True
    then show ?thesis by (subst comb_dfs.simps) simp
  next
    case False
    then obtain m where m: "k - length current = Suc m"
      using "1.prems" by (metis Suc_diff_Suc le_neq_implies_less)
    have eq: "map (\<lambda>i. comb_dfs arr k (i + 1) (current @ [arr ! i])) [start..<length arr] =
          map (\<lambda>i. map ((@) current) (map ((#) (arr ! i)) (picks (drop (Suc i) arr) m)))
            [start..<length arr]"
    proof (rule map_cong[OF refl])
      fix i assume i: "i \<in> set [start..<length arr]"
      have "k - length (current @ [arr ! i]) = m" using m by simp
      then show "comb_dfs arr k (i + 1) (current @ [arr ! i]) =
          map ((@) current) (map ((#) (arr ! i)) (picks (drop (Suc i) arr) m))"
        using "1.IH"[OF False i] "1.prems" False by (simp add: comp_def)
    qed
    have "comb_dfs arr k start current =
        concat (map (\<lambda>i. comb_dfs arr k (i + 1) (current @ [arr ! i])) [start..<length arr])"
      using False by (subst comb_dfs.simps) simp
    also have "\<dots> = map ((@) current)
        (concat (map (\<lambda>i. map ((#) (arr ! i)) (picks (drop (Suc i) arr) m)) [start..<length arr]))"
      by (simp only: eq map_concat map_map comp_def)
    finally have "comb_dfs arr k start current =
        map ((@) current)
          (concat (map (\<lambda>i. map ((#) (arr ! i)) (picks (drop (Suc i) arr) m)) [start..<length arr]))" .
    then show ?thesis by (simp add: picks_drop m)
  qed
qed

lemma set_picks: "set (picks xs k) = {ys. subseq ys xs \<and> length ys = k}"
proof (induction xs k rule: picks.induct)
  case (1 xs)
  then show ?case by auto
next
  case (2 k)
  then show ?case by auto
next
  case (3 x xs k)
  show ?case (is "?l = ?r")
  proof (rule set_eqI)
    fix ys
    show "ys \<in> ?l \<longleftrightarrow> ys \<in> ?r"
      using 3 by (cases ys) (auto dest: subseq_Cons')
  qed
qed

lemma combinations_subseqs:
  "set (combinations arr k) = {ys. subseq ys arr \<and> length ys = k}"
  by (simp add: combinations_def comb_dfs_picks set_picks)

subsection \<open>Sorting does not depend on the order of the cards\<close>

lemma sort_desc_eqI: "mset xs = mset ys \<Longrightarrow> sorted (map uminus ys) \<Longrightarrow> sort_desc xs = ys"
  unfolding sort_desc_def by (rule sort_key_inj_key_eq) auto

lemma sort_desc_sorted [simp]: "sorted (map uminus (sort_desc xs))"
  by (simp add: sort_desc_def)

lemma mset_sort_desc [simp]: "mset (sort_desc xs) = mset xs"
  by (simp add: sort_desc_def)

lemma set_sort_desc [simp]: "set (sort_desc xs) = set xs"
  by (simp add: sort_desc_def)

lemma length_sort_desc [simp]: "length (sort_desc xs) = length xs"
  by (simp add: sort_desc_def)

lemma sort_desc_perm: "mset xs = mset ys \<Longrightarrow> sort_desc xs = sort_desc ys"
  by (rule sort_desc_eqI) simp_all

lemma count_list_perm: "mset xs = mset ys \<Longrightarrow> count_list xs = count_list ys"
  by (rule ext) (metis count_mset)

lemma distinct_remdups_adj_sorted: "sorted xs \<Longrightarrow> distinct (remdups_adj xs)"
  by (induction xs rule: remdups_adj.induct) auto

text \<open>The \<open>uniq\<close> vector of the straight test: the distinct values, highest first.\<close>

lemma uniq_eq: "sort_desc (remdups_adj (sort xs)) = rev (sorted_list_of_set (set xs))"
proof -
  have "remdups_adj (sort xs) = sorted_list_of_set (set xs)"
    by (rule sorted_distinct_set_unique) (simp_all add: distinct_remdups_adj_sorted)
  moreover have "sort_desc (sorted_list_of_set (set xs)) = rev (sorted_list_of_set (set xs))"
    by (rule sort_desc_eqI)
       (simp_all add: rev_map[symmetric] sorted_wrt_rev sorted_wrt_map sorted_wrt_mono_rel[OF _ sorted_sorted_list_of_set])
  ultimately show ?thesis by simp
qed

lemma straight_of_perm: "set xs = set ys \<Longrightarrow> straight_of xs = straight_of ys"
  by (simp add: straight_of_def uniq_eq)

lemma by_freq_perm: "mset xs = mset ys \<Longrightarrow> by_freq xs = by_freq ys"
proof -
  assume m: "mset xs = mset ys"
  have "mset (remdups xs) = mset (remdups ys)"
    using mset_eq_setD[OF m] by (simp add: set_eq_iff_mset_remdups_eq)
  then have "sort_desc (remdups xs) = sort_desc (remdups ys)"
    by (rule sort_desc_perm)
  then show ?thesis
    by (simp add: by_freq_def count_list_perm[OF m])
qed

definition same_suit :: "Card list \<Rightarrow> bool" where
  "same_suit cs \<longleftrightarrow> (\<forall>c\<in>set cs. \<forall>d\<in>set cs. card_s c = card_s d)"

lemma flush_same_suit:
  "set ds = set cs \<Longrightarrow>
   list_all (\<lambda>s. s = hd (map card_s ds)) (map card_s ds) \<longleftrightarrow> same_suit cs"
proof (cases ds)
  case (Cons a l)
  assume "set ds = set cs"
  then have "set cs = insert a (set l)" using Cons by simp
  then show ?thesis
    unfolding same_suit_def list_all_iff Cons by auto
qed (simp add: same_suit_def)

lemma ranks_sorted: "map card_v (sort_key (\<lambda>c. - card_v c) cs) = sort_desc (map card_v cs)"
proof (rule sort_desc_eqI[symmetric])
  show "mset (map card_v cs) = mset (map card_v (sort_key (\<lambda>c. - card_v c) cs))"
    by simp
  show "sorted (map uminus (map card_v (sort_key (\<lambda>c. - card_v c) cs)))"
    by (simp add: comp_def)
qed

lemma evaluate5_perm: "mset cs = mset ds \<Longrightarrow> evaluate5 cs = evaluate5 ds"
proof -
  assume m: "mset cs = mset ds"
  let ?s = "\<lambda>xs. sort_key (\<lambda>c. - card_v c) xs"
  have r: "map card_v (?s cs) = map card_v (?s ds)"
    unfolding ranks_sorted by (rule sort_desc_perm) (simp add: m)
  have "same_suit cs = same_suit ds"
    using mset_eq_setD[OF m] by (simp add: same_suit_def)
  then have f: "list_all (\<lambda>s. s = hd (map card_s (?s cs))) (map card_s (?s cs)) =
        list_all (\<lambda>s. s = hd (map card_s (?s ds))) (map card_s (?s ds))"
    using flush_same_suit[of "?s cs" cs] flush_same_suit[of "?s ds" ds] by simp
  show ?thesis
    unfolding evaluate5_def Let_def r f ..
qed

subsection \<open>Multiplicities\<close>

definition kinds :: "int list \<Rightarrow> nat \<Rightarrow> nat" where
  "kinds vs n = length (filter (\<lambda>v. count_list vs v = n) (remdups vs))"

lemma mset_by_freq: "mset (by_freq vs) = image_mset (\<lambda>r. (int (count_list vs r), r)) (mset (remdups vs))"
  by (simp add: by_freq_def)

lemma set_by_freq: "set (by_freq vs) = (\<lambda>r. (int (count_list vs r), r)) ` set vs"
  by (simp add: by_freq_def)

lemma kinds_by_freq: "kinds vs n = length (filter (\<lambda>x. x = int n) (map fst (by_freq vs)))"
proof -
  have "length (filter (\<lambda>x. x = int n) (map fst (by_freq vs))) =
        size (filter_mset (\<lambda>x. x = int n) (image_mset fst (mset (by_freq vs))))"
    by (simp flip: mset_filter mset_map)
  also have "\<dots> = size (filter_mset (\<lambda>v. count_list vs v = n) (mset (remdups vs)))"
    by (simp add: mset_by_freq filter_mset_image_mset image_mset.compositionality comp_def)
  also have "\<dots> = kinds vs n"
    by (simp add: kinds_def flip: mset_filter)
  finally show ?thesis by simp
qed

lemma by_freq_fst_desc: "sorted_wrt (\<ge>) (map fst (by_freq vs))"
proof -
  have "sorted (map (\<lambda>(c, r). (- c, - r)) (by_freq vs))"
    by (simp add: by_freq_def)
  then show ?thesis
    by (simp add: sorted_wrt_map) (auto elim!: sorted_wrt_mono_rel[rotated])
qed

lemma by_freq_pos: "x \<in> set (map fst (by_freq vs)) \<Longrightarrow> 1 \<le> x"
  by (auto simp: set_by_freq) (metis count_list_0_iff not_less_eq_eq le0 Suc_leI gr0I One_nat_def)

lemma by_freq_sum: "sum_list (map fst (by_freq vs)) = int (length vs)"
proof -
  have "sum_list (map fst (by_freq vs)) = sum_mset (image_mset fst (mset (by_freq vs)))"
    by (simp flip: mset_map sum_mset_sum_list)
  also have "\<dots> = (\<Sum>r\<in>set vs. int (count_list vs r))"
    by (simp add: mset_by_freq image_mset.compositionality comp_def
        sum_unfold_sum_mset mset_set_set[symmetric])
  also have "\<dots> = int (length vs)"
    using sum_count_set[of vs "set vs"] by (simp flip: of_nat_sum)
  finally show ?thesis .
qed

lemma length_le_sum_list: "(\<And>x. x \<in> set fs \<Longrightarrow> (1::int) \<le> x) \<Longrightarrow> int (length fs) \<le> sum_list fs"
  by (induction fs) (auto simp: order_trans add_mono)

lemma partitions_of_5:
  assumes "sorted_wrt (\<ge>) fs" and "\<And>x. x \<in> set fs \<Longrightarrow> (1::int) \<le> x" and "sum_list fs = 5"
  shows "fs \<in> {[5], [4,1], [3,2], [3,1,1], [2,2,1], [2,1,1,1], [1,1,1,1,1]}"
proof -
  have "length fs \<le> 5"
    using length_le_sum_list[of fs] assms(2,3) by simp
  then consider "length fs = 0" | "length fs = Suc 0" | "length fs = Suc (Suc 0)"
    | "length fs = Suc (Suc (Suc 0))" | "length fs = Suc (Suc (Suc (Suc 0)))"
    | "length fs = Suc (Suc (Suc (Suc (Suc 0))))"
    by linarith
  then show ?thesis
  proof cases
    case 1
    then show ?thesis using assms(3) by simp
  next
    case 2
    then obtain a where "fs = [a]" by (auto simp: length_Suc_conv)
    then show ?thesis using assms(3) by simp
  next
    case 3
    then obtain a b where fs: "fs = [a, b]" by (auto simp: length_Suc_conv)
    then have "a = 5 - b" "b \<le> a" "1 \<le> b" using assms by auto
    then have "b = 1 \<or> b = 2" by arith
    then show ?thesis using fs \<open>a = 5 - b\<close> by auto
  next
    case 4
    then obtain a b c where fs: "fs = [a, b, c]" by (auto simp: length_Suc_conv)
    then have h: "a = 5 - b - c" "b \<le> a" "c \<le> b" "1 \<le> c" using assms by auto
    then have "c = 1 \<and> (b = 1 \<or> b = 2)" by arith
    then show ?thesis using fs h(1) by auto
  next
    case 5
    then obtain a b c d where fs: "fs = [a, b, c, d]" by (auto simp: length_Suc_conv)
    then have h: "a = 5 - b - c - d" "b \<le> a" "c \<le> b" "d \<le> c" "1 \<le> d" using assms by auto
    then have "b = 1 \<and> c = 1 \<and> d = 1" by arith
    then show ?thesis using fs h(1) by auto
  next
    case 6
    then obtain a b c d e where fs: "fs = [a, b, c, d, e]" by (auto simp: length_Suc_conv)
    then have h: "a = 5 - b - c - d - e" "b \<le> a" "c \<le> b" "d \<le> c" "e \<le> d" "1 \<le> e"
      using assms by auto
    then have "b = 1 \<and> c = 1 \<and> d = 1 \<and> e = 1" by arith
    then show ?thesis using fs h(1) by auto
  qed
qed

subsection \<open>The abstract ranking\<close>

text \<open>The highest card of a straight over the values, where the ace may count below the two.\<close>

definition straight_high :: "int list \<Rightarrow> int option" where
  "straight_high vs =
     (if set vs = {Max (set vs) - 4..Max (set vs)} then Some (Max (set vs))
      else if set vs = {2, 3, 4, 5, 14} then Some 5
      else None)"

definition category :: "Card list \<Rightarrow> int" where
  "category cs =
     (let vs = map card_v cs; straight = straight_high vs \<noteq> None; flush = same_suit cs in
      if flush \<and> straight then (if straight_high vs = Some 14 then 10 else 9)
      else if kinds vs 4 = 1 then 8
      else if kinds vs 3 = 1 \<and> kinds vs 2 = 1 then 7
      else if flush then 6
      else if straight then 5
      else if kinds vs 3 = 1 then 4
      else if kinds vs 2 = 2 then 3
      else if kinds vs 2 = 1 then 2
      else 1)"

lemma interval5: "{m - 4..m} = {m, m - 1, m - 2, m - 3, m - (4::int)}"
  by auto

lemma desc5_interval:
  assumes "sorted_wrt (>) [a, b, c, d, e]" and "a - e = (4::int)"
  shows "{a, b, c, d, e} = {a - 4..a}"
proof -
  have "b = a - 1 \<and> c = a - 2 \<and> d = a - 3 \<and> e = a - 4" using assms by auto
  then show ?thesis by (auto simp: interval5)
qed

lemma rev_sorted_list_of_interval: "rev (sorted_list_of_set {m - 4..m}) = [m, m - 1, m - 2, m - 3, m - (4::int)]"
proof -
  have "sorted_list_of_set {m - 4..m} = [m - 4, m - 3, m - 2, m - 1, m]"
    by (rule sorted_distinct_set_unique) (auto simp: interval5)
  then show ?thesis by simp
qed

lemma length_5_conv: "length xs = 5 \<Longrightarrow> \<exists>a b c d e. xs = [a, b, c, d, e]"
  by (auto simp: length_Suc_conv numeral_eq_Suc)

lemma straight_of_high:
  assumes "vs \<noteq> []"
  shows "straight_of vs = (case straight_high vs of None \<Rightarrow> (False, 0) | Some m \<Rightarrow> (True, m))"
proof -
  let ?u = "rev (sorted_list_of_set (set vs))"
  have su: "set ?u = set vs" by simp
  have du: "sorted_wrt (>) ?u" by (simp add: sorted_wrt_rev)
  have wheel: "rev (sorted_list_of_set {2, 3, 4, 5, 14}) = [14, 5, 4, 3, 2::int]" by code_simp
  show ?thesis
  proof (cases "set vs = {Max (set vs) - 4..Max (set vs)}")
    case True
    then have "?u = [Max (set vs), Max (set vs) - 1, Max (set vs) - 2, Max (set vs) - 3, Max (set vs) - 4]"
      using rev_sorted_list_of_interval[of "Max (set vs)"] by argo
    then show ?thesis using True by (simp add: straight_of_def uniq_eq straight_high_def)
  next
    case no: False
    have nogap: "hd ?u - last ?u \<noteq> 4" if len: "length ?u = 5"
    proof
      assume gap: "hd ?u - last ?u = 4"
      from len obtain a b c d e where u: "?u = [a, b, c, d, e]"
        by (metis length_5_conv)
      then have "set vs = {a - 4..a}"
        using desc5_interval[of a b c d e] du gap su by simp
      moreover from this have "Max (set vs) = a" by (simp add: interval5)
      ultimately show False using no by simp
    qed
    show ?thesis
    proof (cases "set vs = {2, 3, 4, 5, 14}")
      case True
      then have u: "?u = [14, 5, 4, 3, 2]" by (simp add: wheel)
      show ?thesis
        using no True u by (simp add: straight_of_def uniq_eq straight_high_def Let_def)
    next
      case False
      have "?u \<noteq> [14, 5, 4, 3, 2]"
      proof
        assume "?u = [14, 5, 4, 3, 2]"
        then have "set vs = set [14, 5, 4, 3, 2]" using su by metis
        then show False using False by auto
      qed
      then show ?thesis
        using no False nogap by (auto simp: straight_of_def uniq_eq straight_high_def Let_def)
    qed
  qed
qed

text \<open>The counts of a five-card hand, highest first, are one of the partitions of five.\<close>

lemma freq_shape:
  "length vs = 5 \<Longrightarrow>
   map fst (by_freq vs) \<in> {[5], [4,1], [3,2], [3,1,1], [2,2,1], [2,1,1,1], [1,1,1,1,1]}"
  by (rule partitions_of_5[OF by_freq_fst_desc by_freq_pos]) (simp_all add: by_freq_sum)

lemma map_fst_lists:
  "map fst xs = [a] \<Longrightarrow> \<exists>r. xs = [(a, r)]"
  "map fst xs = [a, b] \<Longrightarrow> \<exists>r s. xs = [(a, r), (b, s)]"
  "map fst xs = [a, b, c] \<Longrightarrow> \<exists>r s t. xs = [(a, r), (b, s), (c, t)]"
  "map fst xs = [a, b, c, d] \<Longrightarrow> \<exists>r s t u. xs = [(a, r), (b, s), (c, t), (d, u)]"
  "map fst xs = [a, b, c, d, e] \<Longrightarrow> \<exists>r s t u w. xs = [(a, r), (b, s), (c, t), (d, u), (e, w)]"
  by (auto simp: map_eq_Cons_conv)

lemma by_freq_cases:
  assumes "length vs = 5"
  obtains (five) r where "by_freq vs = [(5, r)]"
    | (quads) r s where "by_freq vs = [(4, r), (1, s)]"
    | (full) r s where "by_freq vs = [(3, r), (2, s)]"
    | (trips) r s t where "by_freq vs = [(3, r), (1, s), (1, t)]"
    | (pairs) r s t where "by_freq vs = [(2, r), (2, s), (1, t)]"
    | (pair) r s t u where "by_freq vs = [(2, r), (1, s), (1, t), (1, u)]"
    | (high) r s t u w where "by_freq vs = [(1, r), (1, s), (1, t), (1, u), (1, w)]"
  using freq_shape[OF assms]
  by (elim insertE emptyE) (drule map_fst_lists, blast intro: that)+

lemma fst_by_freq_nth: "i < length (by_freq vs) \<Longrightarrow> fst (by_freq vs ! i) = map fst (by_freq vs) ! i"
  by simp

lemma by_freq_sort_desc: "by_freq (sort_desc vs) = by_freq vs"
  by (rule by_freq_perm) simp

lemma evaluate5_unfold:
  assumes "length cs = 5"
  shows "evaluate5 cs =
    (let vs = map card_v cs; freq = by_freq vs; ranks = sort_desc vs;
         value = (\<lambda>k. map snd (take k freq)) in
     if same_suit cs \<and> straight_high vs \<noteq> None then
       \<lparr>eval_rank = (if straight_high vs = Some 14 then 10 else 9),
        eval_value = [the (straight_high vs)],
        eval_desc = (if straight_high vs = Some 14 then ''Royal Flush'' else ''Straight Flush'')\<rparr>
     else if map fst freq = [4,1] then
       \<lparr>eval_rank = 8, eval_value = map snd freq, eval_desc = ''Four of a Kind''\<rparr>
     else if map fst freq = [3,2] then
       \<lparr>eval_rank = 7, eval_value = map snd freq, eval_desc = ''Full House''\<rparr>
     else if same_suit cs then \<lparr>eval_rank = 6, eval_value = ranks, eval_desc = ''Flush''\<rparr>
     else if straight_high vs \<noteq> None then
       \<lparr>eval_rank = 5, eval_value = [the (straight_high vs)], eval_desc = ''Straight''\<rparr>
     else if map fst freq = [3,1,1] then
       \<lparr>eval_rank = 4, eval_value = map snd freq, eval_desc = ''Three of a Kind''\<rparr>
     else if map fst freq = [2,2,1] then
       \<lparr>eval_rank = 3, eval_value = map snd freq, eval_desc = ''Two Pair''\<rparr>
     else if map fst freq = [2,1,1,1] then
       \<lparr>eval_rank = 2, eval_value = map snd freq, eval_desc = ''One Pair''\<rparr>
     else \<lparr>eval_rank = 1, eval_value = ranks, eval_desc = ''High Card''\<rparr>)"
proof -
  let ?vs = "map card_v cs"
  let ?sorted = "sort_key (\<lambda>c. - card_v c) cs"
  have flush: "list_all (\<lambda>s. s = hd (map card_s ?sorted)) (map card_s ?sorted) = same_suit cs"
    by (rule flush_same_suit) simp
  have ne: "?vs \<noteq> []" using assms by auto
  have st: "straight_of (sort_desc ?vs) =
      (case straight_high ?vs of None \<Rightarrow> (False, 0) | Some m \<Rightarrow> (True, m))"
    using straight_of_high[OF ne] straight_of_perm[of "sort_desc ?vs" ?vs] by simp
  have len: "length ?vs = 5" using assms by simp
  show ?thesis
    unfolding evaluate5_def Let_def ranks_sorted flush st by_freq_sort_desc
    by (cases rule: by_freq_cases[OF len]; cases "straight_high ?vs"; cases "same_suit cs")
       (simp_all only: option.case prod.case, simp_all)
qed

text \<open>Every access \<open>by_freq[i]\<close> of a branch is in bounds for five cards.\<close>

lemma evaluate5_bounds:
  assumes "length vs = 5"
  shows "1 \<le> length (by_freq vs)"
    and "fst (by_freq vs ! 0) = 4 \<or> fst (by_freq vs ! 0) = 3 \<Longrightarrow> 2 \<le> length (by_freq vs)"
    and "fst (by_freq vs ! 0) = 3 \<Longrightarrow> fst (by_freq vs ! 1) \<noteq> 2 \<Longrightarrow> 3 \<le> length (by_freq vs)"
    and "fst (by_freq vs ! 0) = 2 \<Longrightarrow> 3 \<le> length (by_freq vs)"
    and "fst (by_freq vs ! 0) = 2 \<Longrightarrow> fst (by_freq vs ! 1) \<noteq> 2 \<Longrightarrow> 4 \<le> length (by_freq vs)"
  by (cases rule: by_freq_cases[OF assms]; simp)+

text \<open>
  C31. \<open>evaluate5\<close> assigns every five cards the rank of the abstract poker ladder: whether the suits
  agree, whether the values are consecutive (ace low included) and how often values repeat.
\<close>

theorem evaluate5_category:
  assumes "length cards = 5"
  shows "eval_rank (evaluate5 cards) = category cards"
proof -
  have len: "length (map card_v cards) = 5" using assms by simp
  show ?thesis
    unfolding evaluate5_unfold[OF assms] category_def Let_def
    by (cases rule: by_freq_cases[OF len]) (simp_all add: kinds_by_freq)
qed

text \<open>How many tie-break values a rank carries.\<close>

definition value_length :: "int \<Rightarrow> nat" where
  "value_length r =
     (if r \<in> {5, 9, 10} then 1 else if r \<in> {7, 8} then 2 else if r \<in> {3, 4} then 3
      else if r = 2 then 4 else 5)"

definition shaped :: "HandEval \<Rightarrow> bool" where
  "shaped h \<longleftrightarrow> 1 \<le> eval_rank h \<and> eval_rank h \<le> 10 \<and> length (eval_value h) = value_length (eval_rank h)"

lemma evaluate5_shaped:
  assumes "length cards = 5"
  shows "shaped (evaluate5 cards)"
proof -
  have len: "length (map card_v cards) = 5" using assms by simp
  show ?thesis
    unfolding evaluate5_unfold[OF assms] shaped_def Let_def
    by (cases rule: by_freq_cases[OF len]) (simp_all add: value_length_def assms)
qed

subsection \<open>The order of the hands\<close>

lemma compare_values_less:
  "length xs = length ys \<Longrightarrow> compare_values xs ys > 0 \<longleftrightarrow> ys < xs"
  by (induction xs ys rule: list_induct2) auto

lemma compare_values_zero:
  "length xs = length ys \<Longrightarrow> compare_values xs ys = 0 \<longleftrightarrow> xs = ys"
  by (induction xs ys rule: list_induct2) auto

definition strength :: "HandEval \<Rightarrow> int list" where
  "strength h = eval_rank h # eval_value h"

lemma compare_hands_less:
  assumes "shaped a" "shaped b"
  shows "compare_hands a b > 0 \<longleftrightarrow> strength b < strength a"
  using assms compare_values_less[of "eval_value a" "eval_value b"]
  by (auto simp: compare_hands_def strength_def shaped_def)

lemma compare_hands_zero:
  assumes "shaped a" "shaped b"
  shows "compare_hands a b = 0 \<longleftrightarrow> strength a = strength b"
  using assms compare_values_zero[of "eval_value a" "eval_value b"]
  by (auto simp: compare_hands_def strength_def shaped_def)

lemma compare_hands_le:
  assumes "shaped a" "shaped b"
  shows "compare_hands a b \<le> 0 \<longleftrightarrow> strength a \<le> strength b"
  using compare_hands_less[OF assms] by (simp flip: not_less)

subsection \<open>The best five of a hand\<close>

lemma best_step_max:
  assumes "\<forall>c\<in>set combos. length c = 5" and "has \<longrightarrow> shaped best" and "combos \<noteq> [] \<or> has"
  shows "\<exists>b. foldl best_step (best, has) combos = (b, True) \<and> shaped b \<and>
           (b \<in> evaluate5 ` set combos \<or> has \<and> b = best) \<and>
           (\<forall>c\<in>set combos. strength (evaluate5 c) \<le> strength b) \<and>
           (has \<longrightarrow> strength best \<le> strength b)"
  using assms
proof (induction combos arbitrary: best has)
  case Nil
  then show ?case by simp
next
  case (Cons c combos)
  let ?e = "evaluate5 c"
  have e: "shaped ?e" using Cons.prems(1) by (intro evaluate5_shaped) simp
  show ?case
  proof (cases "\<not> has \<or> compare_hands ?e best > 0")
    case True
    then have st: "best_step (best, has) c = (?e, True)" by (simp add: best_step_def)
    have better: "has \<longrightarrow> strength best \<le> strength ?e"
      using True compare_hands_less[OF e, of best] Cons.prems(2) by auto
    from Cons.IH[of True ?e] Cons.prems(1) e obtain b where
      "foldl best_step (?e, True) combos = (b, True)" "shaped b"
      "b \<in> evaluate5 ` set combos \<or> b = ?e"
      "\<forall>c\<in>set combos. strength (evaluate5 c) \<le> strength b" "strength ?e \<le> strength b"
      by auto
    then show ?thesis using st better by (intro exI[of _ b]) auto
  next
    case False
    then have st: "best_step (best, has) c = (best, has)" and h: has "shaped best"
      using Cons.prems(2) by (auto simp: best_step_def)
    have worse: "strength ?e \<le> strength best"
      using False compare_hands_le[OF e, of best] Cons.prems(2) by auto
    from Cons.IH[of has best] Cons.prems(1) h obtain b where
      "foldl best_step (best, has) combos = (b, True)" "shaped b"
      "b \<in> evaluate5 ` set combos \<or> b = best"
      "\<forall>c\<in>set combos. strength (evaluate5 c) \<le> strength b" "strength best \<le> strength b"
      by auto
    then show ?thesis using st worse h by (intro exI[of _ b]) auto
  qed
qed

lemma best_hand_max:
  assumes "5 \<le> length cards"
  shows "\<exists>five. subseq five cards \<and> length five = 5 \<and> best_hand cards = evaluate5 five"
    and "\<And>five. subseq five cards \<Longrightarrow> length five = 5 \<Longrightarrow>
           strength (evaluate5 five) \<le> strength (best_hand cards)"
    and "shaped (best_hand cards)"
proof -
  let ?cs = "combinations cards 5"
  have "subseq (take 5 cards) cards" and "length (take 5 cards) = 5"
    using assms by (simp_all add: prefix_imp_subseq take_is_prefix)
  then have ne: "?cs \<noteq> []"
    using combinations_subseqs[of cards 5] by (metis (mono_tags, lifting) empty_iff list.set(1) mem_Collect_eq)
  have l5: "\<forall>c\<in>set ?cs. length c = 5" by (simp add: combinations_subseqs)
  from best_step_max[OF l5, of False default_eval] ne obtain b where b:
    "foldl best_step (default_eval, False) ?cs = (b, True)" "shaped b" "b \<in> evaluate5 ` set ?cs"
    "\<forall>c\<in>set ?cs. strength (evaluate5 c) \<le> strength b"
    by auto
  then have best: "best_hand cards = b" by (simp add: best_hand_def)
  show "\<exists>five. subseq five cards \<and> length five = 5 \<and> best_hand cards = evaluate5 five"
    using b(3) best by (auto simp: combinations_subseqs)
  show "\<And>five. subseq five cards \<Longrightarrow> length five = 5 \<Longrightarrow>
           strength (evaluate5 five) \<le> strength (best_hand cards)"
    using b(4) best by (auto simp: combinations_subseqs)
  show "shaped (best_hand cards)" using b best by simp
qed

lemma subseq_mset: "subseq ys xs \<Longrightarrow> mset ys \<subseteq># mset xs"
  by (induction ys xs rule: list_emb.induct) (auto intro: subset_mset.order_trans)

lemma mset_subseq: "mset ys \<subseteq># mset xs \<Longrightarrow> \<exists>zs. subseq zs xs \<and> mset zs = mset ys"
proof (induction xs arbitrary: ys)
  case Nil
  then show ?case by simp
next
  case (Cons x xs)
  show ?case
  proof (cases "x \<in> set ys")
    case True
    have "mset (remove1 x ys) \<subseteq># mset xs"
      using Cons.prems by (simp add: subset_eq_diff_conv)
    then obtain zs where "subseq zs xs" "mset zs = mset (remove1 x ys)"
      using Cons.IH by blast
    then have "subseq (x # zs) (x # xs) \<and> mset (x # zs) = mset ys" using True by simp
    then show ?thesis by blast
  next
    case False
    then have "mset ys \<subseteq># mset xs"
      using Cons.prems by (metis add_mset_remove_trivial diff_single_trivial mset.simps(2)
          set_mset_mset subset_eq_diff_conv add_mset_add_single)
    then show ?thesis using Cons.IH by (blast intro: list_emb_Cons)
  qed
qed

lemma best_hand_perm_le:
  assumes "mset cards = mset cards'" and "5 \<le> length cards"
  shows "strength (best_hand cards) \<le> strength (best_hand cards')"
proof -
  have len: "5 \<le> length cards'" using assms mset_eq_length by metis
  obtain five where five: "subseq five cards" "length five = 5" "best_hand cards = evaluate5 five"
    using best_hand_max(1)[OF assms(2)] by blast
  then obtain five' where f': "subseq five' cards'" "mset five' = mset five"
    using mset_subseq[of five cards'] subseq_mset[of five cards] assms(1) by auto
  then have "length five' = 5" using five(2) mset_eq_length by metis
  then have "strength (evaluate5 five') \<le> strength (best_hand cards')"
    using f' best_hand_max(2)[OF len] by blast
  then show ?thesis using five(3) evaluate5_perm[OF f'(2)] by simp
qed

text \<open>
  C30. \<open>best_hand\<close> is the best five of the given cards: it is the evaluation of five of them, and no
  five of them beat it.
\<close>

theorem best_hand_is_best:
  assumes "5 \<le> length cards"
  shows "(\<exists>five. subseq five cards \<and> length five = 5 \<and> best_hand cards = evaluate5 five) \<and>
         (\<forall>five. subseq five cards \<and> length five = 5 \<longrightarrow>
            compare_hands (evaluate5 five) (best_hand cards) \<le> 0)"
  using best_hand_max[OF assms] evaluate5_shaped by (auto simp: compare_hands_le)

text \<open>
  C32. The order in which hole cards and board are listed does not matter: two orderings of the same
  cards have the same best rank and the same tie-break values.
\<close>

theorem best_hand_order_independent:
  assumes "mset cards = mset cards'" and "5 \<le> length cards"
  shows "eval_rank (best_hand cards) = eval_rank (best_hand cards') \<and>
         eval_value (best_hand cards) = eval_value (best_hand cards') \<and>
         compare_hands (best_hand cards) (best_hand cards') = 0"
proof -
  have len: "5 \<le> length cards'" using assms mset_eq_length by metis
  have "strength (best_hand cards) = strength (best_hand cards')"
    using best_hand_perm_le[OF assms] best_hand_perm_le[OF assms(1)[symmetric] len] by simp
  then show ?thesis
    using compare_hands_zero[OF best_hand_max(3)[OF assms(2)] best_hand_max(3)[OF len]]
    by (simp add: strength_def)
qed

text \<open>
  On evaluated hands \<open>compare_hands\<close> is a total preorder whose ties are exactly the hands of
  equal rank and equal tie-break values, so the winners at a showdown are well defined.
\<close>

theorem compare_hands_total_preorder:
  assumes "length as = 5" and "length bs = 5" and "length cs = 5"
  shows "(compare_hands (evaluate5 as) (evaluate5 bs) > 0 \<longleftrightarrow>
            compare_hands (evaluate5 bs) (evaluate5 as) < 0) \<and>
         (compare_hands (evaluate5 as) (evaluate5 bs) \<le> 0 \<and>
            compare_hands (evaluate5 bs) (evaluate5 cs) \<le> 0 \<longrightarrow>
            compare_hands (evaluate5 as) (evaluate5 cs) \<le> 0) \<and>
         (compare_hands (evaluate5 as) (evaluate5 bs) = 0 \<longleftrightarrow>
            eval_rank (evaluate5 as) = eval_rank (evaluate5 bs) \<and>
            eval_value (evaluate5 as) = eval_value (evaluate5 bs))"
proof -
  note sh = evaluate5_shaped[OF assms(1)] evaluate5_shaped[OF assms(2)] evaluate5_shaped[OF assms(3)]
  have z: "compare_hands (evaluate5 as) (evaluate5 bs) = 0 \<longleftrightarrow>
      strength (evaluate5 as) = strength (evaluate5 bs)"
    by (rule compare_hands_zero[OF sh(1,2)])
  have n: "compare_hands (evaluate5 bs) (evaluate5 as) < 0 \<longleftrightarrow>
      strength (evaluate5 bs) < strength (evaluate5 as)"
    using compare_hands_le[OF sh(2,1)] compare_hands_zero[OF sh(2,1)] by (auto simp: order_less_le)
  show ?thesis
    unfolding compare_hands_less[OF sh(1,2)] n compare_hands_le[OF sh(1,2)]
      compare_hands_le[OF sh(2,3)] compare_hands_le[OF sh(1,3)] z
    by (metis list.inject order_trans strength_def)
qed

subsection \<open>Witnesses\<close>

definition wheel :: "Card list" where
  "wheel = [\<lparr>card_s = ''spades'', card_r = ''A'', card_v = 14\<rparr>,
            \<lparr>card_s = ''spades'', card_r = ''3'', card_v = 3\<rparr>,
            \<lparr>card_s = ''spades'', card_r = ''2'', card_v = 2\<rparr>,
            \<lparr>card_s = ''spades'', card_r = ''5'', card_v = 5\<rparr>,
            \<lparr>card_s = ''spades'', card_r = ''4'', card_v = 4\<rparr>]"

definition nines_up :: "Card list" where
  "nines_up = [\<lparr>card_s = ''clubs'', card_r = ''9'', card_v = 9\<rparr>,
            \<lparr>card_s = ''hearts'', card_r = ''9'', card_v = 9\<rparr>,
            \<lparr>card_s = ''clubs'', card_r = ''4'', card_v = 4\<rparr>,
            \<lparr>card_s = ''spades'', card_r = ''4'', card_v = 4\<rparr>,
            \<lparr>card_s = ''clubs'', card_r = ''K'', card_v = 13\<rparr>]"

lemma evaluate5_category_witness:
  "eval_rank (evaluate5 wheel) = 9 \<and> eval_rank (evaluate5 nines_up) = 3"
proof -
  have "category wheel = 9" "category nines_up = 3" by code_simp+
  then show ?thesis
    using evaluate5_category[of wheel] evaluate5_category[of nines_up]
    by (simp add: wheel_def nines_up_def)
qed

lemma best_hand_is_best_witness:
  "compare_hands (evaluate5 wheel) (best_hand (wheel @ nines_up)) \<le> 0"
  using best_hand_is_best[of "wheel @ nines_up"] by (simp add: wheel_def nines_up_def)

lemma best_hand_order_independent_witness:
  "eval_rank (best_hand (take 2 nines_up @ wheel)) = eval_rank (best_hand (wheel @ take 2 nines_up))"
  using best_hand_order_independent[of "take 2 nines_up @ wheel" "wheel @ take 2 nines_up"]
  by (simp add: wheel_def union_commute)

lemma compare_hands_total_preorder_witness:
  "compare_hands (evaluate5 wheel) (evaluate5 nines_up) > 0 \<and>
   compare_hands (evaluate5 nines_up) (evaluate5 wheel) < 0"
proof -
  have "compare_hands (evaluate5 wheel) (evaluate5 nines_up) > 0" by code_simp
  then show ?thesis
    using compare_hands_total_preorder[of wheel nines_up wheel]
    by (simp add: wheel_def nines_up_def)
qed

end
