(* ===== verification/Messages.thy ===== *)
theory Messages
  imports Holdem_Evaluator
begin

section \<open>Protocol messages (proto/poker.proto)\<close>

text \<open>
  The messages the room worker sends, one constructor or record per protobuf message with the
  schema's fields. The generated classes only carry these values; \<open>SerializeAsString\<close> and
  \<open>ParseFromString\<close> belong to the protobuf library, so an envelope is kept as the pair of its event
  name and its message instead of the bytes the library makes of them.
\<close>

record SettingsMsg =
  sm_total_hands :: int
  sm_initial_chips :: int
  sm_small_blind :: int
  sm_big_blind :: int

record PlayerMsg =
  pm_seat_idx :: int
  pm_name :: string
  pm_type :: string
  pm_chips :: int
  pm_current_bet :: int
  pm_is_folded :: bool
  pm_is_bankrupt :: bool
  pm_total_buy_in :: int

record GameStateMsg =
  gs_room_id :: string
  gs_started :: bool
  gs_settings :: SettingsMsg
  gs_hand_num :: int
  gs_dealer_seat_idx :: int
  gs_sb_seat_idx :: int
  gs_bb_seat_idx :: int
  gs_active_seat_idx :: int
  gs_pot :: int
  gs_round :: string
  gs_community_cards :: "Card list"
  gs_current_max_bet :: int
  gs_min_raise :: int
  gs_players :: "PlayerMsg list"

record SeatMsg =
  tm_seat_idx :: int
  tm_type :: string
  tm_name :: string
  tm_decor :: string
  tm_socket_id :: string
  tm_client_id :: string
  tm_ai_managed :: bool
  tm_disconnected_at :: int

record RoomStateMsg =
  rs_room_id :: string
  rs_host_socket_id :: string
  rs_host_seat_idx :: int
  rs_is_host :: bool
  rs_started :: bool
  rs_seats :: "SeatMsg list"
  rs_settings :: SettingsMsg
  rs_owner_user_id :: int
  rs_room_code :: string
  rs_visibility :: string
  rs_status :: string
  rs_max_players :: int

record WinnerInfo =
  wi_seat_idx :: int
  wi_name :: string

record ShowdownHandMsg =
  sh_seat_idx :: int
  sh_name :: string
  sh_hand :: "Card list"

record HandOverMsg =
  ho_hand_num :: int
  ho_total_hands :: int
  ho_winners :: "WinnerInfo list"
  ho_desc :: string
  ho_showdown_hands :: "ShowdownHandMsg list"

record Standing =
  st_seat_idx :: int
  st_type :: string
  st_name :: string
  st_chips :: int
  st_buy_in :: int
  st_net :: int

record MatchHandInfo =
  mh_hand_num :: int
  mh_winners :: "WinnerInfo list"
  mh_desc :: string

record MatchOverMsg =
  mo_room_id :: string
  mo_total_hands :: int
  mo_scheduled_hands :: int
  mo_played_hands :: int
  mo_standings :: "Standing list"
  mo_hands :: "MatchHandInfo list"

record VoiceParticipant =
  vp_socket_id :: string
  vp_seat_idx :: int
  vp_name :: string

record SeatSessionMsg =
  ss_room_id :: string
  ss_reconnect_token :: string
  ss_session_id :: string
  ss_last_seen_seq :: int

record UserProfileMsg =
  up_user_id :: int
  up_external_id :: string
  up_username :: string
  up_avatar :: string
  up_gold :: int
  up_games_played :: int
  up_games_won :: int

datatype message =
    TextMessage string
  | ErrorMessage string
  | RoomClosed string string
  | UserProfile UserProfileMsg
  | YouState string int bool
  | RoomState RoomStateMsg
  | GameState GameStateMsg
  | PrivateHand int "Card list"
  | ActivitySync "string list"
  | PlayerAction int string
  | TurnMessage int int
  | HandOverMessage HandOverMsg
  | MatchOver MatchOverMsg
  | VoicePeers "VoiceParticipant list"
  | VoicePeerJoined VoiceParticipant
  | VoicePeerLeft string
  | VoiceSignal string string string
  | RebuyRequested int string int
  | RebuyDenied string
  | SeatTaken int
  | SeatSession SeatSessionMsg
  | Kicked int string
  | AuthState bool "UserProfileMsg option"
  | MatchmakingStatus string string int int
  | MatchFound string int

text \<open>An envelope: \<open>event_name\<close> and the message its payload encodes.\<close>

type_synonym envelope = "string \<times> message"

text \<open>The requests a client sends that carry more than a seat index or an amount.\<close>

record ActionRequest =
  ar_type :: string
  ar_raise_by :: int

record StartGameRequest =
  sg_total_hands :: int
  sg_initial_chips :: int

record JoinRoomRequest =
  jr_room_id :: string
  jr_name :: string
  jr_client_id :: string
  jr_reconnect_token :: string
  jr_session_id :: string

end
