(* ===== verification/Std_Map.thy ===== *)
theory Std_Map
  imports Prelude
begin

section \<open>The associative containers of the standard library\<close>

text \<open>
  \<open>std::map\<close> keeps its entries in ascending key order and a range-for visits them in that order,
  so the model is the list of entries with strictly ascending keys. The room's player table and its
  voice participants are such maps. The laws the rest of the development relies on are the locale
  \<open>ordered_map\<close>; the interpretation \<open>sm\<close> below discharges them for the executable operations.
\<close>

type_synonym ('k, 'v) smap = "('k \<times> 'v) list"

fun smap_get :: "('k, 'v) smap \<Rightarrow> 'k \<Rightarrow> 'v option" where
  "smap_get [] k = None"
| "smap_get ((k', v) # m) k = (if k' = k then Some v else smap_get m k)"

text \<open>\<open>m[k] = v\<close>: overwrite the entry, or insert it at its place in the order.\<close>

fun smap_put :: "'k::linorder \<Rightarrow> 'v \<Rightarrow> ('k, 'v) smap \<Rightarrow> ('k, 'v) smap" where
  "smap_put k v [] = [(k, v)]"
| "smap_put k v ((k', v') # m) =
     (if k < k' then (k, v) # (k', v') # m
      else if k = k' then (k, v) # m
      else (k', v') # smap_put k v m)"

text \<open>\<open>m.erase(k)\<close>.\<close>

definition smap_erase :: "'k \<Rightarrow> ('k, 'v) smap \<Rightarrow> ('k, 'v) smap" where
  "smap_erase k m = filter (\<lambda>e. fst e \<noteq> k) m"

text \<open>\<open>for (auto& [k, v] : m) v = f(k, v)\<close>.\<close>

definition smap_each :: "('k \<Rightarrow> 'v \<Rightarrow> 'v) \<Rightarrow> ('k, 'v) smap \<Rightarrow> ('k, 'v) smap" where
  "smap_each f m = map (\<lambda>(k, v). (k, f k v)) m"

text \<open>A write through the pointer a lookup returned: \<open>it->second = f(it->second)\<close>, if found.\<close>

definition smap_adjust :: "'k \<Rightarrow> ('v \<Rightarrow> 'v) \<Rightarrow> ('k, 'v) smap \<Rightarrow> ('k, 'v) smap" where
  "smap_adjust k f m = smap_each (\<lambda>k' v. if k' = k then f v else v) m"

definition smap_keys :: "('k, 'v) smap \<Rightarrow> 'k list" where
  "smap_keys m = map fst m"

definition smap_vals :: "('k, 'v) smap \<Rightarrow> 'v list" where
  "smap_vals m = map snd m"

definition smap_wf :: "('k::linorder, 'v) smap \<Rightarrow> bool" where
  "smap_wf m \<longleftrightarrow> sorted_wrt (<) (map fst m)"

subsection \<open>The interface\<close>

locale ordered_map =
  fixes get :: "'m \<Rightarrow> 'k::linorder \<Rightarrow> 'v option"
    and put :: "'k \<Rightarrow> 'v \<Rightarrow> 'm \<Rightarrow> 'm"
    and erase :: "'k \<Rightarrow> 'm \<Rightarrow> 'm"
    and keys :: "'m \<Rightarrow> 'k list"
    and wf :: "'m \<Rightarrow> bool"
  assumes get_put: "get (put k v m) k' = (if k' = k then Some v else get m k')"
    and get_erase: "get (erase k m) k' = (if k' = k then None else get m k')"
    and set_keys: "set (keys m) = {k. get m k \<noteq> None}"
    and keys_sorted: "wf m \<Longrightarrow> sorted_wrt (<) (keys m)"
    and wf_put: "wf m \<Longrightarrow> wf (put k v m)"
    and wf_erase: "wf m \<Longrightarrow> wf (erase k m)"
begin

lemma keys_put: "set (keys (put k v m)) = insert k (set (keys m))"
  by (auto simp: set_keys get_put)

lemma keys_erase: "set (keys (erase k m)) = set (keys m) - {k}"
  by (auto simp: set_keys get_erase)

lemma get_put_twice: "get (put k v (put k w m)) k' = get (put k v m) k'"
  by (simp add: get_put)

lemma get_erase_put: "get (erase k (put k v m)) k' = get (erase k m) k'"
  by (simp add: get_put get_erase)

lemma keys_distinct: "wf m \<Longrightarrow> distinct (keys m)"
  using keys_sorted strict_sorted_iff by blast

end

lemma smap_get_put:
  "smap_get (smap_put k v m) k' = (if k' = k then Some v else smap_get m k')"
  by (induction k v m rule: smap_put.induct) auto

lemma smap_get_erase:
  "smap_get (smap_erase k m) k' = (if k' = k then None else smap_get m k')"
  by (induction m) (auto simp: smap_erase_def)

lemma smap_get_keys: "set (smap_keys m) = {k. smap_get m k \<noteq> None}"
  by (induction m) (auto simp: smap_keys_def split: if_splits)

lemma set_map_fst_put: "fst ` set (smap_put k v m) = insert k (fst ` set m)"
  by (induction k v m rule: smap_put.induct) auto

lemma smap_wf_put: "smap_wf m \<Longrightarrow> smap_wf (smap_put k v m)"
  by (induction k v m rule: smap_put.induct)
     (auto simp: smap_wf_def set_map_fst_put)

lemma smap_wf_erase: "smap_wf m \<Longrightarrow> smap_wf (smap_erase k m)"
  unfolding smap_wf_def smap_erase_def
  by (induction m) auto

interpretation sm: ordered_map smap_get smap_put smap_erase smap_keys smap_wf
  by unfold_locales
     (auto simp: smap_get_put smap_get_erase smap_get_keys smap_wf_put smap_wf_erase,
      auto simp: smap_wf_def smap_keys_def)

subsection \<open>Writes to existing entries\<close>

lemma smap_get_each: "smap_get (smap_each f m) k = map_option (f k) (smap_get m k)"
  by (induction m) (auto simp: smap_each_def)

lemma smap_keys_each [simp]: "smap_keys (smap_each f m) = smap_keys m"
  by (induction m) (auto simp: smap_each_def smap_keys_def)

lemma smap_wf_each [simp]: "smap_wf (smap_each f m) = smap_wf m"
  using smap_keys_each[of f m] by (simp add: smap_wf_def smap_keys_def)

lemma smap_get_adjust:
  "smap_get (smap_adjust k f m) k' =
     (if k' = k then map_option f (smap_get m k') else smap_get m k')"
  by (cases "smap_get m k'") (auto simp: smap_adjust_def smap_get_each)

lemma smap_keys_adjust [simp]: "smap_keys (smap_adjust k f m) = smap_keys m"
  by (simp add: smap_adjust_def)

lemma smap_wf_adjust [simp]: "smap_wf (smap_adjust k f m) = smap_wf m"
  by (simp add: smap_adjust_def)

lemma smap_adjust_missing: "smap_get m k = None \<Longrightarrow> smap_adjust k f m = m"
  by (induction m) (auto simp: smap_adjust_def smap_each_def split: if_splits)

lemma smap_get_mem: "smap_get m k = Some v \<Longrightarrow> (k, v) \<in> set m"
  by (induction m) (auto split: if_splits)

lemma smap_mem_get: "smap_wf m \<Longrightarrow> (k, v) \<in> set m \<Longrightarrow> smap_get m k = Some v"
  by (induction m) (auto simp: smap_wf_def)

subsection \<open>Sums over the values\<close>

definition smap_sum :: "('v \<Rightarrow> int) \<Rightarrow> ('k, 'v) smap \<Rightarrow> int" where
  "smap_sum f m = (\<Sum>e\<leftarrow>m. f (snd e))"

lemma smap_sum_Nil [simp]: "smap_sum f [] = 0"
  by (simp add: smap_sum_def)

lemma smap_sum_Cons [simp]: "smap_sum f (e # m) = f (snd e) + smap_sum f m"
  by (simp add: smap_sum_def)

lemma smap_sum_adjust_notin:
  "k \<notin> set (smap_keys m) \<Longrightarrow> smap_sum f (smap_adjust k g m) = smap_sum f m"
  by (induction m) (auto simp: smap_adjust_def smap_each_def smap_keys_def)

lemma smap_sum_adjust:
  "smap_wf m \<Longrightarrow> smap_get m k = Some v \<Longrightarrow>
   smap_sum f (smap_adjust k g m) = smap_sum f m - f v + f (g v)"
proof (induction m)
  case Nil
  then show ?case by simp
next
  case (Cons e m)
  obtain k' v' where e: "e = (k', v')" by (cases e)
  have wf: "smap_wf m" and lt: "\<forall>x\<in>set (smap_keys m). k' < x"
    using Cons.prems(1) by (auto simp: e smap_wf_def smap_keys_def)
  show ?case
  proof (cases "k' = k")
    case True
    then have "k \<notin> set (smap_keys m)" using lt by auto
    then have "smap_sum f (smap_adjust k g m) = smap_sum f m"
      by (rule smap_sum_adjust_notin)
    then show ?thesis using True Cons.prems(2)
      by (simp add: e smap_adjust_def smap_each_def)
  next
    case False
    then have "smap_sum f (smap_adjust k g m) = smap_sum f m - f v + f (g v)"
      using Cons.IH wf Cons.prems(2) by (simp add: e)
    then show ?thesis using False by (simp add: e smap_adjust_def smap_each_def)
  qed
qed

lemma smap_sum_each:
  "smap_sum f (smap_each g m) = (\<Sum>e\<leftarrow>m. f (g (fst e) (snd e)))"
  by (induction m) (auto simp: smap_each_def)

lemma smap_sum_nonneg: "(\<And>k v. (k, v) \<in> set m \<Longrightarrow> 0 \<le> f v) \<Longrightarrow> 0 \<le> smap_sum f m"
  unfolding smap_sum_def by (rule sum_list_map_nonneg) auto

lemma smap_sum_ge:
  "smap_get m k = Some v \<Longrightarrow> (\<And>k v. (k, v) \<in> set m \<Longrightarrow> 0 \<le> f v) \<Longrightarrow> f v \<le> smap_sum f m"
  unfolding smap_sum_def
  by (rule member_le_sum_list_int) (auto dest!: smap_get_mem intro: rev_image_eqI)

declare smap_get_put [smap_simps] smap_get_erase [smap_simps] smap_get_each [smap_simps]
  smap_get_adjust [smap_simps] sm.keys_put [smap_simps] sm.keys_erase [smap_simps]

end
