(* ===== verification/Round_Phase.thy ===== *)
theory Round_Phase
  imports Prelude
begin

section \<open>Round phases (engine/round\_phase.cpp)\<close>

text \<open>
  The enumeration \<open>RoundPhase\<close>, its conversion from and to the string a \<open>Room\<close> stores, and the
  legal next street. The C++ switch over the enumeration is exhaustive, so the trailing
  \<open>return "WAITING"\<close> of \<open>to_string\<close> is unreachable and has no equation of its own.
\<close>

datatype RoundPhase = Waiting | PreFlop | Flop | Turn | River | Showdown | HandOver

definition round_phase_from_string :: "string \<Rightarrow> RoundPhase" where
  "round_phase_from_string v =
     (if v = ''PRE-FLOP'' then PreFlop
      else if v = ''FLOP'' then Flop
      else if v = ''TURN'' then Turn
      else if v = ''RIVER'' then River
      else if v = ''SHOWDOWN'' then Showdown
      else if v = ''HAND_OVER'' then HandOver
      else Waiting)"

fun phase_to_string :: "RoundPhase \<Rightarrow> string" where
  "phase_to_string Waiting = ''WAITING''"
| "phase_to_string PreFlop = ''PRE-FLOP''"
| "phase_to_string Flop = ''FLOP''"
| "phase_to_string Turn = ''TURN''"
| "phase_to_string River = ''RIVER''"
| "phase_to_string Showdown = ''SHOWDOWN''"
| "phase_to_string HandOver = ''HAND_OVER''"

definition is_betting_round :: "RoundPhase \<Rightarrow> bool" where
  "is_betting_round p \<longleftrightarrow> p = PreFlop \<or> p = Flop \<or> p = Turn \<or> p = River"

fun next_round_phase :: "RoundPhase \<Rightarrow> RoundPhase option" where
  "next_round_phase PreFlop = Some Flop"
| "next_round_phase Flop = Some Turn"
| "next_round_phase Turn = Some River"
| "next_round_phase River = Some Showdown"
| "next_round_phase _ = None"

lemma phase_of_to_string [simp]: "round_phase_from_string (phase_to_string p) = p"
  by (cases p) (simp_all add: round_phase_from_string_def)

lemma phase_to_string_inject [simp]: "phase_to_string p = phase_to_string q \<longleftrightarrow> p = q"
  by (metis phase_of_to_string)

lemma next_round_phase_betting: "next_round_phase p = None \<longleftrightarrow> \<not> is_betting_round p"
  by (cases p) (simp_all add: is_betting_round_def)

text \<open>How many streets are still to come: the measure of every walk along the streets.\<close>

fun streets_left :: "RoundPhase \<Rightarrow> nat" where
  "streets_left PreFlop = 4"
| "streets_left Flop = 3"
| "streets_left Turn = 2"
| "streets_left River = 1"
| "streets_left _ = 0"

lemma next_round_phase_decreases: "next_round_phase p = Some q \<Longrightarrow> Suc (streets_left q) = streets_left p"
  by (cases p) auto

subsection \<open>The phases in the order a hand goes through them\<close>

fun phase_index :: "RoundPhase \<Rightarrow> nat" where
  "phase_index Waiting = 0"
| "phase_index PreFlop = 1"
| "phase_index Flop = 2"
| "phase_index Turn = 3"
| "phase_index River = 4"
| "phase_index Showdown = 5"
| "phase_index HandOver = 6"

lemma phase_index_inject: "phase_index p = phase_index q \<Longrightarrow> p = q"
  by (cases p; cases q) simp_all

instantiation RoundPhase :: linorder
begin

definition less_eq_RoundPhase :: "RoundPhase \<Rightarrow> RoundPhase \<Rightarrow> bool" where
  "less_eq_RoundPhase p q \<longleftrightarrow> phase_index p \<le> phase_index q"

definition less_RoundPhase :: "RoundPhase \<Rightarrow> RoundPhase \<Rightarrow> bool" where
  "less_RoundPhase p q \<longleftrightarrow> phase_index p < phase_index q"

instance
  by standard (auto simp: less_eq_RoundPhase_def less_RoundPhase_def intro: phase_index_inject)

end

lemma next_round_phase_greater: "next_round_phase p = Some q \<Longrightarrow> p < q"
  by (cases p) (auto simp: less_RoundPhase_def)

text \<open>
  The stored string determines the phase: reading back a printed phase gives it again, any other
  string reads as \<open>Waiting\<close>, and exactly the betting rounds have a next street, a later one.
\<close>

theorem round_phase_roundtrip:
  "round_phase_from_string (phase_to_string p) = p \<and>
   (phase_to_string (round_phase_from_string v) = v \<or> round_phase_from_string v = Waiting) \<and>
   (is_betting_round p = (\<exists>q. next_round_phase p = Some q \<and> p < q))"
proof (intro conjI)
  show "phase_to_string (round_phase_from_string v) = v \<or> round_phase_from_string v = Waiting"
    by (auto simp: round_phase_from_string_def)
  show "is_betting_round p = (\<exists>q. next_round_phase p = Some q \<and> p < q)"
    using next_round_phase_betting[of p] next_round_phase_greater[of p]
    by (cases "next_round_phase p") auto
qed simp

end
