(* ===== verification/Room_State.thy ===== *)
theory Room_State
  imports Messages Std_Map Round_Phase "HOL-Library.Char_ord"
begin

section \<open>Seats, players and rooms (main.cpp)\<close>

text \<open>
  The structs of \<open>main.cpp\<close>. A \<open>Room\<close> is one flat struct in the code; here its game fields form
  the record \<open>Table\<close> and the record \<open>Room\<close> extends it, which keeps the fields flat.
  A timer pointer is modelled by what it will do: \<open>ai_timer\<close> is the seat whose move is pending,
  \<open>ai_takeover_timers\<close> the seats with an armed takeover timer.
\<close>

definition kSeats :: int where
  "kSeats = 10"

definition kGameplaySessionTtlMs :: int where
  "kGameplaySessionTtlMs = 1000 * 60 * 5"

definition kRoomEventLogLimit :: nat where
  "kRoomEventLogLimit = 600"

definition kAiTakeoverDelayMs :: int where
  "kAiTakeoverDelayMs = 1000 * 60"

text \<open>The indices of \<open>for (int i = 0; i < kSeats; ++i)\<close>.\<close>

definition seat_indices :: "int list" where
  "seat_indices = [0, 1, 2, 3, 4, 5, 6, 7, 8, 9]"

lemma set_seat_indices: "set seat_indices = {0..<kSeats}"
proof (intro set_eqI iffI)
  fix i
  show "i \<in> set seat_indices \<Longrightarrow> i \<in> {0..<kSeats}"
    by (auto simp: seat_indices_def kSeats_def)
  assume "i \<in> {0..<kSeats}"
  then have "i = 0 \<or> i = 1 \<or> i = 2 \<or> i = 3 \<or> i = 4 \<or> i = 5 \<or> i = 6 \<or> i = 7 \<or> i = 8 \<or> i = 9"
    unfolding kSeats_def atLeastLessThan_iff by presburger
  then show "i \<in> set seat_indices" by (auto simp: seat_indices_def)
qed

lemma distinct_seat_indices [simp]: "distinct seat_indices"
  by (simp add: seat_indices_def)

datatype SeatType = SeatEmpty | SeatPlayer | SeatAI

record Seat =
  seat_type :: SeatType
  seat_socket_id :: string
  seat_name :: string
  seat_client_id :: string
  seat_decor :: string
  seat_user_id :: int
  seat_gameplay_session_id :: string
  seat_reconnect_token :: string
  seat_ai_managed :: bool
  seat_ai_takeover_at :: int
  seat_disconnected_at :: int

definition empty_seat :: Seat where
  "empty_seat =
     \<lparr>seat_type = SeatEmpty, seat_socket_id = [], seat_name = [], seat_client_id = [],
      seat_decor = ''none'', seat_user_id = 0, seat_gameplay_session_id = [],
      seat_reconnect_token = [], seat_ai_managed = False, seat_ai_takeover_at = 0,
      seat_disconnected_at = 0\<rparr>"

record PlayerState =
  p_seat_idx :: int
  chips :: int
  current_bet :: int
  hand_contribution :: int
  is_folded :: bool
  is_bankrupt :: bool
  hand :: "Card list"
  total_buy_in :: int
  pending_rebuy :: int
  sit_out_until_hand :: int

definition default_player :: PlayerState where
  "default_player =
     \<lparr>p_seat_idx = -1, chips = 1000, current_bet = 0, hand_contribution = 0, is_folded = False,
      is_bankrupt = False, hand = [], total_buy_in = 1000, pending_rebuy = 0,
      sit_out_until_hand = 0\<rparr>"

record RoomEventEntry =
  ev_seq :: int
  ev_envelope :: envelope
  ev_seat_idx :: int
  ev_created_at :: int

record Table =
  seats :: "Seat list"
  total_hands :: int
  initial_chips :: int
  small_blind :: int
  big_blind :: int
  hand_num :: int
  dealer_seat_idx :: int
  sb_seat_idx :: int
  bb_seat_idx :: int
  pot :: int
  round_name :: string
  community_cards :: "Card list"
  deck :: "Card list"
  current_max_bet :: int
  min_raise :: int
  active_seat_idx :: int
  pending_action_seats :: "int set"
  players :: "(int, PlayerState) smap"
  turn_nonce :: int
  last_actor_seat_idx :: int

record Room = Table +
  room_id :: string
  room_code :: string
  room_type :: string
  owner_user_id :: int
  visibility :: string
  status :: string
  max_players :: int
  created_at :: int
  last_active_at :: int
  empty_since :: "int option"
  socket_ids :: "string set"
  host_socket_id :: string
  started :: bool
  ai_timer :: "int option"
  voice_participants :: "(string, VoiceParticipant) smap"
  hand_history :: "MatchHandInfo list"
  activity_log :: "string list"
  event_seq :: int
  event_log :: "RoomEventEntry list"
  ai_takeover_timers :: "int set"
  closing :: bool
  expected_acks :: "string set"
  match_acks :: "string set"

text \<open>\<open>Room{}\<close> with the default member initialisers; \<open>now\<close> is the clock they read.\<close>

definition default_room :: "int \<Rightarrow> Room" where
  "default_room now =
     \<lparr>seats = replicate 10 empty_seat, total_hands = 5, initial_chips = 1000, small_blind = 50,
      big_blind = 100, hand_num = 0, dealer_seat_idx = 0, sb_seat_idx = -1, bb_seat_idx = -1,
      pot = 0, round_name = phase_to_string Waiting, community_cards = [], deck = [],
      current_max_bet = 0, min_raise = 100, active_seat_idx = -1, pending_action_seats = {},
      players = [], turn_nonce = 0, last_actor_seat_idx = -1,
      room_id = [], room_code = [], room_type = ''friend'', owner_user_id = 0,
      visibility = ''private'', status = ''waiting'', max_players = kSeats, created_at = now,
      last_active_at = now, empty_since = Some now, socket_ids = {}, host_socket_id = [],
      started = False, ai_timer = None, voice_participants = [], hand_history = [],
      activity_log = [], event_seq = 0, event_log = [], ai_takeover_timers = {},
      closing = False, expected_acks = {}, match_acks = {}\<rparr>"

definition seat_at :: "'a Table_scheme \<Rightarrow> int \<Rightarrow> Seat" where
  "seat_at r i = seats r ! nat i"

definition set_seat :: "int \<Rightarrow> Seat \<Rightarrow> 'a Table_scheme \<Rightarrow> 'a Table_scheme" where
  "set_seat i s r = r\<lparr>seats := (seats r)[nat i := s]\<rparr>"

text \<open>\<open>get_player\<close> returns a pointer; \<open>upd_player\<close> is a write through it.\<close>

definition get_player :: "'a Table_scheme \<Rightarrow> int \<Rightarrow> PlayerState option" where
  "get_player r i = smap_get (players r) i"

definition upd_player :: "int \<Rightarrow> (PlayerState \<Rightarrow> PlayerState) \<Rightarrow> 'a Table_scheme \<Rightarrow> 'a Table_scheme" where
  "upd_player i f r = r\<lparr>players := smap_adjust i f (players r)\<rparr>"

lemma get_upd_player [simp]:
  "get_player (upd_player i f r) j =
     (if j = i then map_option f (get_player r j) else get_player r j)"
  by (simp add: get_player_def upd_player_def smap_get_adjust)

record UserProfileData =
  ud_user_id :: int
  ud_external_id :: string
  ud_login_username :: string
  ud_username :: string
  ud_avatar :: string
  ud_gold :: int
  ud_games_played :: int
  ud_games_won :: int

record MatchStat =
  ms_external_id :: string
  ms_username :: string
  ms_gold_delta :: int
  ms_winner :: bool

record Session =
  ses_socket_id :: string
  ses_session_id :: string
  ses_gameplay_session_id :: string
  ses_room_id :: string
  ses_seat_idx :: int
  ses_name :: string
  ses_client_id :: string
  ses_user_id :: int
  ses_last_seen_seq :: int
  ses_authenticated :: bool
  ses_voice_joined :: bool
  ses_profile :: UserProfileData

record GameplaySession =
  gp_session_id :: string
  gp_user_id :: int
  gp_room_id :: string
  gp_seat_idx :: int
  gp_reconnect_token :: string
  gp_last_seen_seq :: int
  gp_last_disconnect_at :: int
  gp_ai_takeover_at :: int
  gp_expires_at :: int
  gp_ai_managed :: bool

end
