(* ===== verification/Events.thy ===== *)
theory Events
  imports Room_State
begin

section \<open>Server state, events and gameplay sessions (main.cpp)\<close>

text \<open>
  The part of \<open>PokerServer\<close> that a room's handlers read and write, and the functions that send.
  Handlers hold a reference \<open>Room& room\<close> into \<open>rooms_\<close>; the record \<open>Ctx\<close> is the server state
  together with that room.

  \<^item> \<open>outbox\<close> are the envelopes queued for the gateway, oldest first, each with its socket id.
  \<^item> The worker is single threaded; the clock \<open>now\<close> is read once per event it handles.
  \<^item> \<open>sessions_\<close> is keyed by socket id (its only writer is \<open>on_gateway_down_json\<close>), so the loop that
    looks for the session of a socket is a lookup.
  \<^item> \<open>auth_usernames\<close> is what \<open>auth_store_->find_by_user_id\<close> finds, \<open>recorded_matches\<close> the arguments
    that were passed to \<open>user_store_->record_match\<close> and \<open>leaderboard_store_->update\<close>, oldest first.
  \<^item> \<open>snapshots_on\<close> is the value of \<open>nebula_room_snapshots_enabled()\<close>.
\<close>

record Server =
  now :: int
  snapshots_on :: bool
  gateway_attached :: bool
  active_clients :: "string set"
  sessions :: "string \<rightharpoonup> Session"
  gameplay_sessions :: "string \<rightharpoonup> GameplaySession"
  snapshot_timers :: "string set"
  auth_usernames :: "int \<rightharpoonup> string"
  cached_users :: "string \<rightharpoonup> UserProfileData"
  recorded_matches :: "MatchStat list list"
  pending_match_rooms :: "int \<rightharpoonup> string"
  outbox :: "(string \<times> envelope) list"

record Ctx = Server +
  rm :: Room

text \<open>A write to the room alone.\<close>

definition on_room :: "(Room \<Rightarrow> Room) \<Rightarrow> Ctx \<Rightarrow> Ctx" where
  "on_room f c = c\<lparr>rm := f (rm c)\<rparr>"

subsection \<open>Sending\<close>

definition send_envelope :: "string \<Rightarrow> envelope \<Rightarrow> 'a Server_scheme \<Rightarrow> 'a Server_scheme" where
  "send_envelope socket_id env c =
     (if \<not> gateway_attached c then c else c\<lparr>outbox := outbox c @ [(socket_id, env)]\<rparr>)"

definition send_event :: "string \<Rightarrow> string \<Rightarrow> message \<Rightarrow> 'a Server_scheme \<Rightarrow> 'a Server_scheme" where
  "send_event socket_id event_name msg = send_envelope socket_id (event_name, msg)"

definition send_error :: "string \<Rightarrow> string \<Rightarrow> 'a Server_scheme \<Rightarrow> 'a Server_scheme" where
  "send_error socket_id text_msg = send_event socket_id ''error_msg'' (ErrorMessage text_msg)"

subsection \<open>Gameplay sessions\<close>

definition new_gameplay_session :: "string \<Rightarrow> int \<Rightarrow> int \<Rightarrow> GameplaySession" where
  "new_gameplay_session gid uid expires =
     \<lparr>gp_session_id = gid, gp_user_id = uid, gp_room_id = [], gp_seat_idx = -1,
      gp_reconnect_token = [], gp_last_seen_seq = 0, gp_last_disconnect_at = 0,
      gp_ai_takeover_at = 0, gp_expires_at = expires, gp_ai_managed = False\<rparr>"

text \<open>\<open>ensure_gameplay_session\<close> returns a reference; \<open>f\<close> is what the caller writes through it.\<close>

definition with_gameplay_session ::
  "string \<Rightarrow> int \<Rightarrow> (GameplaySession \<Rightarrow> GameplaySession) \<Rightarrow> 'a Server_scheme \<Rightarrow> 'a Server_scheme" where
  "with_gameplay_session gid uid f c =
     (let expires = now c + kGameplaySessionTtlMs;
          g = (case gameplay_sessions c gid of None \<Rightarrow> new_gameplay_session gid uid expires | Some g \<Rightarrow> g);
          g = (if uid > 0 then g\<lparr>gp_user_id := uid\<rparr> else g);
          g = g\<lparr>gp_expires_at := expires\<rparr>
      in c\<lparr>gameplay_sessions := (gameplay_sessions c)(gid \<mapsto> f g)\<rparr>)"

text \<open>\<open>get_gameplay_session\<close> erases an expired session and then finds none.\<close>

definition get_gameplay_session ::
  "string \<Rightarrow> 'a Server_scheme \<Rightarrow> GameplaySession option \<times> 'a Server_scheme" where
  "get_gameplay_session gid c =
     (case gameplay_sessions c gid of
        None \<Rightarrow> (None, c)
      | Some g \<Rightarrow>
          if gp_expires_at g < now c
          then (None, c\<lparr>gameplay_sessions := (gameplay_sessions c)(gid := None)\<rparr>)
          else (Some g, c))"

definition mark_last_seen_for_socket :: "string \<Rightarrow> int \<Rightarrow> 'a Server_scheme \<Rightarrow> 'a Server_scheme" where
  "mark_last_seen_for_socket socket_id seq c =
     (case sessions c socket_id of
        None \<Rightarrow> c
      | Some s \<Rightarrow>
          let s = s\<lparr>ses_last_seen_seq := max (ses_last_seen_seq s) seq\<rparr>;
              c = c\<lparr>sessions := (sessions c)(socket_id \<mapsto> s)\<rparr>
          in if ses_gameplay_session_id s = [] then c
             else with_gameplay_session (ses_gameplay_session_id s) (ses_user_id s)
                    (\<lambda>g. g\<lparr>gp_last_seen_seq := max (gp_last_seen_seq g) seq,
                           gp_room_id := ses_room_id s, gp_seat_idx := ses_seat_idx s\<rparr>) c)"

subsection \<open>The room's event log\<close>

text \<open>\<open>while (event_log.size() > kRoomEventLogLimit) event_log.pop_front();\<close>\<close>

definition trim_event_log :: "RoomEventEntry list \<Rightarrow> RoomEventEntry list" where
  "trim_event_log es = drop (length es - kRoomEventLogLimit) es"

definition append_room_event :: "int \<Rightarrow> envelope \<Rightarrow> int \<Rightarrow> Room \<Rightarrow> Room" where
  "append_room_event created env seat_idx r =
     (let seq = event_seq r + 1 in
      r\<lparr>event_seq := seq,
        event_log := trim_event_log (event_log r @
          [\<lparr>ev_seq = seq, ev_envelope = env, ev_seat_idx = seat_idx, ev_created_at = created\<rparr>])\<rparr>)"

definition touch_room_snapshot :: "Ctx \<Rightarrow> Ctx" where
  "touch_room_snapshot c =
     (if \<not> snapshots_on c then c
      else c\<lparr>rm := (rm c)\<lparr>last_active_at := now c\<rparr>,
             snapshot_timers := insert (room_id (rm c)) (snapshot_timers c)\<rparr>)"

text \<open>The sockets of a \<open>std::set<std::string>\<close> in the order a range-for visits them.\<close>

definition room_sockets :: "Room \<Rightarrow> string list" where
  "room_sockets r = sorted_list_of_set (socket_ids r)"

definition emit_room_event :: "string \<Rightarrow> message \<Rightarrow> Ctx \<Rightarrow> Ctx" where
  "emit_room_event event_name msg c =
     (let env = (event_name, msg);
          c = on_room (append_room_event (now c) env (-1)) c;
          seq = event_seq (rm c);
          c = fold (\<lambda>sid c. mark_last_seen_for_socket sid seq (send_envelope sid env c))
                (room_sockets (rm c)) c
      in touch_room_snapshot c)"

definition emit_seat_event :: "int \<Rightarrow> string \<Rightarrow> message \<Rightarrow> Ctx \<Rightarrow> Ctx" where
  "emit_seat_event seat_idx event_name msg c =
     (if seat_idx < 0 \<or> seat_idx \<ge> kSeats then c
      else
        let seat = seat_at (rm c) seat_idx in
        if seat_type seat = SeatEmpty then c
        else
          let env = (event_name, msg);
              c = on_room (append_room_event (now c) env seat_idx) c;
              c = (if seat_socket_id seat = [] then c else send_envelope (seat_socket_id seat) env c);
              c = (if seat_gameplay_session_id seat = [] then c
                   else with_gameplay_session (seat_gameplay_session_id seat) (seat_user_id seat)
                     (\<lambda>g. g\<lparr>gp_last_seen_seq := max (gp_last_seen_seq g) (event_seq (rm c)),
                            gp_room_id := room_id (rm c), gp_seat_idx := seat_idx,
                            gp_reconnect_token := seat_reconnect_token seat,
                            gp_ai_managed := seat_ai_managed seat,
                            gp_ai_takeover_at := seat_ai_takeover_at seat\<rparr>) c)
          in touch_room_snapshot c)"

subsection \<open>Replay after a reconnect\<close>

text \<open>
  The loop over the log, for a session that has seen everything up to \<open>last_seen\<close>: the entries it
  sends, in order.
\<close>

definition missed_events :: "int \<Rightarrow> int \<Rightarrow> RoomEventEntry list \<Rightarrow> RoomEventEntry list" where
  "missed_events last_seen seat_idx log =
     filter (\<lambda>e. \<not> ev_seq e \<le> last_seen \<and> \<not> (ev_seat_idx e \<ge> 0 \<and> ev_seat_idx e \<noteq> seat_idx)) log"

definition replay_missed_events :: "string \<Rightarrow> Ctx \<Rightarrow> Ctx" where
  "replay_missed_events socket_id c =
     (case sessions c socket_id of
        None \<Rightarrow> c
      | Some s \<Rightarrow>
          let gid = ses_gameplay_session_id s;
              (last_seen, c) =
                (if gid = [] then (ses_last_seen_seq s, c)
                 else case get_gameplay_session gid c of
                        (None, c) \<Rightarrow> (ses_last_seen_seq s, c)
                      | (Some g, c) \<Rightarrow> (max (ses_last_seen_seq s) (gp_last_seen_seq g), c));
              missed = missed_events last_seen (ses_seat_idx s) (event_log (rm c));
              c = fold (\<lambda>e. send_envelope (ses_socket_id s) (ev_envelope e)) missed c;
              s = s\<lparr>ses_last_seen_seq := fold (\<lambda>e n. max n (ev_seq e)) missed (ses_last_seen_seq s)\<rparr>;
              c = c\<lparr>sessions := (sessions c)(socket_id \<mapsto> s)\<rparr>
          in if gid = [] then c
             else with_gameplay_session gid (ses_user_id s)
                    (\<lambda>g. g\<lparr>gp_last_seen_seq := max (gp_last_seen_seq g) (ses_last_seen_seq s),
                           gp_room_id := ses_room_id s, gp_seat_idx := ses_seat_idx s\<rparr>) c)"

subsection \<open>What sending leaves alone\<close>

lemma send_envelope_frame [frame, simp]:
  "rm (send_envelope sid env c) = rm c"
  "active_clients (send_envelope sid env c') = active_clients c'"
  "now (send_envelope sid env c') = now c'"
  "sessions (send_envelope sid env c') = sessions c'"
  "gameplay_sessions (send_envelope sid env c') = gameplay_sessions c'"
  "snapshots_on (send_envelope sid env c') = snapshots_on c'"
  "gateway_attached (send_envelope sid env c') = gateway_attached c'"
  by (simp_all add: send_envelope_def)

lemma send_event_frame [frame, simp]:
  "rm (send_event sid n m c) = rm c"
  "active_clients (send_event sid n m c') = active_clients c'"
  "now (send_event sid n m c') = now c'"
  "sessions (send_event sid n m c') = sessions c'"
  "gameplay_sessions (send_event sid n m c') = gameplay_sessions c'"
  "snapshots_on (send_event sid n m c') = snapshots_on c'"
  by (simp_all add: send_event_def)

lemma send_error_frame [frame, simp]:
  "rm (send_error sid t c) = rm c"
  "active_clients (send_error sid t c') = active_clients c'"
  "now (send_error sid t c') = now c'"
  "sessions (send_error sid t c') = sessions c'"
  by (simp_all add: send_error_def)

lemma with_gameplay_session_frame [frame, simp]:
  "rm (with_gameplay_session gid uid f c) = rm c"
  "active_clients (with_gameplay_session gid uid f c') = active_clients c'"
  "now (with_gameplay_session gid uid f c') = now c'"
  "outbox (with_gameplay_session gid uid f c') = outbox c'"
  "sessions (with_gameplay_session gid uid f c') = sessions c'"
  "snapshots_on (with_gameplay_session gid uid f c') = snapshots_on c'"
  "gateway_attached (with_gameplay_session gid uid f c') = gateway_attached c'"
  by (simp_all add: with_gameplay_session_def Let_def)

lemma mark_last_seen_frame [frame, simp]:
  "rm (mark_last_seen_for_socket sid n c) = rm c"
  "active_clients (mark_last_seen_for_socket sid n c') = active_clients c'"
  "now (mark_last_seen_for_socket sid n c') = now c'"
  "outbox (mark_last_seen_for_socket sid n c') = outbox c'"
  "snapshots_on (mark_last_seen_for_socket sid n c') = snapshots_on c'"
  "gateway_attached (mark_last_seen_for_socket sid n c') = gateway_attached c'"
  by (simp_all add: mark_last_seen_for_socket_def Let_def split: option.splits)

lemma on_room_simps [simp]:
  "rm (on_room f c) = f (rm c)"
  "active_clients (on_room f c) = active_clients c"
  "now (on_room f c) = now c"
  "outbox (on_room f c) = outbox c"
  "sessions (on_room f c) = sessions c"
  "gameplay_sessions (on_room f c) = gameplay_sessions c"
  "snapshots_on (on_room f c) = snapshots_on c"
  "gateway_attached (on_room f c) = gateway_attached c"
  by (simp_all add: on_room_def)

lemma fold_frame:
  assumes "\<And>x c. f (g x c) = f c"
  shows "f (fold g xs c) = f c"
  using assms by (induction xs arbitrary: c) auto

text \<open>
  The effect of an emitted event on the room: the entry is appended, and nothing but the log, its
  sequence number and the activity time changes.
\<close>

definition logged :: "'a Server_scheme \<Rightarrow> envelope \<Rightarrow> int \<Rightarrow> Room \<Rightarrow> Room" where
  "logged c env seat_idx r =
     (append_room_event (now c) env seat_idx r)
       \<lparr>last_active_at := (if snapshots_on c then now c else last_active_at r)\<rparr>"

lemma rm_emit_room_event: "rm (emit_room_event n m c) = logged c (n, m) (-1) (rm c)"
  by (simp add: emit_room_event_def Let_def touch_room_snapshot_def logged_def fold_frame
      append_room_event_def)

lemma emit_room_event_frame [frame, simp]:
  "active_clients (emit_room_event n m c) = active_clients c"
  "now (emit_room_event n m c) = now c"
  "snapshots_on (emit_room_event n m c) = snapshots_on c"
  "gateway_attached (emit_room_event n m c) = gateway_attached c"
  by (simp_all add: emit_room_event_def Let_def touch_room_snapshot_def fold_frame)

lemma emit_seat_event_frame [frame, simp]:
  "active_clients (emit_seat_event i n m c) = active_clients c"
  "now (emit_seat_event i n m c) = now c"
  "snapshots_on (emit_seat_event i n m c) = snapshots_on c"
  "gateway_attached (emit_seat_event i n m c) = gateway_attached c"
  by (simp_all add: emit_seat_event_def Let_def touch_room_snapshot_def)

lemma rm_emit_seat_event:
  "rm (emit_seat_event i n m c) =
     (if i < 0 \<or> i \<ge> kSeats \<or> seat_type (seat_at (rm c) i) = SeatEmpty then rm c
      else logged c (n, m) i (rm c))"
  by (simp add: emit_seat_event_def Let_def touch_room_snapshot_def logged_def append_room_event_def)

end
