(* ===== verification/Broadcasts.thy ===== *)
theory Broadcasts
  imports Events
begin

section \<open>What the room tells its clients (main.cpp)\<close>

text \<open>
  The two snapshots of a room, \<open>build_room_state\<close> and \<open>build_game_state\<close>, and the functions that
  send them. \<open>fill_card\<close> copies a card field by field into its protobuf message, so messages hold
  the cards themselves.
\<close>

definition find_host_seat_idx :: "Room \<Rightarrow> int" where
  "find_host_seat_idx r =
     (case find (\<lambda>i. seat_type (seat_at r i) = SeatPlayer \<and>
                     seat_socket_id (seat_at r i) = host_socket_id r) seat_indices of
        Some i \<Rightarrow> i | None \<Rightarrow> -1)"

definition type_label :: "SeatType \<Rightarrow> string" where
  "type_label t = (if t = SeatAI then ''ai'' else ''player'')"

definition room_settings :: "'a Table_scheme \<Rightarrow> SettingsMsg" where
  "room_settings r =
     \<lparr>sm_total_hands = total_hands r, sm_initial_chips = initial_chips r,
      sm_small_blind = small_blind r, sm_big_blind = big_blind r\<rparr>"

definition build_room_state :: "Room \<Rightarrow> string \<Rightarrow> RoomStateMsg" where
  "build_room_state r for_socket_id =
     \<lparr>rs_room_id = room_id r, rs_host_socket_id = host_socket_id r,
      rs_host_seat_idx = find_host_seat_idx r, rs_is_host = (for_socket_id = host_socket_id r),
      rs_started = started r,
      rs_seats =
        [\<lparr>tm_seat_idx = i, tm_type = type_label (seat_type (seat_at r i)),
          tm_name = seat_name (seat_at r i), tm_decor = seat_decor (seat_at r i),
          tm_socket_id = seat_socket_id (seat_at r i), tm_client_id = seat_client_id (seat_at r i),
          tm_ai_managed = seat_ai_managed (seat_at r i),
          tm_disconnected_at = seat_disconnected_at (seat_at r i)\<rparr>.
         i \<leftarrow> seat_indices, seat_type (seat_at r i) \<noteq> SeatEmpty],
      rs_settings = room_settings r, rs_owner_user_id = owner_user_id r,
      rs_room_code = room_code r, rs_visibility = visibility r, rs_status = status r,
      rs_max_players = max_players r\<rparr>"

definition player_msg :: "Room \<Rightarrow> int \<Rightarrow> PlayerState \<Rightarrow> PlayerMsg" where
  "player_msg r i p =
     \<lparr>pm_seat_idx = i, pm_name = seat_name (seat_at r i),
      pm_type = type_label (seat_type (seat_at r i)), pm_chips = chips p,
      pm_current_bet = current_bet p, pm_is_folded = is_folded p, pm_is_bankrupt = is_bankrupt p,
      pm_total_buy_in = total_buy_in p\<rparr>"

definition build_game_state :: "Room \<Rightarrow> GameStateMsg" where
  "build_game_state r =
     \<lparr>gs_room_id = room_id r, gs_started = started r, gs_settings = room_settings r,
      gs_hand_num = hand_num r, gs_dealer_seat_idx = dealer_seat_idx r,
      gs_sb_seat_idx = sb_seat_idx r, gs_bb_seat_idx = bb_seat_idx r,
      gs_active_seat_idx = active_seat_idx r, gs_pot = pot r, gs_round = round_name r,
      gs_community_cards = community_cards r, gs_current_max_bet = current_max_bet r,
      gs_min_raise = min_raise r,
      gs_players =
        List.map_filter
          (\<lambda>i. if seat_type (seat_at r i) = SeatEmpty then None
               else map_option (player_msg r i) (get_player r i))
          seat_indices\<rparr>"

definition broadcast_room :: "Ctx \<Rightarrow> Ctx" where
  "broadcast_room c =
     touch_room_snapshot
       (fold (\<lambda>sid c.
          mark_last_seen_for_socket sid (event_seq (rm c))
            (send_event sid ''room_state'' (RoomState (build_room_state (rm c) sid)) c))
        (room_sockets (rm c)) c)"

definition broadcast_game :: "Ctx \<Rightarrow> Ctx" where
  "broadcast_game c = emit_room_event ''game_state'' (GameState (build_game_state (rm c))) c"

definition push_activity :: "string \<Rightarrow> Room \<Rightarrow> Room" where
  "push_activity msg r =
     r\<lparr>activity_log := (let l = activity_log r @ [msg] in
        if length l > 250 then drop (length l - 250) l else l)\<rparr>"

definition broadcast_activity :: "string \<Rightarrow> Ctx \<Rightarrow> Ctx" where
  "broadcast_activity msg c =
     emit_room_event ''activity'' (TextMessage msg) (on_room (push_activity msg) c)"

definition broadcast_player_action :: "int \<Rightarrow> string \<Rightarrow> Ctx \<Rightarrow> Ctx" where
  "broadcast_player_action seat_idx txt c =
     emit_room_event ''player_action'' (PlayerAction seat_idx txt) c"

definition cancel_ai_takeover :: "int \<Rightarrow> Ctx \<Rightarrow> Ctx" where
  "cancel_ai_takeover seat_idx c =
     (if seat_idx < 0 \<or> seat_idx \<ge> kSeats then c
      else
        let c = on_room (\<lambda>r. (set_seat seat_idx
                    ((seat_at r seat_idx)\<lparr>seat_ai_managed := False, seat_ai_takeover_at := 0\<rparr>) r)
                  \<lparr>ai_takeover_timers := ai_takeover_timers r - {seat_idx}\<rparr>) c;
            seat = seat_at (rm c) seat_idx
        in if seat_gameplay_session_id seat = [] then c
           else with_gameplay_session (seat_gameplay_session_id seat) (seat_user_id seat)
             (\<lambda>g. g\<lparr>gp_ai_managed := False, gp_ai_takeover_at := 0, gp_room_id := room_id (rm c),
                    gp_seat_idx := seat_idx, gp_reconnect_token := seat_reconnect_token seat\<rparr>) c)"

definition emit_you_state :: "Session \<Rightarrow> Ctx \<Rightarrow> Ctx" where
  "emit_you_state s c =
     send_event (ses_socket_id s) ''you_state''
       (YouState (room_id (rm c)) (ses_seat_idx s) (ses_socket_id s = host_socket_id (rm c))) c"

definition send_full_state_sync :: "Session \<Rightarrow> bool \<Rightarrow> Ctx \<Rightarrow> Ctx" where
  "send_full_state_sync s include_private_hand c =
     (let sid = ses_socket_id s; seat_ok = (ses_seat_idx s \<ge> 0 \<and> ses_seat_idx s < kSeats);
          c = send_event sid ''room_state'' (RoomState (build_room_state (rm c) sid)) c;
          c = emit_you_state s c;
          c = send_event sid ''activity_sync'' (ActivitySync (activity_log (rm c))) c;
          c = send_event sid ''game_state'' (GameState (build_game_state (rm c))) c;
          c = (if seat_ok
               then send_event sid ''seat_session''
                      (SeatSession \<lparr>ss_room_id = room_id (rm c),
                         ss_reconnect_token = seat_reconnect_token (seat_at (rm c) (ses_seat_idx s)),
                         ss_session_id = ses_gameplay_session_id s,
                         ss_last_seen_seq = ses_last_seen_seq s\<rparr>) c
               else c)
      in if \<not> include_private_hand \<or> \<not> seat_ok then c
         else case get_player (rm c) (ses_seat_idx s) of
                None \<Rightarrow> c
              | Some p \<Rightarrow>
                  if length (hand p) < 2 then c
                  else send_event sid ''private_hand'' (PrivateHand (ses_seat_idx s) (hand p)) c)"

subsection \<open>Broadcasts do not touch the game\<close>

text \<open>
  \<open>same_table c d\<close>: the two contexts agree on everything the game rules read. Sending, logging and
  the session bookkeeping keep it.
\<close>

lemma truncate_logged [simp]: "Table.truncate (logged c e i r) = Table.truncate r"
  by (simp add: logged_def append_room_event_def Let_def Table.truncate_def)

lemma truncate_push_activity [simp]: "Table.truncate (push_activity m r) = Table.truncate r"
  by (simp add: push_activity_def Table.truncate_def)

lemma truncate_fields:
  assumes "Table.truncate r = Table.truncate r'"
  shows "seats r = seats r'" "total_hands r = total_hands r'" "initial_chips r = initial_chips r'"
    "small_blind r = small_blind r'" "big_blind r = big_blind r'" "hand_num r = hand_num r'"
    "dealer_seat_idx r = dealer_seat_idx r'" "sb_seat_idx r = sb_seat_idx r'"
    "bb_seat_idx r = bb_seat_idx r'" "pot r = pot r'" "round_name r = round_name r'"
    "community_cards r = community_cards r'" "deck r = deck r'"
    "current_max_bet r = current_max_bet r'" "min_raise r = min_raise r'"
    "active_seat_idx r = active_seat_idx r'" "pending_action_seats r = pending_action_seats r'"
    "players r = players r'" "turn_nonce r = turn_nonce r'"
    "last_actor_seat_idx r = last_actor_seat_idx r'"
  using assms by (simp_all add: Table.truncate_def)

text \<open>The table a context holds, and the online set its rules read.\<close>

definition game_of :: "Ctx \<Rightarrow> Table" where
  "game_of c = Table.truncate (rm c)"

lemma game_of_send [frame, simp]:
  "game_of (send_envelope sid e c) = game_of c"
  "game_of (send_event sid n m c) = game_of c"
  "game_of (send_error sid t c) = game_of c"
  "game_of (with_gameplay_session g u f c) = game_of c"
  "game_of (mark_last_seen_for_socket sid n' c) = game_of c"
  by (simp_all add: game_of_def)

lemma game_of_touch [frame, simp]:
  "game_of (touch_room_snapshot c) = game_of c"
  by (simp add: game_of_def touch_room_snapshot_def Table.truncate_def)

lemma game_of_emit [frame, simp]:
  "game_of (emit_room_event n m c) = game_of c"
  "game_of (emit_seat_event i n m c) = game_of c"
  by (simp_all add: game_of_def rm_emit_room_event rm_emit_seat_event)

lemma game_of_broadcast [frame, simp]:
  "game_of (broadcast_game c) = game_of c"
  "game_of (broadcast_activity t c) = game_of c"
  "game_of (broadcast_player_action i t c) = game_of c"
  by (simp_all add: broadcast_game_def broadcast_activity_def broadcast_player_action_def,
      simp add: game_of_def)

lemma game_of_broadcast_room [frame, simp]: "game_of (broadcast_room c) = game_of c"
  by (simp add: broadcast_room_def fold_frame)

lemma clients_broadcast [frame, simp]:
  "active_clients (broadcast_game c) = active_clients c"
  "active_clients (broadcast_activity t c) = active_clients c"
  "active_clients (broadcast_player_action i t c) = active_clients c"
  by (simp_all add: broadcast_game_def broadcast_activity_def broadcast_player_action_def)

lemma clients_touch [frame, simp]: "active_clients (touch_room_snapshot c) = active_clients c"
  by (simp add: touch_room_snapshot_def)

lemma clients_broadcast_room [frame, simp]:
  "active_clients (broadcast_room c) = active_clients c"
  by (simp add: broadcast_room_def fold_frame)

end
