(* ===== verification/Table_Ops.thy ===== *)
theory Table_Ops
  imports Room_State "HOL-Library.Multiset"
begin

section \<open>The table's helpers (main.cpp)\<close>

text \<open>
  The functions on seats, players, deck and betting round that send nothing. They are written on
  every extension of \<open>Table\<close>: on the room itself and on its game part alone. \<open>clients\<close> is
  \<open>active_gateway_clients_\<close>, which decides who is online.

  \<^item> \<open>%\<close> is applied to non-negative numbers only, where C++ and \<open>mod\<close> agree.
  \<^item> \<open>std::shuffle\<close> is the parameter \<open>shuf\<close>; the standard guarantees that its result is a permutation.
\<close>

definition is_online :: "string set \<Rightarrow> string \<Rightarrow> bool" where
  "is_online clients sid \<longleftrightarrow> sid \<noteq> [] \<and> sid \<in> clients"

text \<open>The guard the seat loops share: an occupied seat whose player is here or run by the AI.\<close>

definition seat_live :: "string set \<Rightarrow> 'a Table_scheme \<Rightarrow> int \<Rightarrow> bool" where
  "seat_live clients r i \<longleftrightarrow>
     seat_type (seat_at r i) \<noteq> SeatEmpty \<and>
     \<not> (seat_type (seat_at r i) = SeatPlayer \<and> \<not> is_online clients (seat_socket_id (seat_at r i)) \<and>
        \<not> seat_ai_managed (seat_at r i))"

subsection \<open>Players\<close>

definition new_player :: "'a Table_scheme \<Rightarrow> int \<Rightarrow> PlayerState" where
  "new_player r i =
     default_player\<lparr>p_seat_idx := i, chips := initial_chips r, total_buy_in := initial_chips r\<rparr>"

definition add_missing_player :: "int \<Rightarrow> 'a Table_scheme \<Rightarrow> 'a Table_scheme" where
  "add_missing_player i r =
     (if seat_type (seat_at r i) = SeatEmpty then r
      else case get_player r i of
             Some p \<Rightarrow> r
           | None \<Rightarrow> r\<lparr>players := smap_put i (new_player r i) (players r)\<rparr>)"

definition ensure_players_map :: "'a Table_scheme \<Rightarrow> 'a Table_scheme" where
  "ensure_players_map r =
     (let r = fold add_missing_player seat_indices r
      in r\<lparr>players := filter (\<lambda>(i, p). seat_type (seat_at r i) \<noteq> SeatEmpty) (players r)\<rparr>)"

definition is_seat_eligible :: "string set \<Rightarrow> 'a Table_scheme \<Rightarrow> int \<Rightarrow> bool" where
  "is_seat_eligible clients r i =
     (seat_live clients r i \<and>
      (case get_player r i of
         None \<Rightarrow> False
       | Some p \<Rightarrow> \<not> is_bankrupt p \<and> chips p > 0 \<and> \<not> sit_out_until_hand p > hand_num r))"

definition in_hand :: "string set \<Rightarrow> 'a Table_scheme \<Rightarrow> int \<Rightarrow> bool" where
  "in_hand clients r i =
     (seat_live clients r i \<and>
      (case get_player r i of
         None \<Rightarrow> False
       | Some p \<Rightarrow> \<not> is_folded p \<and> \<not> is_bankrupt p \<and> sit_out_until_hand p \<le> hand_num r))"

definition get_in_hand_seats :: "string set \<Rightarrow> 'a Table_scheme \<Rightarrow> int list" where
  "get_in_hand_seats clients r = filter (in_hand clients r) seat_indices"

definition actable :: "string set \<Rightarrow> 'a Table_scheme \<Rightarrow> int \<Rightarrow> bool" where
  "actable clients r i =
     (seat_live clients r i \<and>
      (case get_player r i of
         None \<Rightarrow> False
       | Some p \<Rightarrow> \<not> is_folded p \<and> \<not> is_bankrupt p \<and> chips p > 0 \<and>
                   sit_out_until_hand p \<le> hand_num r))"

definition get_actable_seats :: "string set \<Rightarrow> 'a Table_scheme \<Rightarrow> int list" where
  "get_actable_seats clients r = filter (actable clients r) seat_indices"

subsection \<open>Going round the table\<close>

fun clockwise_loop :: "nat \<Rightarrow> int \<Rightarrow> int \<Rightarrow> (int \<Rightarrow> bool) \<Rightarrow> int" where
  "clockwise_loop 0 step from pred = -1"
| "clockwise_loop (Suc n) step from pred =
     (let idx = (from + step) mod kSeats
      in if pred idx then idx else clockwise_loop n (step + 1) from pred)"

definition next_seat_clockwise :: "int \<Rightarrow> (int \<Rightarrow> bool) \<Rightarrow> int" where
  "next_seat_clockwise from pred = clockwise_loop (nat kSeats) 1 from pred"

fun active_offset_loop :: "nat \<Rightarrow> (int \<Rightarrow> bool) \<Rightarrow> int \<Rightarrow> int \<Rightarrow> int \<Rightarrow> int" where
  "active_offset_loop 0 elig cnt offset idx = idx"
| "active_offset_loop (Suc n) elig cnt offset idx =
     (if cnt < offset then
        let idx = (idx + 1) mod kSeats
        in active_offset_loop n elig (if elig idx then cnt + 1 else cnt) offset idx
      else idx)"

definition get_active_offset :: "string set \<Rightarrow> 'a Table_scheme \<Rightarrow> int \<Rightarrow> int \<Rightarrow> int" where
  "get_active_offset clients r start_seat_idx offset =
     active_offset_loop (nat (kSeats * 3)) (is_seat_eligible clients r) 0 offset start_seat_idx"

subsection \<open>Cards\<close>

definition rank_names :: "string list" where
  "rank_names = [''2'', ''3'', ''4'', ''5'', ''6'', ''7'', ''8'', ''9'', ''10'', ''J'', ''Q'', ''K'', ''A'']"

definition suit_names :: "string list" where
  "suit_names = [''hearts'', ''diamonds'', ''clubs'', ''spades'']"

definition ordered_deck :: "Card list" where
  "ordered_deck =
     [\<lparr>card_s = s, card_r = rank_names ! i, card_v = int i + 2\<rparr>. s \<leftarrow> suit_names, i \<leftarrow> [0..<13]]"

definition fresh_deck :: "(Card list \<Rightarrow> Card list) \<Rightarrow> Card list" where
  "fresh_deck shuf = shuf ordered_deck"

definition deal_one :: "int \<Rightarrow> 'a Table_scheme \<Rightarrow> 'a Table_scheme" where
  "deal_one seat_idx r =
     (if get_player r seat_idx = None \<or> deck r = [] then r
      else (upd_player seat_idx (\<lambda>p. p\<lparr>hand := hand p @ [last (deck r)]\<rparr>) r)
             \<lparr>deck := butlast (deck r)\<rparr>)"

definition deal_order :: "string set \<Rightarrow> 'a Table_scheme \<Rightarrow> int list" where
  "deal_order clients r =
     filter (is_seat_eligible clients r) (map (\<lambda>i. (dealer_seat_idx r + 1 + i) mod kSeats) seat_indices)"

definition deal_hole_cards :: "string set \<Rightarrow> 'a Table_scheme \<Rightarrow> 'a Table_scheme" where
  "deal_hole_cards clients r =
     (let eligible = deal_order clients r in fold deal_one eligible (fold deal_one eligible r))"

fun deal_community :: "nat \<Rightarrow> 'a Table_scheme \<Rightarrow> 'a Table_scheme" where
  "deal_community 0 r = r"
| "deal_community (Suc n) r =
     (if deck r = [] then r
      else deal_community n
             (r\<lparr>community_cards := community_cards r @ [last (deck r)], deck := butlast (deck r)\<rparr>))"

subsection \<open>Betting\<close>

definition commit :: "int \<Rightarrow> PlayerState \<Rightarrow> PlayerState" where
  "commit real p =
     p\<lparr>chips := chips p - real, current_bet := current_bet p + real,
       hand_contribution := hand_contribution p + real\<rparr>"

definition place_bet :: "int \<Rightarrow> int \<Rightarrow> 'a Table_scheme \<Rightarrow> int \<times> 'a Table_scheme" where
  "place_bet seat_idx amount r =
     (case get_player r seat_idx of
        None \<Rightarrow> (0, r)
      | Some p \<Rightarrow>
          if is_folded p \<or> is_bankrupt p then (0, r)
          else let real = max 0 (min amount (chips p));
                   r = upd_player seat_idx (commit real) r
               in (real, r\<lparr>pot := pot r + real\<rparr>))"

definition post_blind :: "int \<Rightarrow> int \<Rightarrow> 'a Table_scheme \<Rightarrow> 'a Table_scheme" where
  "post_blind seat_idx amount r =
     (let (real, r) = place_bet seat_idx amount r
      in case get_player r seat_idx of
           None \<Rightarrow> r
         | Some p \<Rightarrow> r\<lparr>current_max_bet := max (current_max_bet r) (current_bet p)\<rparr>)"

definition reset_player :: "string set \<Rightarrow> 'a Table_scheme \<Rightarrow> int \<Rightarrow> PlayerState \<Rightarrow> PlayerState" where
  "reset_player clients r seat_idx p =
     (let seat = seat_at r seat_idx;
          disconnected = (seat_type seat = SeatPlayer \<and> \<not> is_online clients (seat_socket_id seat) \<and>
                          \<not> seat_ai_managed seat);
          sit_out = (sit_out_until_hand p > hand_num r)
      in p\<lparr>hand := [], current_bet := 0, hand_contribution := 0,
           is_folded := (chips p \<le> 0 \<or> disconnected \<or> sit_out), is_bankrupt := (chips p \<le> 0)\<rparr>)"

definition reset_hand ::
  "(Card list \<Rightarrow> Card list) \<Rightarrow> string set \<Rightarrow> 'a Table_scheme \<Rightarrow> 'a Table_scheme" where
  "reset_hand shuf clients r =
     (let r = r\<lparr>hand_num := hand_num r + 1, pot := 0, round_name := phase_to_string PreFlop,
                community_cards := [], deck := fresh_deck shuf, current_max_bet := 0,
                pending_action_seats := {}, turn_nonce := turn_nonce r + 1,
                last_actor_seat_idx := -1\<rparr>
      in r\<lparr>players := smap_each (reset_player clients r) (players r)\<rparr>)"

definition init_pending_action :: "string set \<Rightarrow> int \<Rightarrow> 'a Table_scheme \<Rightarrow> 'a Table_scheme" where
  "init_pending_action clients start_seat_idx r =
     r\<lparr>pending_action_seats := set (get_actable_seats clients r), active_seat_idx := start_seat_idx\<rparr>"

definition can_still_act :: "'a Table_scheme \<Rightarrow> int \<Rightarrow> bool" where
  "can_still_act r i =
     (case get_player r i of
        None \<Rightarrow> False | Some p \<Rightarrow> \<not> (is_folded p \<or> is_bankrupt p \<or> chips p \<le> 0))"

definition remove_ineligible_from_pending :: "'a Table_scheme \<Rightarrow> 'a Table_scheme" where
  "remove_ineligible_from_pending r =
     r\<lparr>pending_action_seats := {i \<in> pending_action_seats r. can_still_act r i}\<rparr>"

definition choose_next_actor :: "int \<Rightarrow> 'a Table_scheme \<Rightarrow> int \<times> 'a Table_scheme" where
  "choose_next_actor from_seat_idx r =
     (let r = remove_ineligible_from_pending r
      in if pending_action_seats r = {} then (-1, r)
         else (next_seat_clockwise from_seat_idx (\<lambda>idx. idx \<in> pending_action_seats r), r))"

definition can_advance_street :: "'a Table_scheme \<Rightarrow> bool \<times> 'a Table_scheme" where
  "can_advance_street r =
     (let r = remove_ineligible_from_pending r in (pending_action_seats r = {}, r))"

subsection \<open>Well-formed tables\<close>

definition player_ok :: "PlayerState \<Rightarrow> bool" where
  "player_ok p \<longleftrightarrow> 0 \<le> chips p \<and> 0 \<le> current_bet p \<and> current_bet p \<le> hand_contribution p"

definition table_ok :: "'a Table_scheme \<Rightarrow> bool" where
  "table_ok r \<longleftrightarrow>
     length (seats r) = 10 \<and> smap_wf (players r) \<and> set (smap_keys (players r)) \<subseteq> {0..<kSeats} \<and>
     (\<forall>p\<in>set (smap_vals (players r)). player_ok p) \<and> 0 \<le> dealer_seat_idx r \<and>
     dealer_seat_idx r < kSeats \<and> 0 \<le> initial_chips r"

definition table_chips :: "'a Table_scheme \<Rightarrow> int" where
  "table_chips r = smap_sum chips (players r)"

definition table_contrib :: "'a Table_scheme \<Rightarrow> int" where
  "table_contrib r = smap_sum hand_contribution (players r)"

lemma get_player_mem: "get_player r i = Some p \<Longrightarrow> (i, p) \<in> set (players r)"
  by (simp add: get_player_def smap_get_mem)

lemma table_ok_player: "table_ok r \<Longrightarrow> get_player r i = Some p \<Longrightarrow> player_ok p"
  by (force simp: table_ok_def smap_vals_def dest!: get_player_mem)

lemma table_ok_seat: "table_ok r \<Longrightarrow> get_player r i = Some p \<Longrightarrow> 0 \<le> i \<and> i < kSeats"
  by (force simp: table_ok_def smap_keys_def dest!: get_player_mem)

lemma upd_player_fields [simp]:
  "seats (upd_player i f r) = seats r" "pot (upd_player i f r) = pot r"
  "deck (upd_player i f r) = deck r" "community_cards (upd_player i f r) = community_cards r"
  "dealer_seat_idx (upd_player i f r) = dealer_seat_idx r" "hand_num (upd_player i f r) = hand_num r"
  "current_max_bet (upd_player i f r) = current_max_bet r" "min_raise (upd_player i f r) = min_raise r"
  "active_seat_idx (upd_player i f r) = active_seat_idx r" "round_name (upd_player i f r) = round_name r"
  "pending_action_seats (upd_player i f r) = pending_action_seats r"
  "initial_chips (upd_player i f r) = initial_chips r"
  "big_blind (upd_player i f r) = big_blind r" "small_blind (upd_player i f r) = small_blind r"
  "last_actor_seat_idx (upd_player i f r) = last_actor_seat_idx r"
  "turn_nonce (upd_player i f r) = turn_nonce r"
  "players (upd_player i f r) = smap_adjust i f (players r)"
  by (simp_all add: upd_player_def)

lemma smap_vals_each:
  "set (smap_vals (smap_each f m)) = {f i p |i p. (i, p) \<in> set m}"
  by (force simp: smap_vals_def smap_each_def)

lemma table_ok_each:
  assumes "table_ok r" and "\<And>i p. (i, p) \<in> set (players r) \<Longrightarrow> player_ok p \<Longrightarrow> player_ok (f i p)"
    and "players r' = smap_each f (players r)" and "seats r' = seats r"
    and "dealer_seat_idx r' = dealer_seat_idx r" and "initial_chips r' = initial_chips r"
  shows "table_ok r'"
proof -
  have "player_ok q" if "q \<in> set (smap_vals (players r'))" for q
    using that assms(1,2) by (auto simp: assms(3) smap_vals_each table_ok_def) (force simp: smap_vals_def)
  then show ?thesis
    using assms(1) by (simp add: table_ok_def assms(3-6))
qed

lemma table_ok_upd_player:
  assumes "table_ok r" and "\<And>p. get_player r i = Some p \<Longrightarrow> player_ok p \<Longrightarrow> player_ok (f p)"
  shows "table_ok (upd_player i f r)"
proof (rule table_ok_each[OF assms(1)])
  show "players (upd_player i f r) = smap_each (\<lambda>i' p. if i' = i then f p else p) (players r)"
    by (simp add: smap_adjust_def)
  fix j p assume "(j, p) \<in> set (players r)" "player_ok p"
  moreover have "smap_wf (players r)" using assms(1) by (simp add: table_ok_def)
  ultimately show "player_ok (if j = i then f p else p)"
    using assms(2)[of p] by (auto simp: get_player_def smap_mem_get)
qed simp_all

text \<open>The fields \<open>table_ok\<close> and the two sums do not read may change freely.\<close>

lemma table_ok_cong:
  "players r' = players r \<Longrightarrow> seats r' = seats r \<Longrightarrow> dealer_seat_idx r' = dealer_seat_idx r \<Longrightarrow>
   initial_chips r' = initial_chips r \<Longrightarrow> table_ok r' = table_ok r"
  by (simp add: table_ok_def)

lemma table_sum_upd_player:
  assumes "table_ok r" and "get_player r i = Some p"
  shows "table_chips (upd_player i f r) = table_chips r - chips p + chips (f p)"
    and "table_contrib (upd_player i f r) =
         table_contrib r - hand_contribution p + hand_contribution (f p)"
  using assms
  by (simp_all add: table_chips_def table_contrib_def table_ok_def smap_sum_adjust get_player_def)

lemma upd_player_missing: "get_player r i = None \<Longrightarrow> upd_player i f r = r"
  by (simp add: upd_player_def get_player_def smap_adjust_missing)

end
