(* ===== verification/Table_Facts.thy ===== *)
theory Table_Facts
  imports Table_Ops
begin

section \<open>What the table's helpers guarantee\<close>

text \<open>
  The table operations behind betting: a bet moves chips from a stack to the pot, and the next actor is the
  first pending seat clockwise.
\<close>

subsection \<open>Bets\<close>

lemma place_bet_simps:
  "fst (place_bet i a r) =
     (case get_player r i of None \<Rightarrow> 0
      | Some p \<Rightarrow> if is_folded p \<or> is_bankrupt p then 0 else max 0 (min a (chips p)))"
  "seats (snd (place_bet i a r)) = seats r"
  "dealer_seat_idx (snd (place_bet i a r)) = dealer_seat_idx r"
  "deck (snd (place_bet i a r)) = deck r"
  "community_cards (snd (place_bet i a r)) = community_cards r"
  "hand_num (snd (place_bet i a r)) = hand_num r"
  "round_name (snd (place_bet i a r)) = round_name r"
  "current_max_bet (snd (place_bet i a r)) = current_max_bet r"
  "min_raise (snd (place_bet i a r)) = min_raise r"
  "big_blind (snd (place_bet i a r)) = big_blind r"
  "active_seat_idx (snd (place_bet i a r)) = active_seat_idx r"
  "pending_action_seats (snd (place_bet i a r)) = pending_action_seats r"
  by (simp_all add: place_bet_def Let_def split: option.splits)

declare place_bet_simps(2-) [simp]

lemma commit_simps [simp]:
  "chips (commit x p) = chips p - x" "current_bet (commit x p) = current_bet p + x"
  "hand_contribution (commit x p) = hand_contribution p + x"
  "is_folded (commit x p) = is_folded p" "is_bankrupt (commit x p) = is_bankrupt p"
  "hand (commit x p) = hand p" "sit_out_until_hand (commit x p) = sit_out_until_hand p"
  by (simp_all add: commit_def)

lemma get_player_update [simp]:
  "get_player (r\<lparr>pot := x\<rparr>) i = get_player r i"
  "get_player (r\<lparr>current_max_bet := x\<rparr>) i = get_player r i"
  "get_player (r\<lparr>min_raise := x\<rparr>) i = get_player r i"
  "get_player (r\<lparr>deck := y\<rparr>) i = get_player r i"
  "get_player (r\<lparr>community_cards := y\<rparr>) i = get_player r i"
  "get_player (r\<lparr>pending_action_seats := z\<rparr>) i = get_player r i"
  "get_player (r\<lparr>active_seat_idx := x\<rparr>) i = get_player r i"
  "get_player (r\<lparr>round_name := w\<rparr>) i = get_player r i"
  "get_player (r\<lparr>last_actor_seat_idx := x\<rparr>) i = get_player r i"
  by (simp_all add: get_player_def)

lemma get_player_place_bet:
  "get_player (snd (place_bet i a r)) j =
     (if j = i then map_option (commit (fst (place_bet i a r))) (get_player r i) else get_player r j)"
proof -
  have "commit 0 p = p" for p by (simp add: commit_def)
  then show ?thesis
    by (auto simp: place_bet_def Let_def split: option.splits)
qed

lemma place_bet_range:
  assumes "table_ok r" and "0 \<le> a" and "get_player r i = Some p"
  shows "0 \<le> fst (place_bet i a r)" and "fst (place_bet i a r) \<le> a"
    and "fst (place_bet i a r) \<le> chips p"
  using table_ok_player[OF assms(1,3)] assms by (auto simp: place_bet_simps(1) player_ok_def)

lemma table_ok_update [simp]:
  "table_ok (r\<lparr>pot := x\<rparr>) = table_ok r"
  "table_ok (r\<lparr>current_max_bet := x\<rparr>) = table_ok r"
  "table_ok (r\<lparr>min_raise := x\<rparr>) = table_ok r"
  "table_ok (r\<lparr>deck := y\<rparr>) = table_ok r"
  "table_ok (r\<lparr>community_cards := y\<rparr>) = table_ok r"
  "table_ok (r\<lparr>pending_action_seats := z\<rparr>) = table_ok r"
  "table_ok (r\<lparr>active_seat_idx := x\<rparr>) = table_ok r"
  "table_ok (r\<lparr>round_name := w\<rparr>) = table_ok r"
  "table_ok (r\<lparr>last_actor_seat_idx := x\<rparr>) = table_ok r"
  by (simp_all add: table_ok_def)

lemma table_sums_update [simp]:
  "table_chips (r\<lparr>pot := x\<rparr>) = table_chips r" "table_contrib (r\<lparr>pot := x\<rparr>) = table_contrib r"
  "table_chips (r\<lparr>current_max_bet := x\<rparr>) = table_chips r"
  "table_contrib (r\<lparr>current_max_bet := x\<rparr>) = table_contrib r"
  "table_chips (r\<lparr>min_raise := x\<rparr>) = table_chips r"
  "table_contrib (r\<lparr>min_raise := x\<rparr>) = table_contrib r"
  "table_chips (r\<lparr>pending_action_seats := z\<rparr>) = table_chips r"
  "table_contrib (r\<lparr>pending_action_seats := z\<rparr>) = table_contrib r"
  "table_chips (r\<lparr>active_seat_idx := x\<rparr>) = table_chips r"
  "table_contrib (r\<lparr>active_seat_idx := x\<rparr>) = table_contrib r"
  "table_chips (r\<lparr>round_name := w\<rparr>) = table_chips r"
  "table_contrib (r\<lparr>round_name := w\<rparr>) = table_contrib r"
  "table_chips (r\<lparr>last_actor_seat_idx := x\<rparr>) = table_chips r"
  "table_contrib (r\<lparr>last_actor_seat_idx := x\<rparr>) = table_contrib r"
  by (simp_all add: table_chips_def table_contrib_def)

lemma place_bet_active:
  assumes "get_player r i = Some p" "\<not> is_folded p" "\<not> is_bankrupt p"
  shows "place_bet i a r =
     (max 0 (min a (chips p)),
      (upd_player i (commit (max 0 (min a (chips p)))) r)\<lparr>pot := pot r + max 0 (min a (chips p))\<rparr>)"
  using assms by (simp add: place_bet_def Let_def)

lemma place_bet_inactive:
  "get_player r i = None \<or> get_player r i = Some p \<and> (is_folded p \<or> is_bankrupt p) \<Longrightarrow>
   place_bet i a r = (0, r)"
  by (auto simp: place_bet_def)

lemma table_ok_commit:
  assumes "table_ok r" "get_player r i = Some p" "0 \<le> x" "x \<le> chips p"
  shows "table_ok (upd_player i (commit x) r)"
  using assms by (intro table_ok_upd_player) (auto simp: player_ok_def)

lemma table_ok_place_bet:
  assumes "table_ok r"
  shows "table_ok (snd (place_bet i a r))"
proof (cases "\<exists>p. get_player r i = Some p \<and> \<not> is_folded p \<and> \<not> is_bankrupt p")
  case True
  then obtain p where p: "get_player r i = Some p" "\<not> is_folded p" "\<not> is_bankrupt p" by blast
  then have "0 \<le> chips p" using table_ok_player[OF assms] by (simp add: player_ok_def)
  then show ?thesis
    using table_ok_commit[OF assms p(1)] by (simp add: place_bet_active[OF p])
next
  case False
  then show ?thesis using assms by (cases "get_player r i") (auto simp: place_bet_inactive)
qed

text \<open>
  A bet moves chips from the player's stack to the pot and nowhere else: the stacks and the
  contributions keep their sum, the pot grows by the amount returned, no other player changes, and
  the amount is the one asked for, cut to the stack (nothing for a folded or bankrupt player).
\<close>

theorem place_bet_conserves:
  assumes "table_ok r" and "0 \<le> amount" and "get_player r i = Some p"
  shows "let (real, r') = place_bet i amount r in
     real = (if is_folded p \<or> is_bankrupt p then 0 else min amount (chips p)) \<and>
     table_ok r' \<and> pot r' = pot r + real \<and>
     table_chips r' = table_chips r - real \<and> table_contrib r' = table_contrib r + real \<and>
     (\<forall>j. j \<noteq> i \<longrightarrow> get_player r' j = get_player r j)"
proof (cases "is_folded p \<or> is_bankrupt p")
  case True
  then show ?thesis using assms by (simp add: place_bet_inactive[of r i p])
next
  case False
  have "0 \<le> chips p" using table_ok_player[OF assms(1,3)] by (simp add: player_ok_def)
  then show ?thesis
    using assms False table_ok_commit[OF assms(1,3)]
    by (simp add: place_bet_active[OF assms(3)] table_sum_upd_player[OF assms(1,3)] min_def max_def)
qed

subsection \<open>Going round the table\<close>

lemma clockwise_loop_none:
  "clockwise_loop n s from pred = -1 \<or>
   (\<exists>k. s \<le> k \<and> k < s + int n \<and> pred ((from + k) mod kSeats) \<and>
        clockwise_loop n s from pred = (from + k) mod kSeats \<and>
        (\<forall>j. s \<le> j \<and> j < k \<longrightarrow> \<not> pred ((from + j) mod kSeats)))"
proof (induction n arbitrary: s)
  case 0
  then show ?case by simp
next
  case (Suc n)
  show ?case
  proof (cases "pred ((from + s) mod kSeats)")
    case True
    then show ?thesis by (auto intro!: exI[of _ s])
  next
    case False
    have eq: "clockwise_loop (Suc n) s from pred = clockwise_loop n (s + 1) from pred"
      using False by simp
    show ?thesis
    proof (cases "clockwise_loop n (s + 1) from pred = -1")
      case True
      then show ?thesis using eq by simp
    next
      case found: False
      then obtain k where k: "s + 1 \<le> k" "k < s + 1 + int n" "pred ((from + k) mod kSeats)"
          "clockwise_loop n (s + 1) from pred = (from + k) mod kSeats"
          "\<forall>j. s + 1 \<le> j \<and> j < k \<longrightarrow> \<not> pred ((from + j) mod kSeats)"
        using Suc[of "s + 1"] by blast
      have "\<not> pred ((from + j) mod kSeats)" if "s \<le> j" "j < k" for j
        using k(5) False that by (cases "j = s") auto
      then show ?thesis using k eq by (intro disjI2 exI[of _ k]) auto
    qed
  qed
qed

lemma clockwise_loop_found:
  assumes "s \<le> k" "k < s + int n" "pred ((from + k) mod kSeats)"
  shows "clockwise_loop n s from pred \<noteq> -1"
  using assms
proof (induction n arbitrary: s)
  case 0
  then show ?case by simp
next
  case (Suc n)
  have "(from + s) mod kSeats \<noteq> -1"
    using pos_mod_sign[of kSeats "from + s"] by (simp add: kSeats_def)
  moreover have "clockwise_loop n (s + 1) from pred \<noteq> -1" if "\<not> pred ((from + s) mod kSeats)"
  proof (rule Suc.IH)
    have "k \<noteq> s" using that Suc.prems(3) by auto
    then show "s + 1 \<le> k" using Suc.prems(1) by simp
  qed (use Suc.prems in auto)
  ultimately show ?case by (simp add: Let_def)
qed

text \<open>The distance a seat is away from \<open>from\<close>, walking clockwise: 1 to 10.\<close>

definition clockwise_distance :: "int \<Rightarrow> int \<Rightarrow> int" where
  "clockwise_distance from i = (i - from - 1) mod kSeats + 1"

lemma seat_at_distance:
  assumes "0 \<le> i" "i < kSeats"
  shows "(from + clockwise_distance from i) mod kSeats = i"
proof -
  have "(from + clockwise_distance from i) mod kSeats = ((from + 1) + (i - from - 1) mod kSeats) mod kSeats"
    by (simp add: clockwise_distance_def algebra_simps)
  also have "\<dots> = i mod kSeats"
    unfolding mod_add_right_eq by simp
  finally show ?thesis using assms by simp
qed

lemma distance_bounds: "1 \<le> clockwise_distance from i" "clockwise_distance from i \<le> kSeats"
  using pos_mod_bound[of kSeats "i - from - 1"] pos_mod_sign[of kSeats "i - from - 1"]
  by (auto simp: clockwise_distance_def kSeats_def)

lemma distance_of_offset:
  assumes "1 \<le> k" "k \<le> kSeats"
  shows "clockwise_distance from ((from + k) mod kSeats) = k"
proof -
  have "((from + k) mod kSeats - from - 1) mod kSeats = (k - 1) mod kSeats"
    by (metis (no_types, opaque_lifting) add_diff_cancel_left' diff_diff_add mod_diff_left_eq)
  also have "\<dots> = k - 1" using assms by simp
  finally show ?thesis by (simp add: clockwise_distance_def)
qed

lemma next_seat_clockwise_cases:
  "next_seat_clockwise from pred = -1 \<and> (\<forall>i. 0 \<le> i \<and> i < kSeats \<longrightarrow> \<not> pred i) \<or>
   0 \<le> next_seat_clockwise from pred \<and> next_seat_clockwise from pred < kSeats \<and>
   pred (next_seat_clockwise from pred) \<and>
   (\<forall>i. 0 \<le> i \<and> i < kSeats \<and> pred i \<longrightarrow>
        clockwise_distance from (next_seat_clockwise from pred) \<le> clockwise_distance from i)"
proof (cases "next_seat_clockwise from pred = -1")
  case True
  have "\<not> pred i" if "0 \<le> i" "i < kSeats" for i
  proof
    assume "pred i"
    then have "clockwise_loop (nat kSeats) 1 from pred \<noteq> -1"
      using clockwise_loop_found[of 1 "clockwise_distance from i" "nat kSeats" pred "from"]
        distance_bounds[of "from" i] seat_at_distance[OF that, of "from"] by (simp add: kSeats_def)
    then show False using True by (simp add: next_seat_clockwise_def)
  qed
  then show ?thesis using True by blast
next
  case False
  then obtain k where k: "1 \<le> k" "k < 1 + kSeats" "pred ((from + k) mod kSeats)"
      "next_seat_clockwise from pred = (from + k) mod kSeats"
      "\<And>j. 1 \<le> j \<Longrightarrow> j < k \<Longrightarrow> \<not> pred ((from + j) mod kSeats)"
    using clockwise_loop_none[of "nat kSeats" 1 "from" pred]
    by (auto simp: next_seat_clockwise_def kSeats_def)
  have dist: "clockwise_distance from (next_seat_clockwise from pred) = k"
    using k distance_of_offset[of k "from"] by simp
  have "k \<le> clockwise_distance from i" if "0 \<le> i" "i < kSeats" "pred i" for i
    using k(5)[of "clockwise_distance from i"] distance_bounds[of "from" i]
      seat_at_distance[OF that(1,2), of "from"] that(3) by (metis linorder_not_le)
  then show ?thesis using k dist by (auto simp: kSeats_def)
qed

text \<open>A table for the witnesses: three players, seat 4 folded, seat 7 all-in.\<close>

definition demo_player :: "int \<Rightarrow> int \<Rightarrow> bool \<Rightarrow> PlayerState" where
  "demo_player i c f = default_player\<lparr>p_seat_idx := i, chips := c, is_folded := f\<rparr>"

definition demo_table :: Table where
  "demo_table =
     \<lparr>seats = (replicate 10 empty_seat)
        [1 := empty_seat\<lparr>seat_type := SeatPlayer, seat_socket_id := ''a''\<rparr>,
         4 := empty_seat\<lparr>seat_type := SeatAI\<rparr>, 7 := empty_seat\<lparr>seat_type := SeatAI\<rparr>],
      total_hands = 5, initial_chips = 1000, small_blind = 50, big_blind = 100, hand_num = 1,
      dealer_seat_idx = 1, sb_seat_idx = 4, bb_seat_idx = 7, pot = 0,
      round_name = phase_to_string PreFlop, community_cards = [], deck = [], current_max_bet = 0,
      min_raise = 100, active_seat_idx = 1, pending_action_seats = {1, 4, 7},
      players = [(1, demo_player 1 500 False), (4, demo_player 4 900 True), (7, demo_player 7 0 False)],
      turn_nonce = 0, last_actor_seat_idx = -1\<rparr>"

lemma demo_table_ok: "table_ok demo_table"
  by code_simp

lemma demo_table_player: "get_player demo_table 1 = Some (demo_player 1 500 False)"
  by code_simp

lemma place_bet_conserves_witness:
  "fst (place_bet 1 700 demo_table) = 500 \<and> table_chips (snd (place_bet 1 700 demo_table)) = 900"
proof -
  have "table_chips demo_table = 1400" "\<not> (is_folded (demo_player 1 500 False) \<or> is_bankrupt (demo_player 1 500 False))"
    "min 700 (chips (demo_player 1 500 False)) = 500"
    by code_simp+
  then show ?thesis
    using place_bet_conserves[OF demo_table_ok _ demo_table_player, of 700]
    by (simp add: case_prod_beta Let_def)
qed

lemma remove_ineligible_simps [simp]:
  "get_player (remove_ineligible_from_pending r) i = get_player r i"
  "players (remove_ineligible_from_pending r) = players r"
  "seats (remove_ineligible_from_pending r) = seats r"
  "pending_action_seats (remove_ineligible_from_pending r) =
     {i \<in> pending_action_seats r. can_still_act r i}"
  "table_ok (remove_ineligible_from_pending r) = table_ok r"
  "table_chips (remove_ineligible_from_pending r) = table_chips r"
  "table_contrib (remove_ineligible_from_pending r) = table_contrib r"
  "round_name (remove_ineligible_from_pending r) = round_name r" "pot (remove_ineligible_from_pending r) = pot r"
  "hand_num (remove_ineligible_from_pending r) = hand_num r"
  "active_seat_idx (remove_ineligible_from_pending r) = active_seat_idx r"
  by (simp_all add: remove_ineligible_from_pending_def)

lemma can_still_act_seat: "table_ok r \<Longrightarrow> can_still_act r i \<Longrightarrow> 0 \<le> i \<and> i < kSeats"
  using table_ok_seat by (auto simp: can_still_act_def split: option.splits)

lemma choose_next_actor_eq:
  "choose_next_actor from_seat r =
     (if {j \<in> pending_action_seats r. can_still_act r j} = {} then -1
      else next_seat_clockwise from_seat (\<lambda>i. i \<in> {j \<in> pending_action_seats r. can_still_act r j}),
      remove_ineligible_from_pending r)"
  by (simp only: choose_next_actor_def Let_def remove_ineligible_simps split: if_split) blast

text \<open>
  The turn passes clockwise: of the seats that still owe an action and can act, the one chosen
  is the closest to the left of the seat the turn leaves; when there is none the result is \<open>-1\<close>.
\<close>

theorem choose_next_actor_clockwise:
  assumes "table_ok r"
  shows "let (i, r') = choose_next_actor from_seat r;
             left_to_act = {j \<in> pending_action_seats r. can_still_act r j} in
     pending_action_seats r' = left_to_act \<and>
     (if left_to_act = {} then i = -1
      else i \<in> left_to_act \<and>
           (\<forall>j\<in>left_to_act. clockwise_distance from_seat i \<le> clockwise_distance from_seat j))"
proof -
  define S where "S = {j \<in> pending_action_seats r. can_still_act r j}"
  have seat: "0 \<le> j \<and> j < kSeats" if "j \<in> S" for j
    using that can_still_act_seat[OF assms] by (simp add: S_def)
  note eq = choose_next_actor_eq[of from_seat r, folded S_def]
  show ?thesis
  proof (cases "S = {}")
    case True
    then show ?thesis by (simp add: eq S_def)
  next
    case False
    then obtain j where "j \<in> S" by blast
    then have "next_seat_clockwise from_seat (\<lambda>i. i \<in> S) \<in> S \<and>
      (\<forall>i\<in>S. clockwise_distance from_seat (next_seat_clockwise from_seat (\<lambda>i. i \<in> S))
              \<le> clockwise_distance from_seat i)"
      using next_seat_clockwise_cases[of from_seat "\<lambda>i. i \<in> S"] seat by blast
    then show ?thesis
      using False unfolding eq Let_def prod.case S_def[symmetric] remove_ineligible_simps by simp
  qed
qed

lemma choose_next_actor_clockwise_witness:
  "table_ok demo_table \<and> fst (choose_next_actor 1 demo_table) = 1 \<and>
   pending_action_seats (snd (choose_next_actor 1 demo_table)) = {1}"
proof -
  have act: "{j \<in> pending_action_seats demo_table. can_still_act demo_table j} = {1}"
  proof -
    have "pending_action_seats demo_table = {1, 4, 7}" by (simp add: demo_table_def)
    moreover have "can_still_act demo_table 1" "\<not> can_still_act demo_table 4" "\<not> can_still_act demo_table 7"
      by code_simp+
    ultimately show ?thesis by auto
  qed
  show ?thesis
    using choose_next_actor_clockwise[OF demo_table_ok, of 1] demo_table_ok
    unfolding act by (auto simp: case_prod_beta Let_def)
qed

end
