(* ===== verification/Match_End.thy ===== *)
theory Match_End
  imports Broadcasts Table_Facts
begin

section \<open>The end of a match (main.cpp)\<close>

text \<open>
  The standings, what is recorded of each player, and \<open>emit_match_over\<close>. \<open>std::sort\<close> may order equal
  stacks either way; the model keeps them in seat order, and no property below depends on it.
\<close>

definition standing_of :: "Room \<Rightarrow> int \<Rightarrow> PlayerState \<Rightarrow> Standing" where
  "standing_of r i p =
     \<lparr>st_seat_idx = i, st_type = type_label (seat_type (seat_at r i)),
      st_name = seat_name (seat_at r i), st_chips = chips p, st_buy_in = total_buy_in p,
      st_net = chips p - total_buy_in p\<rparr>"

definition build_standings :: "Room \<Rightarrow> Standing list" where
  "build_standings r =
     sort_key (\<lambda>row. - st_chips row)
       (List.map_filter
          (\<lambda>i. if seat_type (seat_at r i) = SeatEmpty then None
               else map_option (standing_of r i) (get_player r i))
          seat_indices)"

definition best_net :: "int list \<Rightarrow> int" where
  "best_net nets = (case nets of [] \<Rightarrow> 0 | n # ns \<Rightarrow> fold max ns n)"

definition build_match_stats :: "(int \<rightharpoonup> string) \<Rightarrow> Room \<Rightarrow> Standing list \<Rightarrow> MatchStat list" where
  "build_match_stats find_by_user_id r standings =
     (let bean_rewarded = (room_type r = ''bean_match'' \<or> room_type r = ''tournament'');
          rows = filter (\<lambda>s. seat_type (seat_at r (st_seat_idx s)) = SeatPlayer) standings;
          best = best_net (map st_net rows)
      in map (\<lambda>s. \<lparr>ms_external_id =
                     (case find_by_user_id (seat_user_id (seat_at r (st_seat_idx s))) of
                        Some username \<Rightarrow> username
                      | None \<Rightarrow> seat_name (seat_at r (st_seat_idx s))),
                   ms_username = st_name s,
                   ms_gold_delta = (if bean_rewarded then st_net s else 0),
                   ms_winner = (st_net s = best)\<rparr>) rows)"

definition stat_key :: "MatchStat \<Rightarrow> string" where
  "stat_key stat = (if ms_external_id stat = [] then ms_username stat else ms_external_id stat)"

definition credit_user :: "MatchStat \<Rightarrow> UserProfileData \<Rightarrow> UserProfileData" where
  "credit_user stat u =
     u\<lparr>ud_games_played := ud_games_played u + 1,
       ud_games_won := (if ms_winner stat then ud_games_won u + 1 else ud_games_won u),
       ud_gold := max 0 (ud_gold u + ms_gold_delta stat)\<rparr>"

definition credit_stat ::
  "MatchStat \<Rightarrow> (string \<rightharpoonup> UserProfileData) \<Rightarrow> (string \<rightharpoonup> UserProfileData)" where
  "credit_stat stat users =
     (case users (stat_key stat) of
        None \<Rightarrow> users | Some u \<Rightarrow> users(stat_key stat \<mapsto> credit_user stat u))"

definition match_over_msg :: "Room \<Rightarrow> Standing list \<Rightarrow> MatchOverMsg" where
  "match_over_msg r standings =
     \<lparr>mo_room_id = room_id r, mo_total_hands = total_hands r, mo_scheduled_hands = total_hands r,
      mo_played_hands = int (length (hand_history r)), mo_standings = standings,
      mo_hands = hand_history r\<rparr>"

definition emit_match_over :: "string \<Rightarrow> Ctx \<Rightarrow> Ctx" where
  "emit_match_over reason c =
     (if closing (rm c) then c
      else
        let reusable_friend_room = (room_type (rm c) = ''friend'');
            c = on_room (\<lambda>r. r\<lparr>closing := \<not> reusable_friend_room, started := False,
                    status := (if reusable_friend_room then ''room_lobby'' else ''closed''),
                    round_name := phase_to_string Waiting, active_seat_idx := -1,
                    pending_action_seats := {}\<rparr>) c;
            c = (if reason = [] then c else broadcast_activity reason c);
            c = broadcast_activity ''Match over.'' c;
            standings = build_standings (rm c);
            msg = match_over_msg (rm c) standings;
            c = on_room (\<lambda>r. r\<lparr>expected_acks := (if reusable_friend_room then {} else socket_ids r),
                               match_acks := {}\<rparr>) c;
            c = emit_room_event ''match_over'' (MatchOver msg) c;
            c = (if reusable_friend_room then broadcast_room c else c);
            stats = build_match_stats (auth_usernames c) (rm c) standings
        in c\<lparr>recorded_matches := recorded_matches c @ [stats],
             cached_users := fold credit_stat stats (cached_users c)\<rparr>)"

text \<open>
  \<open>release_room_if_done\<close> erases the room from the server's map once everyone has acknowledged the
  result; the flag tells whether it did.
\<close>

definition release_room_if_done :: "Ctx \<Rightarrow> bool \<times> Ctx" where
  "release_room_if_done c =
     (if room_type (rm c) = ''friend'' then (False, c)
      else if \<not> expected_acks (rm c) \<subseteq> match_acks (rm c) then (False, c)
      else
        let c = emit_room_event ''room_closed'' (RoomClosed (room_id (rm c)) ''match_over'') c
        in (True, c\<lparr>snapshot_timers := snapshot_timers c - {room_id (rm c)}\<rparr>))"

subsection \<open>Standings\<close>

lemma best_net_max:
  assumes "nets \<noteq> []"
  shows "best_net nets \<in> set nets \<and> (\<forall>n\<in>set nets. n \<le> best_net nets)"
proof -
  obtain m ms where nets: "nets = m # ms" using assms by (cases nets) auto
  have "fold max ms m = Max (set (m # ms))"
    by (rule Max.set_eq_fold[symmetric])
  then show ?thesis
    using Max_in[of "set (m # ms)"] Max_ge[of "set (m # ms)"] by (simp add: nets best_net_def)
qed

lemma map_filter_standings:
  "List.map_filter
     (\<lambda>i. if seat_type (seat_at r i) = SeatEmpty then None
          else map_option (standing_of r i) (get_player r i)) is =
   map (\<lambda>i. standing_of r i (the (get_player r i)))
     (filter (\<lambda>i. seat_type (seat_at r i) \<noteq> SeatEmpty \<and> get_player r i \<noteq> None) is)"
  by (induction "is") (auto simp: List.map_filter_simps)

lemma standings_seats:
  "distinct (map st_seat_idx (build_standings r))"
  "set (map st_seat_idx (build_standings r)) =
     {i \<in> set seat_indices. seat_type (seat_at r i) \<noteq> SeatEmpty \<and> get_player r i \<noteq> None}"
proof -
  let ?is = "filter (\<lambda>i. seat_type (seat_at r i) \<noteq> SeatEmpty \<and> get_player r i \<noteq> None) seat_indices"
  have eq: "mset (map st_seat_idx (build_standings r)) = mset ?is"
  proof -
    have "mset (map st_seat_idx (build_standings r)) =
        image_mset st_seat_idx (mset (map (\<lambda>i. standing_of r i (the (get_player r i))) ?is))"
      by (simp only: mset_map[of st_seat_idx] build_standings_def map_filter_standings mset_sort)
    then show ?thesis
      by (simp add: standing_of_def image_mset.compositionality comp_def)
  qed
  show "distinct (map st_seat_idx (build_standings r))"
    using mset_eq_imp_distinct_iff[OF eq] by simp
  show "set (map st_seat_idx (build_standings r)) =
      {i \<in> set seat_indices. seat_type (seat_at r i) \<noteq> SeatEmpty \<and> get_player r i \<noteq> None}"
    using mset_eq_setD[OF eq] by simp
qed

lemma build_standings_sorted: "sorted_wrt (\<lambda>a b. st_chips a \<ge> st_chips b) (build_standings r)"
proof -
  have "sorted (map (\<lambda>row. - st_chips row) (build_standings r))"
    unfolding build_standings_def by (rule sorted_sort_key)
  then show ?thesis by (simp add: sorted_map)
qed

text \<open>
  The result of a match. The standings list every occupied seat with a player once, richest
  first. The recorded statistics are one row per human player: a row is a winner exactly if no human
  did better, so there is a winner whenever a human played; and gold moves by the net result in bean
  matches and tournaments and not at all elsewhere.
\<close>

theorem match_result_fair:
  "let standings = build_standings r; stats = build_match_stats find_user r standings;
       humans = filter (\<lambda>s. seat_type (seat_at r (st_seat_idx s)) = SeatPlayer) standings in
   sorted_wrt (\<lambda>a b. st_chips a \<ge> st_chips b) standings \<and>
   distinct (map st_seat_idx standings) \<and>
   set (map st_seat_idx standings) =
     {i \<in> set seat_indices. seat_type (seat_at r i) \<noteq> SeatEmpty \<and> get_player r i \<noteq> None} \<and>
   map ms_winner stats = map (\<lambda>h. \<forall>h'\<in>set humans. st_net h' \<le> st_net h) humans \<and>
   (True \<in> set (map ms_winner stats) \<longleftrightarrow> humans \<noteq> []) \<and>
   map ms_gold_delta stats =
     map (\<lambda>h. if room_type r \<in> {''bean_match'', ''tournament''} then st_net h else 0) humans"
proof -
  define standings where "standings = build_standings r"
  define humans where
    "humans = filter (\<lambda>s. seat_type (seat_at r (st_seat_idx s)) = SeatPlayer) standings"
  define stats where "stats = build_match_stats find_user r standings"
  have win: "map ms_winner stats = map (\<lambda>h. st_net h = best_net (map st_net humans)) humans"
    and gold: "map ms_gold_delta stats =
      map (\<lambda>h. if room_type r \<in> {''bean_match'', ''tournament''} then st_net h else 0) humans"
    by (simp_all add: stats_def build_match_stats_def Let_def humans_def)
  have best: "(st_net h = best_net (map st_net humans)) = (\<forall>h'\<in>set humans. st_net h' \<le> st_net h)"
    if "h \<in> set humans" for h
  proof -
    have "humans \<noteq> []" using that by auto
    then have "best_net (map st_net humans) \<in> st_net ` set humans"
      and "\<forall>n\<in>set humans. st_net n \<le> best_net (map st_net humans)"
      using best_net_max[of "map st_net humans"] by simp_all
    then show ?thesis using that by (auto intro!: order.antisym)
  qed
  have winner: "map ms_winner stats = map (\<lambda>h. \<forall>h'\<in>set humans. st_net h' \<le> st_net h) humans"
    unfolding win by (rule map_cong[OF refl best])
  have some: "True \<in> set (map ms_winner stats) \<longleftrightarrow> humans \<noteq> []"
    unfolding win using best_net_max[of "map st_net humans"] by (cases "humans = []") auto
  show ?thesis
    using winner some gold
    unfolding Let_def standings_def[symmetric] humans_def[symmetric] stats_def[symmetric]
    by (intro conjI) (simp_all only: standings_def build_standings_sorted standings_seats)
qed

definition demo_room :: Room where
  "demo_room =
     (default_room 0)\<lparr>seats := seats demo_table, players := players demo_table,
        room_id := ''R'', socket_ids := {''a''}, host_socket_id := ''a'', started := True,
        room_type := ''bean_match'', hand_num := 1, dealer_seat_idx := 1\<rparr>"

lemma match_result_fair_witness:
  "map st_chips (build_standings demo_room) = [900, 500, 0] \<and>
   sorted_wrt (\<lambda>a b. st_chips a \<ge> st_chips b) (build_standings demo_room) \<and>
   map ms_gold_delta (build_match_stats Map.empty demo_room (build_standings demo_room)) = [- 500]"
proof -
  have "map st_chips (build_standings demo_room) = [900, 500, 0]" by code_simp
  moreover have "map ms_gold_delta (build_match_stats Map.empty demo_room (build_standings demo_room)) = [- 500]"
    by code_simp
  ultimately show ?thesis
    using match_result_fair[of demo_room Map.empty] by (simp add: Let_def)
qed

end
