(* ===== verification/Dealing.thy ===== *)
theory Dealing
  imports Table_Facts
begin

section \<open>Every card is dealt once\<close>

text \<open>
  All cards of a table: the deck, the board and the players' hands. Dealing only moves cards between
  the three, so a hand is played with the 52 cards of the deck that \<open>reset_hand\<close> shuffled. The one
  fact used of \<open>std::shuffle\<close> is the standard's: its result is a permutation of its argument.
\<close>

definition table_cards :: "'a Table_scheme \<Rightarrow> Card list" where
  "table_cards r = deck r @ community_cards r @ concat (map hand (smap_vals (players r)))"

subsection \<open>The deck\<close>

lemma length_ordered_deck: "length ordered_deck = 52"
  by code_simp

lemma distinct_ordered_deck: "distinct ordered_deck"
  by code_simp

subsection \<open>Dealing moves cards\<close>

lemma mset_hands_adjust:
  "smap_wf m \<Longrightarrow> smap_get m k = Some v \<Longrightarrow>
   mset (concat (map f (smap_vals (smap_adjust k g m)))) + mset (f v) =
   mset (concat (map f (smap_vals m))) + mset (f (g v))"
proof (induction m)
  case Nil
  then show ?case by simp
next
  case (Cons e m)
  obtain k' v' where e: "e = (k', v')" by (cases e)
  have wf: "smap_wf m" and lt: "\<forall>x\<in>set (smap_keys m). k' < x"
    using Cons.prems(1) by (auto simp: e smap_wf_def smap_keys_def)
  have step: "smap_vals (smap_adjust k g (e # m)) =
      (if k' = k then g v' else v') # smap_vals (smap_adjust k g m)"
    by (simp add: e smap_adjust_def smap_each_def smap_vals_def)
  have vals: "smap_vals (e # m) = v' # smap_vals m" by (simp add: e smap_vals_def)
  show ?case
  proof (cases "k' = k")
    case True
    then have "k \<notin> set (smap_keys m)" using lt by auto
    then have "smap_adjust k g m = m" by (intro smap_adjust_missing) (auto simp: smap_get_keys)
    then show ?thesis
      unfolding step vals using True Cons.prems(2) by (simp add: e)
  next
    case False
    then have "smap_get m k = Some v" using Cons.prems(2) by (simp add: e)
    from Cons.IH[OF wf this] show ?thesis using False by (simp add: step vals add.assoc)
  qed
qed

lemma deal_one_cards:
  assumes "smap_wf (players r)"
  shows "mset (table_cards (deal_one i r)) = mset (table_cards r)"
proof (cases "get_player r i = None \<or> deck r = []")
  case True
  then show ?thesis by (simp add: deal_one_def)
next
  case False
  then obtain p where p: "get_player r i = Some p" and d: "deck r \<noteq> []" by auto
  have "mset (deck r) = add_mset (last (deck r)) (mset (butlast (deck r)))"
    using d by (metis append_butlast_last_id mset.simps(1,2) union_mset_add_mset_right mset_append add.right_neutral)
  moreover note mset_hands_adjust[OF assms p[unfolded get_player_def],
      of hand "\<lambda>p. p\<lparr>hand := hand p @ [last (deck r)]\<rparr>"]
  ultimately show ?thesis
    using p d by (simp add: deal_one_def table_cards_def)
qed

lemma deal_one_wf: "smap_wf (players (deal_one i r)) = smap_wf (players r)"
  by (simp add: deal_one_def)

lemma fold_deal_one_cards:
  "smap_wf (players r) \<Longrightarrow>
   mset (table_cards (fold deal_one is r)) = mset (table_cards r) \<and>
   smap_wf (players (fold deal_one is r))"
  by (induction "is" arbitrary: r) (simp_all add: deal_one_cards deal_one_wf)

lemma deal_hole_cards_cards:
  "smap_wf (players r) \<Longrightarrow>
   mset (table_cards (deal_hole_cards clients r)) = mset (table_cards r) \<and>
   smap_wf (players (deal_hole_cards clients r))"
  by (simp add: deal_hole_cards_def Let_def fold_deal_one_cards)

lemma deal_community_cards:
  "mset (table_cards (deal_community n r)) = mset (table_cards r)"
proof (induction n r rule: deal_community.induct)
  case (2 n r)
  show ?case
  proof (cases "deck r = []")
    case False
    then have "mset (deck r) = add_mset (last (deck r)) (mset (butlast (deck r)))"
      by (metis append_butlast_last_id mset.simps(1,2) union_mset_add_mset_right mset_append add.right_neutral)
    then show ?thesis using 2[OF False] False by (simp add: table_cards_def)
  qed simp
qed simp

lemma reset_hand_hands:
  "concat (map hand (smap_vals (players (reset_hand shuf clients r)))) = []"
  by (auto simp: reset_hand_def Let_def smap_vals_def smap_each_def reset_player_def)

lemma reset_hand_fields [simp]:
  "deck (reset_hand shuf clients r) = fresh_deck shuf"
  "community_cards (reset_hand shuf clients r) = []"
  "smap_wf (players (reset_hand shuf clients r)) = smap_wf (players r)"
  "seats (reset_hand shuf clients r) = seats r"
  "dealer_seat_idx (reset_hand shuf clients r) = dealer_seat_idx r"
  "pot (reset_hand shuf clients r) = 0"
  "hand_num (reset_hand shuf clients r) = hand_num r + 1"
  "initial_chips (reset_hand shuf clients r) = initial_chips r"
  by (simp_all add: reset_hand_def Let_def)

text \<open>
  C33. No card is dealt twice and none is lost: whatever the shuffle, whoever is seated and however
  many board cards follow, the deck, the board and the hands together are the 52 different cards.
\<close>

theorem dealt_cards_are_one_deck:
  assumes "smap_wf (players r)" and "mset (shuf ordered_deck) = mset ordered_deck"
  shows "let r' = deal_community n (deal_hole_cards clients (reset_hand shuf clients r)) in
     distinct (table_cards r') \<and> set (table_cards r') = set ordered_deck \<and>
     length (table_cards r') = 52"
proof -
  let ?r0 = "reset_hand shuf clients r"
  let ?r' = "deal_community n (deal_hole_cards clients ?r0)"
  have wf: "smap_wf (players ?r0)" using assms(1) by simp
  have "mset (table_cards ?r') = mset (table_cards ?r0)"
    using deal_hole_cards_cards[OF wf] by (simp add: deal_community_cards)
  also have "\<dots> = mset ordered_deck"
    by (simp add: table_cards_def reset_hand_hands[unfolded concat_eq_Nil_conv] fresh_deck_def assms(2)
        reset_hand_hands)
  finally have eq: "mset (table_cards ?r') = mset ordered_deck" .
  then have "distinct (table_cards ?r')"
    using distinct_ordered_deck mset_eq_imp_distinct_iff by blast
  then show ?thesis
    using eq mset_eq_setD[OF eq] mset_eq_length[OF eq] by (simp add: Let_def length_ordered_deck)
qed

lemma dealt_cards_are_one_deck_witness:
  "distinct (table_cards (deal_community 3 (deal_hole_cards {''a''} (reset_hand rev {''a''} demo_table))))"
proof -
  have "smap_wf (players demo_table)" by code_simp
  from dealt_cards_are_one_deck[OF this, of rev 3 "{''a''}"] show ?thesis
    by (simp add: Let_def)
qed

subsection \<open>Who gets which card\<close>

lemma get_player_deal_one:
  "deck r \<noteq> [] \<Longrightarrow>
   get_player (deal_one i r) j =
     (if j = i then map_option (\<lambda>p. p\<lparr>hand := hand p @ [last (deck r)]\<rparr>) (get_player r i)
      else get_player r j)"
  by (auto simp: deal_one_def)

lemma deck_deal_one:
  "get_player r i \<noteq> None \<Longrightarrow> rev (deck (deal_one i r)) = tl (rev (deck r))"
  by (cases "deck r" rule: rev_cases) (auto simp: deal_one_def)

text \<open>One round of the deal: the seats of the list take the top cards in turn.\<close>

definition takes_card :: "Card \<Rightarrow> PlayerState \<Rightarrow> PlayerState" where
  "takes_card cd p = p\<lparr>hand := hand p @ [cd]\<rparr>"

lemma fold_deal_one_deck:
  "\<lbrakk>\<forall>i\<in>set is. get_player r i \<noteq> None; length is \<le> length (deck r)\<rbrakk> \<Longrightarrow>
   rev (deck (fold deal_one is r)) = drop (length is) (rev (deck r))"
proof (induction "is" arbitrary: r)
  case Nil
  then show ?case by simp
next
  case (Cons i "is")
  have ne: "deck r \<noteq> []" and i: "get_player r i \<noteq> None" using Cons.prems by auto
  have pl: "\<forall>j\<in>set is. get_player (deal_one i r) j \<noteq> None"
    using Cons.prems(1) by (auto simp: get_player_deal_one[OF ne])
  have dk: "deck (deal_one i r) = butlast (deck r)" using ne i by (auto simp: deal_one_def)
  have "rev (deck (fold deal_one is (deal_one i r))) = drop (length is) (rev (deck (deal_one i r)))"
    using Cons.prems(2) by (intro Cons.IH[OF pl]) (simp add: dk)
  then show ?case by (simp add: deck_deal_one[OF i] drop_Suc)
qed

lemma fold_deal_one_other:
  "j \<notin> set is \<Longrightarrow> get_player (fold deal_one is r) j = get_player r j"
  by (induction "is" arbitrary: r) (auto simp: deal_one_def)

lemma fold_deal_one_hand:
  "\<lbrakk>\<forall>i\<in>set is. get_player r i \<noteq> None; distinct is; length is \<le> length (deck r); k < length is\<rbrakk> \<Longrightarrow>
   get_player (fold deal_one is r) (is ! k) =
     map_option (takes_card (rev (deck r) ! k)) (get_player r (is ! k))"
proof (induction "is" arbitrary: r k)
  case Nil
  then show ?case by simp
next
  case (Cons i "is")
  have ne: "deck r \<noteq> []" and i: "get_player r i \<noteq> None" using Cons.prems by auto
  have pl: "\<forall>j\<in>set is. get_player (deal_one i r) j \<noteq> None"
    using Cons.prems(1) by (auto simp: get_player_deal_one[OF ne])
  have dk: "deck (deal_one i r) = butlast (deck r)" using ne i by (auto simp: deal_one_def)
  show ?case
  proof (cases k)
    case 0
    have "last (deck r) = rev (deck r) ! 0" using ne by (simp add: rev_nth last_conv_nth)
    then show ?thesis
      using 0 Cons.prems(2) by (simp add: fold_deal_one_other get_player_deal_one[OF ne] takes_card_def)
  next
    case (Suc k')
    have k': "k' < length is" using Suc Cons.prems(4) by simp
    then have "is ! k' \<noteq> i" using Cons.prems(2) by auto
    moreover have "rev (deck (deal_one i r)) ! k' = rev (deck r) ! k"
      using k' Cons.prems(3) unfolding deck_deal_one[OF i] Suc by (simp add: nth_tl)
    moreover have "get_player (fold deal_one is (deal_one i r)) (is ! k') =
        map_option (takes_card (rev (deck (deal_one i r)) ! k')) (get_player (deal_one i r) (is ! k'))"
      using Cons.prems(2,3) k' by (intro Cons.IH[OF pl]) (simp_all add: dk)
    ultimately show ?thesis using Suc by (simp add: get_player_deal_one[OF ne])
  qed
qed

lemma eligible_has_player: "is_seat_eligible clients r i \<Longrightarrow> get_player r i \<noteq> None"
  by (cases "get_player r i") (auto simp: is_seat_eligible_def)

lemma deal_order_facts:
  "distinct (deal_order clients r)" "length (deal_order clients r) \<le> 10"
  "i \<in> set (deal_order clients r) \<Longrightarrow> is_seat_eligible clients r i"
proof -
  have inj: "inj_on (\<lambda>i. (dealer_seat_idx r + 1 + i) mod kSeats) (set seat_indices)"
  proof (rule inj_onI)
    fix x y assume xy: "x \<in> set seat_indices" "y \<in> set seat_indices"
      and eq: "(dealer_seat_idx r + 1 + x) mod kSeats = (dealer_seat_idx r + 1 + y) mod kSeats"
    have "((dealer_seat_idx r + 1 + x) - (dealer_seat_idx r + 1)) mod kSeats =
          ((dealer_seat_idx r + 1 + y) - (dealer_seat_idx r + 1)) mod kSeats"
      using eq by (rule mod_diff_cong) simp
    then show "x = y" using xy by (simp add: set_seat_indices)
  qed
  then show "distinct (deal_order clients r)"
    by (simp add: deal_order_def distinct_map)
  have "length (deal_order clients r) \<le> length (map (\<lambda>i. (dealer_seat_idx r + 1 + i) mod kSeats) seat_indices)"
    unfolding deal_order_def by (rule length_filter_le)
  then show "length (deal_order clients r) \<le> 10" by (simp add: seat_indices_def)
qed (simp add: deal_order_def)

text \<open>
  The hole cards are dealt one at a time clockwise from the left of the button: of \<open>n\<close> eligible
  seats the \<open>k\<close>-th gets the cards \<open>k\<close> and \<open>n + k\<close> from the top of the deck, and no other seat gets
  a card.
\<close>

theorem hole_cards_dealt_in_turn:
  assumes "length (deck r) \<ge> 20"
  shows "let order = deal_order clients r; top = rev (deck r); r' = deal_hole_cards clients r in
     (\<forall>k<length order. get_player r' (order ! k) =
        map_option (\<lambda>p. p\<lparr>hand := hand p @ [top ! k, top ! (length order + k)]\<rparr>)
          (get_player r (order ! k))) \<and>
     (\<forall>j. j \<notin> set order \<longrightarrow> get_player r' j = get_player r j)"
proof -
  define order where "order = deal_order clients r"
  note facts = deal_order_facts[where clients = clients and r = r, folded order_def]
  define r1 where "r1 = fold deal_one order r"
  have pl: "\<forall>i\<in>set order. get_player r i \<noteq> None"
    using facts(3) eligible_has_player by blast
  have len: "length order \<le> length (deck r)" using facts(2) assms by simp
  have hand1: "get_player r1 (order ! k) = map_option (takes_card (rev (deck r) ! k)) (get_player r (order ! k))"
    if "k < length order" for k
    unfolding r1_def by (rule fold_deal_one_hand[OF pl facts(1) len that])
  have deck1: "rev (deck r1) = drop (length order) (rev (deck r))"
    unfolding r1_def by (rule fold_deal_one_deck[OF pl len])
  have pl1: "\<forall>i\<in>set order. get_player r1 i \<noteq> None"
    using hand1 pl by (metis in_set_conv_nth nth_mem option.map_disc_iff)
  have len1: "length order \<le> length (deck r1)"
    using arg_cong[OF deck1, of length] facts(2) assms by simp
  have "get_player (fold deal_one order r1) (order ! k) =
      map_option (\<lambda>p. p\<lparr>hand := hand p @ [rev (deck r) ! k, rev (deck r) ! (length order + k)]\<rparr>)
        (get_player r (order ! k))" if k: "k < length order" for k
  proof -
    have "rev (deck r1) ! k = rev (deck r) ! (length order + k)"
      unfolding deck1 using len by (simp add: nth_drop)
    then show ?thesis
      using fold_deal_one_hand[OF pl1 facts(1) len1 k] hand1[OF k]
      by (simp add: option.map_comp comp_def takes_card_def)
  qed
  then show ?thesis
    by (simp add: Let_def order_def[symmetric] deal_hole_cards_def r1_def[symmetric] fold_deal_one_other)
       (simp add: r1_def fold_deal_one_other)
qed

lemma hole_cards_dealt_in_turn_witness:
  "get_player (deal_hole_cards {''a''} (demo_table\<lparr>deck := ordered_deck\<rparr>)) 4 =
     Some ((demo_player 4 900 True)
             \<lparr>hand := [\<lparr>card_s = ''spades'', card_r = ''A'', card_v = 14\<rparr>,
                       \<lparr>card_s = ''spades'', card_r = ''Q'', card_v = 12\<rparr>]\<rparr>)"
proof -
  let ?r = "demo_table\<lparr>deck := ordered_deck\<rparr>"
  have len: "length (deck ?r) \<ge> 20" by (simp add: length_ordered_deck)
  have order: "deal_order {''a''} ?r = [4, 1]" by code_simp
  have pl: "get_player ?r 4 = Some (demo_player 4 900 True)" by code_simp
  have "hand (demo_player 4 900 True) = []" by code_simp
  moreover have "rev (deck ?r) ! 0 = \<lparr>card_s = ''spades'', card_r = ''A'', card_v = 14\<rparr>"
    "rev (deck ?r) ! 2 = \<lparr>card_s = ''spades'', card_r = ''Q'', card_v = 12\<rparr>"
    by code_simp+
  moreover have "\<forall>k<2. get_player (deal_hole_cards {''a''} ?r) ([4, 1] ! k) =
      map_option (\<lambda>p. p\<lparr>hand := hand p @ [rev (deck ?r) ! k, rev (deck ?r) ! (2 + k)]\<rparr>)
        (get_player ?r ([4, 1] ! k))"
    using hole_cards_dealt_in_turn[OF len, of "{''a''}"] unfolding Let_def order by simp
  from this[rule_format, of 0] have "get_player (deal_hole_cards {''a''} ?r) 4 =
      map_option (\<lambda>p. p\<lparr>hand := hand p @ [rev (deck ?r) ! 0, rev (deck ?r) ! 2]\<rparr>) (get_player ?r 4)"
    by simp
  ultimately show ?thesis by (simp only: pl option.map append_Nil)
qed

end
