(* ===== verification/Pot_Manager.thy ===== *)
theory Pot_Manager
  imports Prelude
begin

section \<open>Main pot and side pots (engine/pot\_manager.cpp)\<close>

text \<open>
  \<open>build_pots\<close> slices the players' contributions at every distinct positive amount: the pot of a
  cap holds, from everybody who put in at least that much, the slice above the previous cap.
\<close>

record PotContributor =
  pc_seat_idx :: int
  committed :: int
  showdown_eligible :: bool

record Pot =
  pot_cap :: int
  pot_amount :: int
  eligible_seat_indices :: "int list"

text \<open>The \<open>std::set<int> caps\<close>, in the order the loop visits it.\<close>

definition pot_caps :: "PotContributor list \<Rightarrow> int list" where
  "pot_caps contributors =
     asc_set (map committed (filter (\<lambda>c. committed c > 0) contributors))"

text \<open>The inner loop: who has put in at least the cap, and who of them can win it.\<close>

definition pot_reached :: "int \<Rightarrow> PotContributor list \<Rightarrow> PotContributor list" where
  "pot_reached cap contributors = filter (\<lambda>c. \<not> committed c < cap) contributors"

definition pot_eligible :: "int \<Rightarrow> PotContributor list \<Rightarrow> int list" where
  "pot_eligible cap contributors =
     map pc_seat_idx (filter showdown_eligible (pot_reached cap contributors))"

fun build_pots_loop :: "PotContributor list \<Rightarrow> int \<Rightarrow> int list \<Rightarrow> Pot list" where
  "build_pots_loop contributors previous_cap [] = []"
| "build_pots_loop contributors previous_cap (cap # caps) =
     (let slice = cap - previous_cap in
      if slice \<le> 0 then build_pots_loop contributors previous_cap caps
      else
        let contributor_count = int (length (pot_reached cap contributors));
            amount = slice * contributor_count;
            rest = build_pots_loop contributors cap caps
        in if amount > 0
           then \<lparr>pot_cap = cap, pot_amount = amount,
                 eligible_seat_indices = pot_eligible cap contributors\<rparr> # rest
           else rest)"

definition build_pots :: "PotContributor list \<Rightarrow> Pot list" where
  "build_pots contributors = build_pots_loop contributors 0 (pot_caps contributors)"

subsection \<open>Summing over the caps\<close>

text \<open>
  The loop sums a quantity over its caps. The abstract loop below leaves the pots out: \<open>w\<close> says
  what a contributor adds to a slice. Both accounting lemmas are instances of it.
\<close>

definition above :: "int \<Rightarrow> int \<Rightarrow> int" where
  "above a x = (if x < a then 0 else x - a)"

lemma above_split:
  assumes "prev < cap" and "x \<le> prev \<or> cap \<le> x"
  shows "above prev x = (if x < cap then 0 else cap - prev) + above cap x"
  using assms by (auto simp: above_def)

lemma sum_const_filter:
  "(\<Sum>c\<leftarrow>cs. if P c then 0 else (k::int)) = k * int (length (filter (\<lambda>c. \<not> P c) cs))"
  by (induction cs) (auto simp: algebra_simps)

lemma sum_above_Cons:
  assumes "prev < cap" and "\<And>c. c \<in> set cs \<Longrightarrow> committed c \<le> prev \<or> cap \<le> committed c"
  shows "(\<Sum>c\<leftarrow>cs. above prev (committed c)) =
         (cap - prev) * int (length (pot_reached cap cs)) + (\<Sum>c\<leftarrow>cs. above cap (committed c))"
proof -
  have "(\<Sum>c\<leftarrow>cs. above prev (committed c)) =
        (\<Sum>c\<leftarrow>cs. (if committed c < cap then 0 else cap - prev) + above cap (committed c))"
    using assms by (intro arg_cong[where f = sum_list] map_cong refl above_split) auto
  then show ?thesis
    by (simp add: sum_list_addf sum_const_filter pot_reached_def)
qed

lemma build_pots_loop_amounts:
  assumes "sorted_wrt (<) (prev # caps)"
    and "\<And>c. c \<in> set cs \<Longrightarrow> committed c \<le> prev \<or> committed c \<in> set caps"
  shows "(\<Sum>p\<leftarrow>build_pots_loop cs prev caps. pot_amount p) =
         (\<Sum>c\<leftarrow>cs. above prev (committed c))"
  using assms
proof (induction caps arbitrary: prev)
  case Nil
  then have "(\<Sum>c\<leftarrow>cs. above prev (committed c)) = (\<Sum>c\<leftarrow>cs. 0)"
    by (intro arg_cong[where f = sum_list] map_cong) (force simp: above_def)+
  then show ?case by simp
next
  case (Cons cap caps)
  have lt: "prev < cap" using Cons.prems(1) by simp
  have IH: "(\<Sum>p\<leftarrow>build_pots_loop cs cap caps. pot_amount p) =
            (\<Sum>c\<leftarrow>cs. above cap (committed c))"
    using Cons.prems by (intro Cons.IH) force+
  have ge: "committed c \<le> prev \<or> cap \<le> committed c" if "c \<in> set cs" for c
    using Cons.prems that by force
  have zero: "int (length (pot_reached cap cs)) = 0"
    if "\<not> 0 < (cap - prev) * int (length (pot_reached cap cs))"
    using that lt by (metis diff_gt_0_iff_gt of_nat_0_less_iff of_nat_eq_0_iff
        zero_less_mult_iff gr0I)
  show ?case
    using lt IH zero sum_above_Cons[OF lt ge] by (auto simp: Let_def)
qed

subsection \<open>What one seat can win\<close>

text \<open>
  A contributor who is still in the hand is eligible for exactly the pots whose cap it has reached,
  so over these pots it is matched by every other contributor up to its own amount.
\<close>

lemma eligible_iff:
  assumes "distinct (map pc_seat_idx cs)" and "ci \<in> set cs" and "showdown_eligible ci"
  shows "pc_seat_idx ci \<in> set (pot_eligible cap cs) \<longleftrightarrow> cap \<le> committed ci"
proof
  assume "pc_seat_idx ci \<in> set (pot_eligible cap cs)"
  then obtain c where c: "c \<in> set cs" "\<not> committed c < cap" "pc_seat_idx c = pc_seat_idx ci"
    by (auto simp: pot_eligible_def pot_reached_def)
  then have "c = ci"
    using assms(1,2) by (auto simp: distinct_map dest: inj_onD)
  then show "cap \<le> committed ci" using c by simp
next
  assume "cap \<le> committed ci"
  then show "pc_seat_idx ci \<in> set (pot_eligible cap cs)"
    using assms(2,3) by (auto simp: pot_eligible_def pot_reached_def)
qed

lemma sum_above_min_Cons:
  assumes "prev < cap" and "cap \<le> x"
    and "\<And>c. c \<in> set cs \<Longrightarrow> committed c \<le> prev \<or> cap \<le> committed c"
  shows "(\<Sum>c\<leftarrow>cs. above prev (min (committed c) x)) =
         (cap - prev) * int (length (pot_reached cap cs)) +
         (\<Sum>c\<leftarrow>cs. above cap (min (committed c) x))"
proof -
  have "(\<Sum>c\<leftarrow>cs. above prev (min (committed c) x)) =
        (\<Sum>c\<leftarrow>cs. (if committed c < cap then 0 else cap - prev) + above cap (min (committed c) x))"
  proof (intro arg_cong[where f = sum_list] map_cong refl)
    fix c assume "c \<in> set cs"
    then show "above prev (min (committed c) x) =
        (if committed c < cap then 0 else cap - prev) + above cap (min (committed c) x)"
      using assms(1,2) assms(3)[of c] by (auto simp: above_def min_def)
  qed
  then show ?thesis
    by (simp add: sum_list_addf sum_const_filter pot_reached_def)
qed

lemma sum_above_min_zero: "x \<le> a \<Longrightarrow> (\<Sum>c\<leftarrow>cs. above a (min (committed c) x)) = 0"
  by (induction cs) (auto simp: above_def min_def)

lemma build_pots_loop_entitled:
  assumes "sorted_wrt (<) (prev # caps)"
    and "\<And>c. c \<in> set cs \<Longrightarrow> committed c \<le> prev \<or> committed c \<in> set caps"
    and "distinct (map pc_seat_idx cs)" and "ci \<in> set cs" and "showdown_eligible ci"
  shows "(\<Sum>p\<leftarrow>filter (\<lambda>p. pc_seat_idx ci \<in> set (eligible_seat_indices p))
            (build_pots_loop cs prev caps). pot_amount p) =
         (\<Sum>c\<leftarrow>cs. above prev (min (committed c) (committed ci)))"
  using assms
proof (induction caps arbitrary: prev)
  case Nil
  then show ?case by (simp add: sum_above_min_zero)
next
  case (Cons cap caps)
  let ?rest = "filter (\<lambda>p. pc_seat_idx ci \<in> set (eligible_seat_indices p)) (build_pots_loop cs cap caps)"
  have lt: "prev < cap" using Cons.prems(1) by simp
  have IH: "(\<Sum>p\<leftarrow>?rest. pot_amount p) = (\<Sum>c\<leftarrow>cs. above cap (min (committed c) (committed ci)))"
    using Cons.prems by (intro Cons.IH) force+
  have ge: "committed c \<le> prev \<or> cap \<le> committed c" if "c \<in> set cs" for c
    using Cons.prems(1,2) that by force
  note elig = eligible_iff[OF Cons.prems(3-5), of cap]
  show ?case
  proof (cases "cap \<le> committed ci")
    case True
    then have "pot_reached cap cs \<noteq> []"
      using Cons.prems(4) by (force simp: pot_reached_def filter_empty_conv)
    then have "0 < (cap - prev) * int (length (pot_reached cap cs))"
      using lt by (simp add: zero_less_mult_iff)
    then show ?thesis
      using lt IH True elig sum_above_min_Cons[OF lt True ge] by (simp add: Let_def)
  next
    case False
    then have "committed ci \<le> prev" using ge[OF Cons.prems(4)] by simp
    then show ?thesis
      using lt IH False elig by (simp add: Let_def sum_above_min_zero)
  qed
qed

subsection \<open>The shape of the pots\<close>

lemma build_pots_loop_mem:
  assumes "p \<in> set (build_pots_loop cs prev caps)"
  shows "pot_cap p \<in> set caps \<and> pot_amount p > 0 \<and>
         eligible_seat_indices p = pot_eligible (pot_cap p) cs"
  using assms
  by (induction cs prev caps rule: build_pots_loop.induct)
     (auto simp: Let_def split: if_splits)

lemma build_pots_loop_caps_subset:
  "set (map pot_cap (build_pots_loop cs prev caps)) \<subseteq> set caps"
  using build_pots_loop_mem by fastforce

lemma build_pots_loop_caps_sorted:
  assumes "sorted_wrt (<) caps"
  shows "sorted_wrt (<) (map pot_cap (build_pots_loop cs prev caps))"
  using assms
proof (induction cs prev caps rule: build_pots_loop.induct)
  case (1 cs prev)
  then show ?case by simp
next
  case (2 cs prev cap caps)
  then show ?case
    using build_pots_loop_caps_subset[of cs cap caps] by (auto simp: Let_def)
qed

lemma pot_caps_sorted: "sorted_wrt (<) (0 # pot_caps cs)"
  using asc_set_strict by (auto simp: pot_caps_def)

lemma set_pot_caps: "set (pot_caps cs) = {x. x > 0 \<and> x \<in> committed ` set cs}"
  by (auto simp: pot_caps_def)

subsection \<open>build\_pots\<close>

lemma build_pots_total:
  "(\<Sum>p\<leftarrow>build_pots cs. pot_amount p) = (\<Sum>c\<leftarrow>cs. max 0 (committed c))"
proof -
  have "(\<Sum>p\<leftarrow>build_pots cs. pot_amount p) = (\<Sum>c\<leftarrow>cs. above 0 (committed c))"
    unfolding build_pots_def
    by (rule build_pots_loop_amounts[OF pot_caps_sorted]) (auto simp: set_pot_caps)
  also have "\<dots> = (\<Sum>c\<leftarrow>cs. max 0 (committed c))"
    by (intro arg_cong[where f = sum_list] map_cong) (auto simp: above_def)
  finally show ?thesis .
qed

lemma build_pots_mem:
  "p \<in> set (build_pots cs) \<Longrightarrow>
   pot_cap p > 0 \<and> pot_amount p > 0 \<and> eligible_seat_indices p = pot_eligible (pot_cap p) cs"
  unfolding build_pots_def using build_pots_loop_mem[of p cs 0 "pot_caps cs"]
  by (auto simp: set_pot_caps)

lemma build_pots_amount_le:
  assumes "p \<in> set (build_pots cs)"
  shows "pot_amount p \<le> (\<Sum>c\<leftarrow>cs. max 0 (committed c))"
proof -
  have "pot_amount p \<le> sum_list (map pot_amount (build_pots cs))"
    using assms build_pots_mem by (intro member_le_sum_list_int) fastforce+
  then show ?thesis by (simp add: build_pots_total)
qed


text \<open>
  C28. The all-in rule. A player who has not folded competes for exactly the pots that hold, from
  each contributor, what that contributor put in up to the player's own contribution.
\<close>

theorem build_pots_all_in_rule:
  assumes "distinct (map pc_seat_idx contributors)"
    and "ci \<in> set contributors" and "showdown_eligible ci"
    and "\<And>c. c \<in> set contributors \<Longrightarrow> 0 \<le> committed c"
  shows "(\<Sum>p\<leftarrow>filter (\<lambda>p. pc_seat_idx ci \<in> set (eligible_seat_indices p))
            (build_pots contributors). pot_amount p) =
         (\<Sum>c\<leftarrow>contributors. min (committed c) (committed ci))"
proof -
  have "(\<Sum>p\<leftarrow>filter (\<lambda>p. pc_seat_idx ci \<in> set (eligible_seat_indices p))
            (build_pots contributors). pot_amount p) =
        (\<Sum>c\<leftarrow>contributors. above 0 (min (committed c) (committed ci)))"
    unfolding build_pots_def
    by (rule build_pots_loop_entitled[OF pot_caps_sorted]) (auto simp: set_pot_caps assms)
  also have "\<dots> = (\<Sum>c\<leftarrow>contributors. min (committed c) (committed ci))"
  proof (intro arg_cong[where f = sum_list] map_cong refl)
    fix c assume "c \<in> set contributors"
    then show "above 0 (min (committed c) (committed ci)) = min (committed c) (committed ci)"
      using assms(4)[of c] assms(4)[OF assms(2)] by (simp add: above_def min_def)
  qed
  finally show ?thesis .
qed

definition three_way_all_in :: "PotContributor list" where
  "three_way_all_in =
     [\<lparr>pc_seat_idx = 0, committed = 50, showdown_eligible = True\<rparr>,
      \<lparr>pc_seat_idx = 1, committed = 200, showdown_eligible = True\<rparr>,
      \<lparr>pc_seat_idx = 2, committed = 200, showdown_eligible = False\<rparr>]"

lemma build_pots_all_in_rule_witness:
  "(\<Sum>p\<leftarrow>filter (\<lambda>p. 0 \<in> set (eligible_seat_indices p)) (build_pots three_way_all_in). pot_amount p)
   = 150"
  using build_pots_all_in_rule[of three_way_all_in "three_way_all_in ! 0"]
  by (fastforce simp: three_way_all_in_def)

text \<open>
  Pots come in order and are well formed: caps strictly ascend, every amount is positive, the
  eligible seats are those that reached the cap and have not folded, and if the contributions sum
  to an \<open>int\<close> then so does every product \<open>slice * contributor_count\<close>.
\<close>

theorem build_pots_well_formed:
  assumes "(\<Sum>c\<leftarrow>contributors. max 0 (committed c)) \<le> int_max"
  shows "sorted_wrt (<) (map pot_cap (build_pots contributors)) \<and>
         (\<forall>p\<in>set (build_pots contributors).
            0 < pot_amount p \<and> in_i32 (pot_amount p) \<and>
            eligible_seat_indices p =
              map pc_seat_idx (filter (\<lambda>c. pot_cap p \<le> committed c \<and> showdown_eligible c) contributors))"
proof (intro conjI ballI)
  show "sorted_wrt (<) (map pot_cap (build_pots contributors))"
    unfolding build_pots_def using pot_caps_sorted
    by (intro build_pots_loop_caps_sorted) simp
next
  fix p assume p: "p \<in> set (build_pots contributors)"
  from build_pots_mem[OF p] build_pots_amount_le[OF p] assms
  show "0 < pot_amount p" and "in_i32 (pot_amount p)"
    by (auto simp: i32_defs)
  show "eligible_seat_indices p =
      map pc_seat_idx (filter (\<lambda>c. pot_cap p \<le> committed c \<and> showdown_eligible c) contributors)"
    using build_pots_mem[OF p]
    by (simp add: pot_eligible_def pot_reached_def not_less conj_commute)
qed

lemma build_pots_well_formed_witness:
  "(\<Sum>c\<leftarrow>three_way_all_in. max 0 (committed c)) \<le> int_max \<and>
   map pot_cap (build_pots three_way_all_in) = [50, 200] \<and>
   sorted_wrt (<) (map pot_cap (build_pots three_way_all_in))"
proof -
  have h: "(\<Sum>c\<leftarrow>three_way_all_in. max 0 (committed c)) \<le> int_max"
    by (simp add: three_way_all_in_def int_max_def)
  have "map pot_cap (build_pots three_way_all_in) = [50, 200]"
    by code_simp
  with h build_pots_well_formed[OF h] show ?thesis by blast
qed

end
