(* ===== verification/Hand_Flow.thy ===== *)
theory Hand_Flow
  imports Match_End Dealing Pot_Manager "HOL-Library.Product_Lexorder"
begin

section \<open>From the deal to the payout (main.cpp)\<close>

text \<open>
  A hand from \<open>start_hand\<close> to \<open>send_hand_over\<close>. A handler works on the context: the server and the
  room its reference points to. An operation that could leave the \<open>int\<close> range on a number a client
  chose returns a \<open>fault\<close>.
\<close>

datatype fault = Signed_Overflow | Out_Of_Bounds

abbreviation clients_of :: "Ctx \<Rightarrow> string set" where
  "clients_of c \<equiv> active_clients c"

subsection \<open>Paying the pots\<close>

definition first_odd_chip_seat :: "'a Table_scheme \<Rightarrow> int" where
  "first_odd_chip_seat r = (dealer_seat_idx r + 1) mod kSeats"

definition winners_by_odd_chip_priority :: "'a Table_scheme \<Rightarrow> int list \<Rightarrow> int list" where
  "winners_by_odd_chip_priority r winners =
     sort_key (\<lambda>a. ((a - first_odd_chip_seat r + kSeats) mod kSeats, a)) winners"

fun join_winner_names :: "'a Table_scheme \<Rightarrow> int list \<Rightarrow> string" where
  "join_winner_names r [] = []"
| "join_winner_names r [w] = seat_name (seat_at r w)"
| "join_winner_names r (w # v # ws) = seat_name (seat_at r w) @ '' & '' @ join_winner_names r (v # ws)"

definition win_chips :: "int \<Rightarrow> int \<Rightarrow> 'a Table_scheme \<Rightarrow> 'a Table_scheme" where
  "win_chips seat_idx amount r = upd_player seat_idx (\<lambda>p. p\<lparr>chips := chips p + amount\<rparr>) r"

text \<open>\<open>awarded_by_seat\<close> is written by the code and read by nothing; the order of the winners is.\<close>

definition note_winner :: "int \<Rightarrow> int \<Rightarrow> int list \<Rightarrow> int list" where
  "note_winner seat_idx amount order =
     (if amount \<le> 0 then order else if seat_idx \<in> set order then order else order @ [seat_idx])"

type_synonym EvalRow = "int \<times> HandEval"

definition eval_rows :: "'a Table_scheme \<Rightarrow> int list \<Rightarrow> EvalRow list" where
  "eval_rows r live_seats =
     List.map_filter
       (\<lambda>i. map_option (\<lambda>p. (i, best_hand (hand p @ community_cards r))) (get_player r i)) live_seats"

definition pick_row :: "int list \<Rightarrow> EvalRow \<Rightarrow> EvalRow option \<Rightarrow> EvalRow option" where
  "pick_row eligible row best =
     (if fst row \<notin> set eligible then best
      else case best of
             None \<Rightarrow> Some row
           | Some b \<Rightarrow> if compare_hands (snd row) (snd b) > 0 then Some row else best)"

definition best_row :: "int list \<Rightarrow> EvalRow list \<Rightarrow> EvalRow option" where
  "best_row eligible evals = fold (pick_row eligible) evals None"

definition pot_winners :: "int list \<Rightarrow> EvalRow list \<Rightarrow> HandEval \<Rightarrow> int list" where
  "pot_winners eligible evals best =
     map fst (filter (\<lambda>row. fst row \<in> set eligible \<and> compare_hands (snd row) best = 0) evals)"

definition pay_share :: "int \<Rightarrow> int \<Rightarrow> 'a Table_scheme \<times> int list \<Rightarrow> 'a Table_scheme \<times> int list" where
  "pay_share amount seat_idx st =
     (win_chips seat_idx amount (fst st), note_winner seat_idx amount (snd st))"

definition pay_winners ::
  "int \<Rightarrow> int list \<Rightarrow> 'a Table_scheme \<times> int list \<Rightarrow> 'a Table_scheme \<times> int list" where
  "pay_winners amount winners st =
     (let share = amount div int (length winners);
          odd_chips = amount mod int (length winners);
          odd_chip_order = winners_by_odd_chip_priority (fst st) winners;
          st = fold (pay_share share) winners st
      in fold (pay_share 1) (take (nat odd_chips) odd_chip_order) st)"

definition pot_label :: "nat \<Rightarrow> string" where
  "pot_label pot_index = (if pot_index = 0 then ''main pot'' else ''side pot #'' @ nat_to_string pot_index)"

text \<open>One round of the loop over the pots; the state is the context, \<open>hand_winner_order\<close> and \<open>hand_desc\<close>.\<close>

definition settle_pot ::
  "bool \<Rightarrow> EvalRow list \<Rightarrow> nat \<times> Pot \<Rightarrow> Ctx \<times> int list \<times> string \<Rightarrow> Ctx \<times> int list \<times> string" where
  "settle_pot has_side_pots evals = (\<lambda>(pot_index, pt) (c, order, desc).
     let eligible = filter (\<lambda>i. i \<in> set (map fst evals)) (eligible_seat_indices pt)
     in if eligible = [] then (c, order, desc)
        else case best_row eligible evals of
          None \<Rightarrow> (c, order, desc)
        | Some row \<Rightarrow>
            let winners = pot_winners eligible evals (snd row)
            in if winners = [] then (c, order, desc)
               else
                 let (r, order) = pay_winners (pot_amount pt) winners (rm c, order);
                     c = c\<lparr>rm := r\<rparr>;
                     c = broadcast_activity
                           (join_winner_names (rm c) winners @ '' wins '' @ pot_label pot_index @ '' $'' @
                            to_string (pot_amount pt) @ '' with '' @ eval_desc (snd row) @ ''!'') c
                 in (c, order,
                     if \<not> has_side_pots \<and> pot_index = 0 then eval_desc (snd row)
                     else ''Side pots settled''))"

subsection \<open>The end of a hand\<close>

definition named_winner :: "'a Table_scheme \<Rightarrow> int \<Rightarrow> WinnerInfo" where
  "named_winner r i = \<lparr>wi_seat_idx = i, wi_name = seat_name (seat_at r i)\<rparr>"

definition showdown_msg :: "'a Table_scheme \<Rightarrow> int \<times> Card list \<Rightarrow> ShowdownHandMsg" where
  "showdown_msg r sc =
     \<lparr>sh_seat_idx = fst sc, sh_name = seat_name (seat_at r (fst sc)), sh_hand = snd sc\<rparr>"

definition send_hand_over :: "HandOverMsg \<Rightarrow> (int \<times> Card list) list \<Rightarrow> Ctx \<Rightarrow> Ctx" where
  "send_hand_over msg showdown_cards c =
     (let msg = msg\<lparr>ho_showdown_hands := map (showdown_msg (rm c)) showdown_cards\<rparr>;
          hist = \<lparr>mh_hand_num = hand_num (rm c), mh_winners = ho_winners msg, mh_desc = ho_desc msg\<rparr>;
          c = on_room (\<lambda>r. r\<lparr>hand_history := hand_history r @ [hist]\<rparr>) c;
          c = emit_room_event ''hand_over'' (HandOverMessage msg) c
      in broadcast_game c)"

definition hand_over_msg :: "Room \<Rightarrow> string \<Rightarrow> int list \<Rightarrow> HandOverMsg" where
  "hand_over_msg r desc winners =
     \<lparr>ho_hand_num = hand_num r, ho_total_hands = total_hands r,
      ho_winners = map (named_winner r) winners, ho_desc = desc, ho_showdown_hands = []\<rparr>"

definition contributors_of :: "'a Table_scheme \<Rightarrow> PotContributor list" where
  "contributors_of r =
     map (\<lambda>(i, p). \<lparr>pc_seat_idx = i, committed = hand_contribution p,
                    showdown_eligible = (\<not> is_folded p)\<rparr>)
       (filter (\<lambda>(i, p). \<not> hand_contribution p \<le> 0) (players r))"

definition showdown_cards_of :: "'a Table_scheme \<Rightarrow> int list \<Rightarrow> (int \<times> Card list) list" where
  "showdown_cards_of r live_seats =
     List.map_filter
       (\<lambda>i. case get_player r i of
              None \<Rightarrow> None
            | Some p \<Rightarrow> if length (hand p) \<ge> 2 then Some (i, hand p) else None) live_seats"

text \<open>\<open>while (community_cards.size() < 5 && !deck.empty()) deal_community(room, 1);\<close>\<close>

definition run_out_board :: "'a Table_scheme \<Rightarrow> 'a Table_scheme" where
  "run_out_board r = deal_community (5 - length (community_cards r)) r"

text \<open>\<open>finish_hand\<close>, in the four stretches of its body.\<close>

definition close_turns :: "Ctx \<Rightarrow> Ctx" where
  "close_turns c =
     on_room (\<lambda>r. r\<lparr>ai_timer := None, pending_action_seats := {}, active_seat_idx := -1\<rparr>) c"

definition count_pot :: "Ctx \<Rightarrow> Ctx" where
  "count_pot c =
     (if contributors_of (rm c) = [] then c
      else on_room (\<lambda>r. r\<lparr>pot := \<Sum>x\<leftarrow>contributors_of r. committed x\<rparr>) c)"

definition settle_hand :: "int list \<Rightarrow> Pot list \<Rightarrow> Ctx \<Rightarrow> Ctx \<times> int list \<times> string" where
  "settle_hand live_seats pots c =
     (if length live_seats = 1 then
        let c = on_room (win_chips (hd live_seats) (\<Sum>pt\<leftarrow>pots. pot_amount pt)) c
        in (broadcast_activity (''Game Over. '' @ seat_name (seat_at (rm c) (hd live_seats)) @
              '' wins (all others folded)!'') c,
            note_winner (hd live_seats) (\<Sum>pt\<leftarrow>pots. pot_amount pt) [], ''All others folded'')
      else
        let c = on_room run_out_board c
        in fold (settle_pot (length pots > 1) (eval_rows (rm c) live_seats)) (zip [0..<length pots] pots)
             (c, [], ''All others folded''))"

definition close_hand :: "string \<Rightarrow> int list \<Rightarrow> (int \<times> Card list) list \<Rightarrow> Ctx \<Rightarrow> Ctx" where
  "close_hand desc winners showdown_cards c =
     (let c = on_room (\<lambda>r. r\<lparr>pot := 0, round_name := phase_to_string HandOver\<rparr>) c
      in send_hand_over (hand_over_msg (rm c) desc winners) showdown_cards c)"

definition finish_hand :: "Ctx \<Rightarrow> Ctx" where
  "finish_hand c =
     (let c = close_turns c;
          live_seats = get_in_hand_seats (clients_of c) (rm c);
          showdown_cards = showdown_cards_of (rm c) live_seats
      in if live_seats = [] then
           close_hand ''No active players'' [] [] c
         else
           let c = count_pot c;
               pots = build_pots (contributors_of (rm c));
               (c, hand_winner_order, hand_desc) = settle_hand live_seats pots c
           in close_hand hand_desc hand_winner_order showdown_cards c)"

subsection \<open>Streets and turns\<close>

text \<open>The table part of \<open>proceed_to_next_street\<close>: bets cleared, next street named and dealt.\<close>

definition clear_street_bets :: "'a Table_scheme \<Rightarrow> 'a Table_scheme" where
  "clear_street_bets r =
     r\<lparr>players := smap_each (\<lambda>_ p. p\<lparr>current_bet := 0\<rparr>) (players r), current_max_bet := 0\<rparr>"

definition open_next_street :: "'a Table_scheme \<Rightarrow> 'a Table_scheme" where
  "open_next_street r =
     (let r = clear_street_bets r; phase = round_phase_from_string (round_name r)
      in if phase = PreFlop then deal_community 3 (r\<lparr>round_name := phase_to_string Flop\<rparr>)
         else if phase = Flop then deal_community 1 (r\<lparr>round_name := phase_to_string Turn\<rparr>)
         else if phase = Turn then deal_community 1 (r\<lparr>round_name := phase_to_string River\<rparr>)
         else r\<lparr>round_name := phase_to_string Showdown\<rparr>)"

text \<open>The seat the AI plays when its timer fires.\<close>

definition ai_controls :: "string set \<Rightarrow> 'a Table_scheme \<Rightarrow> int \<Rightarrow> bool" where
  "ai_controls clients r i \<longleftrightarrow>
     seat_type (seat_at r i) = SeatAI \<or>
     (seat_type (seat_at r i) = SeatPlayer \<and> seat_ai_managed (seat_at r i) \<and>
      \<not> is_online clients (seat_socket_id (seat_at r i)))"

definition announce_turn :: "Ctx \<Rightarrow> Ctx" where
  "announce_turn c =
     (let c = broadcast_game c; i = active_seat_idx (rm c)
      in if ai_controls (clients_of c) (rm c) i then on_room (\<lambda>r. r\<lparr>ai_timer := Some i\<rparr>) c
         else emit_room_event ''turn'' (TurnMessage i (turn_nonce (rm c))) c)"

definition pass_turn :: "int \<Rightarrow> 'a Table_scheme \<Rightarrow> 'a Table_scheme" where
  "pass_turn from_seat_idx r =
     (let (i, r) = choose_next_actor from_seat_idx r in r\<lparr>active_seat_idx := i\<rparr>)"

definition settle_active :: "'a Table_scheme \<Rightarrow> 'a Table_scheme" where
  "settle_active r =
     (let r = remove_ineligible_from_pending r
      in if active_seat_idx r < 0 \<or> active_seat_idx r \<notin> pending_action_seats r
         then pass_turn (if active_seat_idx r \<ge> 0 then active_seat_idx r else dealer_seat_idx r) r
         else r)"

lemma round_deal_community [simp]: "round_name (deal_community n r) = round_name r"
  by (induction n r rule: deal_community.induct) simp_all

lemma round_settle_active [simp]: "round_name (settle_active r) = round_name r"
  by (simp add: settle_active_def pass_turn_def choose_next_actor_def Let_def)

lemma round_open_next_street:
  "round_phase_from_string (round_name (open_next_street r)) =
     (case next_round_phase (round_phase_from_string (round_name r)) of Some p \<Rightarrow> p | None \<Rightarrow> Showdown)"
  by (cases "round_phase_from_string (round_name r)")
     (simp_all add: open_next_street_def Let_def clear_street_bets_def del: phase_to_string.simps)

lemma round_broadcast_game [simp]: "round_name (rm (broadcast_game c)) = round_name (rm c)"
  by (rule truncate_fields) (simp add: game_of_broadcast[unfolded game_of_def])

function proceed_to_next_street :: "Ctx \<Rightarrow> Ctx" and request_turn :: "Ctx \<Rightarrow> Ctx" where
  "proceed_to_next_street c =
     (let c = on_room open_next_street c
      in if round_phase_from_string (round_name (rm c)) = Showdown then finish_hand c
         else
           let first = get_active_offset (clients_of c) (rm c) (dealer_seat_idx (rm c)) 1;
               c = on_room (init_pending_action (clients_of c) first) c;
               c = broadcast_game c
           in request_turn c)"
| "request_turn c =
     (let c = on_room (\<lambda>r. r\<lparr>ai_timer := None\<rparr>) c
      in if length (get_in_hand_seats (clients_of c) (rm c)) \<le> 1 then finish_hand c
         else if get_actable_seats (clients_of c) (rm c) = [] then
           finish_hand (on_room (\<lambda>r. r\<lparr>round_name := phase_to_string Showdown\<rparr>) c)
         else
           let c = on_room settle_active c
           in if active_seat_idx (rm c) < 0 then proceed_to_next_street c
              else announce_turn c)"
  by pat_completeness auto

termination
proof (relation "measure (\<lambda>x. case x of
    Inl c \<Rightarrow> 2 * streets_left (round_phase_from_string (round_name (rm c)))
  | Inr c \<Rightarrow> 2 * streets_left (round_phase_from_string (round_name (rm c))) + 1)")
  fix c :: Ctx and x xa xb xc
  assume x: "x = on_room open_next_street c"
    and "round_phase_from_string (round_name (rm x)) \<noteq> Showdown"
    and xb: "xb = on_room (init_pending_action (clients_of x) xa) x" and xc: "xc = broadcast_game xb"
  then obtain p where "next_round_phase (round_phase_from_string (round_name (rm c))) = Some p"
      "round_phase_from_string (round_name (rm x)) = p"
    by (auto simp: round_open_next_street split: option.splits)
  then have "Suc (streets_left (round_phase_from_string (round_name (rm x)))) =
      streets_left (round_phase_from_string (round_name (rm c)))"
    using next_round_phase_decreases by blast
  moreover have "round_name (rm xc) = round_name (rm x)" by (simp add: xc xb init_pending_action_def)
  ultimately show "(Inr xc, Inl c) \<in> measure (\<lambda>x. case x of
      Inl c \<Rightarrow> 2 * streets_left (round_phase_from_string (round_name (rm c)))
    | Inr c \<Rightarrow> 2 * streets_left (round_phase_from_string (round_name (rm c))) + 1)"
    by simp
qed simp_all

declare proceed_to_next_street.simps [simp del] request_turn.simps [simp del]

end
