(* ===== verification/Payout.thy ===== *)
theory Payout
  imports Hand_Flow
begin

section \<open>Who is paid what\<close>

text \<open>
  The loops that pay a pot: how the shares and the odd chips add up to the pot, and in which order the odd
  chips go around.
\<close>

subsection \<open>Paying chips\<close>

lemma get_player_win_chips:
  "get_player (win_chips i a r) j =
     (if j = i then map_option (\<lambda>p. p\<lparr>chips := chips p + a\<rparr>) (get_player r j) else get_player r j)"
  by (simp add: win_chips_def)

lemma table_chips_win_chips:
  assumes "table_ok r" "get_player r i \<noteq> None"
  shows "table_chips (win_chips i a r) = table_chips r + a"
  using assms by (auto simp: win_chips_def table_sum_upd_player)

lemma table_contrib_win_chips:
  assumes "table_ok r"
  shows "table_contrib (win_chips i a r) = table_contrib r"
  using assms
  by (cases "get_player r i") (simp_all add: win_chips_def table_sum_upd_player upd_player_missing)

lemma table_ok_win_chips: "table_ok r \<Longrightarrow> 0 \<le> a \<Longrightarrow> table_ok (win_chips i a r)"
  unfolding win_chips_def by (intro table_ok_upd_player) (auto simp: player_ok_def)

lemma win_chips_fields [simp]:
  "seats (win_chips i a r) = seats r" "dealer_seat_idx (win_chips i a r) = dealer_seat_idx r"
  "hand_num (win_chips i a r) = hand_num r" "deck (win_chips i a r) = deck r"
  "community_cards (win_chips i a r) = community_cards r" "round_name (win_chips i a r) = round_name r"
  "active_seat_idx (win_chips i a r) = active_seat_idx r"
  "initial_chips (win_chips i a r) = initial_chips r"
  "pending_action_seats (win_chips i a r) = pending_action_seats r"
  by (simp_all add: win_chips_def)

text \<open>Paying the same amount to a list of seats.\<close>

definition pay_all :: "int \<Rightarrow> int list \<Rightarrow> 'a Table_scheme \<Rightarrow> 'a Table_scheme" where
  "pay_all a ws r = fold (\<lambda>i. win_chips i a) ws r"

lemma fold_pay_share:
  "fold (pay_share a) ws (r, ord) = (pay_all a ws r, fold (\<lambda>i. note_winner i a) ws ord)"
  by (induction ws arbitrary: r ord) (simp_all add: pay_share_def pay_all_def)

lemma pay_all_fields [simp]:
  "seats (pay_all a ws r) = seats r" "dealer_seat_idx (pay_all a ws r) = dealer_seat_idx r"
  "hand_num (pay_all a ws r) = hand_num r" "deck (pay_all a ws r) = deck r"
  "community_cards (pay_all a ws r) = community_cards r" "round_name (pay_all a ws r) = round_name r"
  "active_seat_idx (pay_all a ws r) = active_seat_idx r"
  "pending_action_seats (pay_all a ws r) = pending_action_seats r"
  by (induction ws arbitrary: r) (simp_all add: pay_all_def)

lemma get_player_pay_all:
  "distinct ws \<Longrightarrow> get_player (pay_all a ws r) j =
     (if j \<in> set ws then map_option (\<lambda>p. p\<lparr>chips := chips p + a\<rparr>) (get_player r j)
      else get_player r j)"
  by (induction ws arbitrary: r) (auto simp: pay_all_def get_player_win_chips)

lemma pay_all_player [simp]: "get_player (pay_all a ws r) i = None \<longleftrightarrow> get_player r i = None"
proof (induction ws arbitrary: r)
  case (Cons w ws)
  then show ?case by (simp add: pay_all_def get_player_win_chips)
qed (simp add: pay_all_def)

lemma pay_all_sums:
  assumes "table_ok r" "0 \<le> a" "\<forall>i\<in>set ws. get_player r i \<noteq> None"
  shows "table_ok (pay_all a ws r) \<and> table_contrib (pay_all a ws r) = table_contrib r \<and>
         table_chips (pay_all a ws r) = table_chips r + a * int (length ws)"
  using assms
proof (induction ws arbitrary: r)
  case Nil
  then show ?case by (simp add: pay_all_def)
next
  case (Cons w ws)
  let ?r = "win_chips w a r"
  have "table_ok ?r" using Cons.prems by (simp add: table_ok_win_chips)
  moreover have "\<forall>i\<in>set ws. get_player ?r i \<noteq> None"
    using Cons.prems(3) by (auto simp: get_player_win_chips)
  ultimately have "table_ok (pay_all a ws ?r) \<and> table_contrib (pay_all a ws ?r) = table_contrib ?r \<and>
      table_chips (pay_all a ws ?r) = table_chips ?r + a * int (length ws)"
    using Cons.prems(2) Cons.IH by blast
  moreover have "pay_all a (w # ws) r = pay_all a ws ?r" by (simp add: pay_all_def)
  ultimately show ?case
    using Cons.prems by (simp add: table_chips_win_chips table_contrib_win_chips algebra_simps)
qed

subsection \<open>Odd chips\<close>

lemma odd_chip_order_perm:
  "mset (winners_by_odd_chip_priority r ws) = mset ws"
  by (simp add: winners_by_odd_chip_priority_def)

lemma odd_chip_order_set [simp]:
  "set (winners_by_odd_chip_priority r ws) = set ws"
  "length (winners_by_odd_chip_priority r ws) = length ws"
  "distinct (winners_by_odd_chip_priority r ws) = distinct ws"
  using odd_chip_order_perm mset_eq_setD mset_eq_length mset_eq_imp_distinct_iff by blast+

lemma odd_chip_distance:
  "(a - first_odd_chip_seat r + kSeats) mod kSeats = clockwise_distance (dealer_seat_idx r) a - 1"
proof -
  have "(a - (dealer_seat_idx r + 1) mod kSeats + kSeats) mod kSeats = (a - (dealer_seat_idx r + 1)) mod kSeats"
    by (simp add: mod_diff_right_eq)
  then show ?thesis
    by (simp add: first_odd_chip_seat_def clockwise_distance_def algebra_simps)
qed

lemma odd_chip_order_sorted:
  "sorted_wrt (\<lambda>a b. clockwise_distance (dealer_seat_idx r) a \<le> clockwise_distance (dealer_seat_idx r) b)
     (winners_by_odd_chip_priority r ws)"
proof -
  have "sorted (map (\<lambda>a. ((a - first_odd_chip_seat r + kSeats) mod kSeats, a))
      (winners_by_odd_chip_priority r ws))"
    unfolding winners_by_odd_chip_priority_def by (rule sorted_sort_key)
  then have "sorted_wrt (\<lambda>a b. ((a - first_odd_chip_seat r + kSeats) mod kSeats, a)
      \<le> ((b - first_odd_chip_seat r + kSeats) mod kSeats, b)) (winners_by_odd_chip_priority r ws)"
    by (simp add: sorted_map)
  then show ?thesis
    by (rule sorted_wrt_mono_rel[rotated]) (simp only: odd_chip_distance less_eq_prod_simp, linarith)
qed

lemma pay_winners_eq:
  "pay_winners amount ws (r, ord) =
     (let n = int (length ws); lucky = take (nat (amount mod n)) (winners_by_odd_chip_priority r ws)
      in (pay_all 1 lucky (pay_all (amount div n) ws r),
          fold (\<lambda>i. note_winner i 1) lucky (fold (\<lambda>i. note_winner i (amount div n)) ws ord)))"
  by (simp add: pay_winners_def Let_def fold_pay_share)

lemma pay_winners_sums:
  assumes "table_ok r" "ws \<noteq> []" "0 \<le> amount" "\<forall>i\<in>set ws. get_player r i \<noteq> None"
  shows "table_ok (fst (pay_winners amount ws (r, ord))) \<and>
         table_contrib (fst (pay_winners amount ws (r, ord))) = table_contrib r \<and>
         table_chips (fst (pay_winners amount ws (r, ord))) = table_chips r + amount"
proof -
  define n where "n = int (length ws)"
  define lucky where "lucky = take (nat (amount mod n)) (winners_by_odd_chip_priority r ws)"
  define r1 where "r1 = pay_all (amount div n) ws r"
  have n: "0 < n" using assms(2) by (simp add: n_def)
  have odd: "0 \<le> amount mod n" "amount mod n < n" using n by simp_all
  have len: "int (length lucky) = amount mod n"
    using odd by (simp add: lucky_def n_def min_def)
  have one: "table_ok r1 \<and> table_contrib r1 = table_contrib r \<and>
      table_chips r1 = table_chips r + amount div n * n"
    unfolding r1_def n_def
    using pay_all_sums[OF assms(1) _ assms(4)] assms(3) n by (simp add: n_def pos_imp_zdiv_nonneg_iff)
  have "\<forall>i\<in>set lucky. get_player r1 i \<noteq> None"
    using assms(4) unfolding r1_def lucky_def pay_all_player
    by (metis in_set_takeD odd_chip_order_set(1))
  then have "table_ok (pay_all 1 lucky r1) \<and> table_contrib (pay_all 1 lucky r1) = table_contrib r1 \<and>
      table_chips (pay_all 1 lucky r1) = table_chips r1 + amount mod n"
    using pay_all_sums[of r1 1 lucky] one by (simp add: len)
  then show ?thesis
    using one by (simp add: pay_winners_eq Let_def n_def[symmetric] lucky_def[symmetric]
        r1_def[symmetric])
qed

text \<open>
  C12. A pot is split exactly: each of \<open>n\<close> winners gets \<open>amount div n\<close>, the \<open>amount mod n\<close> odd chips
  go one each to the first winners clockwise from the left of the button, nobody else's stack moves,
  and together the winners receive the whole pot.
\<close>

theorem pot_split_exactly:
  assumes "table_ok r" and "ws \<noteq> []" and "distinct ws" and "0 \<le> amount"
    and "\<forall>i\<in>set ws. get_player r i \<noteq> None"
  shows "let r' = fst (pay_winners amount ws (r, order)); n = int (length ws);
             queue = winners_by_odd_chip_priority r ws in
     table_chips r' = table_chips r + amount \<and>
     mset queue = mset ws \<and>
     sorted_wrt (\<lambda>a b. clockwise_distance (dealer_seat_idx r) a \<le> clockwise_distance (dealer_seat_idx r) b)
       queue \<and>
     (\<forall>k<length queue. get_player r' (queue ! k) =
        map_option (\<lambda>p. p\<lparr>chips := chips p + amount div n + (if int k < amount mod n then 1 else 0)\<rparr>)
          (get_player r (queue ! k))) \<and>
     (\<forall>i. i \<notin> set ws \<longrightarrow> get_player r' i = get_player r i)"
proof -
  define n where "n = int (length ws)"
  define queue where "queue = winners_by_odd_chip_priority r ws"
  define lucky where "lucky = take (nat (amount mod n)) queue"
  define r' where "r' = fst (pay_winners amount ws (r, order))"
  have q: "distinct queue" "set queue = set ws" "length queue = length ws"
    using assms(3) by (simp_all add: queue_def)
  have r': "r' = pay_all 1 lucky (pay_all (amount div n) ws r)"
    by (simp add: r'_def pay_winners_eq Let_def n_def lucky_def queue_def)
  have n: "0 < n" using assms(2) by (simp add: n_def)
  then have odd: "0 \<le> amount mod n" by simp
  have dl: "distinct lucky" using q(1) by (simp add: lucky_def)
  have mem: "queue ! k \<in> set lucky \<longleftrightarrow> int k < amount mod n" if "k < length queue" for k
  proof -
    have "queue ! k \<in> set lucky \<longleftrightarrow> (\<exists>j < nat (amount mod n). j < length queue \<and> queue ! j = queue ! k)"
      by (auto simp: lucky_def in_set_conv_nth)
    also have "\<dots> \<longleftrightarrow> k < nat (amount mod n)"
      using that q(1) by (auto simp: nth_eq_iff_index_eq)
    finally show ?thesis using odd by linarith
  qed
  have "get_player r' (queue ! k) =
      map_option (\<lambda>p. p\<lparr>chips := chips p + amount div n + (if int k < amount mod n then 1 else 0)\<rparr>)
        (get_player r (queue ! k))" if k: "k < length queue" for k
  proof -
    have "queue ! k \<in> set ws" using k q(2) nth_mem by blast
    then show ?thesis
      using mem[OF k] assms(3) dl
      by (cases "get_player r (queue ! k)") (simp_all add: r' get_player_pay_all)
  qed
  moreover have "get_player r' i = get_player r i" if "i \<notin> set ws" for i
  proof -
    have "i \<notin> set lucky" using that q(2) by (auto simp: lucky_def dest: in_set_takeD)
    then show ?thesis using that assms(3) dl by (simp add: r' get_player_pay_all)
  qed
  moreover have "table_chips r' = table_chips r + amount"
    using pay_winners_sums[OF assms(1,2,4,5)] by (simp add: r'_def)
  ultimately show ?thesis
    unfolding Let_def r'_def[symmetric] n_def[symmetric] queue_def[symmetric]
    using odd_chip_order_perm[of r ws] odd_chip_order_sorted[of r ws] by (simp add: queue_def)
qed

lemma pot_split_exactly_witness:
  "table_chips (fst (pay_winners 101 [1, 4] (demo_table, []))) = 1501 \<and>
   winners_by_odd_chip_priority demo_table [1, 4] = [4, 1] \<and>
   get_player (fst (pay_winners 101 [1, 4] (demo_table, []))) 4 =
     map_option (\<lambda>p. p\<lparr>chips := chips p + 51\<rparr>) (get_player demo_table 4)"
proof -
  have "\<forall>i\<in>set [1, 4]. get_player demo_table i \<noteq> None" by code_simp
  note split = pot_split_exactly[OF demo_table_ok _ _ _ this, of 101 "[]", simplified Let_def]
  have q: "winners_by_odd_chip_priority demo_table [1, 4] = [4, 1]" by code_simp
  have t: "table_chips demo_table = 1400" by code_simp
  have "\<forall>k<2. get_player (fst (pay_winners 101 [1, 4] (demo_table, []))) ([4, 1] ! k) =
      map_option (\<lambda>p. p\<lparr>chips := chips p + 101 div 2 + (if int k < 101 mod 2 then 1 else 0)\<rparr>)
        (get_player demo_table ([4, 1] ! k))"
    using split unfolding q by simp
  from this[rule_format, of 0] q t split show ?thesis by (simp add: add.commute)
qed

end
