(* ===== verification/Accounting.thy ===== *)
theory Accounting
  imports Payout
begin

section \<open>Every chip is accounted for\<close>

text \<open>
  What \<open>finish_hand\<close> does with the chips: who wins a pot, what the winners are paid, and the account of a whole
  hand. A pot that nobody left in the hand may win is paid to nobody; the accounting says exactly when.
\<close>

subsection \<open>What the broadcasts leave alone\<close>

lemma table_reads:
  assumes "Table.truncate r = Table.truncate r'"
  shows "table_ok r = table_ok r'" "table_chips r = table_chips r'"
    "table_contrib r = table_contrib r'" "get_player r i = get_player r' i"
    "seat_at r i = seat_at r' i" "seats r = seats r'" "players r = players r'"
    "pending_action_seats r = pending_action_seats r'" "active_seat_idx r = active_seat_idx r'"
    "round_name r = round_name r'" "pot r = pot r'" "hand_num r = hand_num r'"
    "dealer_seat_idx r = dealer_seat_idx r'" "initial_chips r = initial_chips r'" "community_cards r = community_cards r'"
    "deck r = deck r'" "current_max_bet r = current_max_bet r'" "min_raise r = min_raise r'"
    "can_still_act r i = can_still_act r' i" "contributors_of r = contributors_of r'"
    "get_in_hand_seats clients r = get_in_hand_seats clients r'"
    "get_actable_seats clients r = get_actable_seats clients r'"
proof -
  note f = truncate_fields[OF assms]
  have sl: "seat_live cl r i = seat_live cl r' i" for cl i
    by (simp add: seat_live_def seat_at_def f)
  have gp: "get_player r i = get_player r' i" for i by (simp add: get_player_def f)
  show "table_ok r = table_ok r'" "table_chips r = table_chips r'"
    "table_contrib r = table_contrib r'" "get_player r i = get_player r' i"
    "seat_at r i = seat_at r' i" "can_still_act r i = can_still_act r' i"
    "contributors_of r = contributors_of r'"
    by (simp_all add: table_ok_def table_chips_def table_contrib_def seat_at_def can_still_act_def
        contributors_of_def gp f)
  have "in_hand clients r = in_hand clients r'" "actable clients r = actable clients r'"
    by (simp_all add: fun_eq_iff in_hand_def actable_def sl gp f split: option.split)
  then show "get_in_hand_seats clients r = get_in_hand_seats clients r'"
    "get_actable_seats clients r = get_actable_seats clients r'"
    by (simp_all add: get_in_hand_seats_def get_actable_seats_def)
qed (simp_all only: truncate_fields[OF assms])

lemmas broadcast_reads [simp] =
  table_reads[OF game_of_broadcast(1)[unfolded game_of_def]]
  table_reads[OF game_of_broadcast(2)[unfolded game_of_def]]
  table_reads[OF game_of_broadcast(3)[unfolded game_of_def]]
  table_reads[OF game_of_broadcast_room[unfolded game_of_def]]
  table_reads[OF game_of_emit(1)[unfolded game_of_def]]
  table_reads[OF game_of_emit(2)[unfolded game_of_def]]

subsection \<open>The best rows\<close>

lemma fold_pick_row_none:
  "fold (pick_row el) rows acc = None \<longleftrightarrow> acc = None \<and> (\<forall>row\<in>set rows. fst row \<notin> set el)"
  by (induction rows arbitrary: acc) (auto simp: pick_row_def split: option.splits)

lemma fold_pick_row_mem:
  "fold (pick_row el) rows acc = Some b \<Longrightarrow> acc = Some b \<or> b \<in> set rows \<and> fst b \<in> set el"
proof (induction rows arbitrary: acc)
  case (Cons row rows)
  then have "pick_row el row acc = Some b \<or> b \<in> set rows \<and> fst b \<in> set el" by simp
  then show ?case by (auto simp: pick_row_def split: option.splits if_splits)
qed simp

lemma fold_pick_row_max:
  assumes "\<forall>row\<in>set rows. shaped (snd row)" and "\<forall>a. acc = Some a \<longrightarrow> shaped (snd a)"
    and "fold (pick_row el) rows acc = Some b"
  shows "(\<forall>row\<in>set rows. fst row \<in> set el \<longrightarrow> strength (snd row) \<le> strength (snd b)) \<and>
         (\<forall>a. acc = Some a \<longrightarrow> strength (snd a) \<le> strength (snd b)) \<and> shaped (snd b)"
  using assms
proof (induction rows arbitrary: acc)
  case Nil
  then show ?case by (simp del: split_paired_All)
next
  case (Cons row rows)
  let ?acc = "pick_row el row acc"
  have sh: "shaped (snd row)" using Cons.prems(1) by simp
  have acc: "\<forall>a. ?acc = Some a \<longrightarrow> shaped (snd a)"
  proof (intro allI impI)
    fix a assume "?acc = Some a"
    then have "a = row \<or> acc = Some a"
      by (auto simp: pick_row_def split: option.splits if_splits)
    then show "shaped (snd a)" using sh Cons.prems(2) by blast
  qed
  have IH: "(\<forall>row\<in>set rows. fst row \<in> set el \<longrightarrow> strength (snd row) \<le> strength (snd b)) \<and>
      (\<forall>a. ?acc = Some a \<longrightarrow> strength (snd a) \<le> strength (snd b)) \<and> shaped (snd b)"
    by (rule Cons.IH[OF _ acc]) (use Cons.prems in auto)
  have grow: "\<exists>a'. ?acc = Some a' \<and> strength (snd a) \<le> strength (snd a')" if "acc = Some a" for a
    using that compare_hands_less[OF sh, of "snd a"] Cons.prems(2)
    by (auto simp: pick_row_def simp del: split_paired_Ex intro: order.strict_implies_order)
  have new: "\<exists>a'. ?acc = Some a' \<and> strength (snd row) \<le> strength (snd a')" if "fst row \<in> set el"
  proof (cases acc)
    case None
    then show ?thesis using that by (simp add: pick_row_def del: split_paired_Ex)
  next
    case (Some a)
    then show ?thesis
      using that compare_hands_le[OF sh, of "snd a"] Cons.prems(2)
      by (simp add: pick_row_def not_less del: split_paired_Ex)
  qed
  have acc_le: "strength (snd a) \<le> strength (snd b)" if "?acc = Some a" for a
    using IH that by blast
  show ?case
  proof (intro conjI ballI allI impI)
    fix x assume x: "x \<in> set (row # rows)" "fst x \<in> set el"
    show "strength (snd x) \<le> strength (snd b)"
    proof (cases "x \<in> set rows")
      case True
      then show ?thesis using IH x(2) by blast
    next
      case False
      then obtain a' where "?acc = Some a'" "strength (snd x) \<le> strength (snd a')"
        using x new by auto
      then show ?thesis using acc_le order_trans by blast
    qed
  next
    fix a assume "acc = Some a"
    then show "strength (snd a) \<le> strength (snd b)"
      using grow acc_le order_trans by blast
  qed (use IH in blast)
qed

lemma compare_hands_refl [simp]: "compare_hands h h = 0"
proof -
  have "compare_values xs xs = 0" for xs by (induction xs) simp_all
  then show ?thesis by (simp add: compare_hands_def)
qed

lemma pot_winners_nonempty:
  "best_row el evals = Some row \<Longrightarrow> pot_winners el evals (snd row) \<noteq> []"
  using fold_pick_row_mem[of el evals None row]
  by (auto simp: best_row_def pot_winners_def filter_empty_conv)

text \<open>
  C11. A pot goes to the best hands and to all of them: among the seats eligible for it, the winners
  are exactly those whose hand no other eligible hand beats, and there is at least one.
\<close>

theorem pot_goes_to_best_hands:
  assumes "\<forall>row\<in>set evals. shaped (snd row)"
    and "\<exists>row\<in>set evals. fst row \<in> set eligible"
  shows "\<exists>best. best_row eligible evals = Some best \<and>
     pot_winners eligible evals (snd best) =
       map fst (filter (\<lambda>row. fst row \<in> set eligible \<and>
          (\<forall>other\<in>set evals. fst other \<in> set eligible \<longrightarrow> compare_hands (snd other) (snd row) \<le> 0)) evals) \<and>
     pot_winners eligible evals (snd best) \<noteq> []"
proof -
  obtain best where best: "best_row eligible evals = Some best"
    using fold_pick_row_none[of eligible evals None] assms(2) by (auto simp: best_row_def)
  have mem: "best \<in> set evals" "fst best \<in> set eligible"
    using fold_pick_row_mem[of eligible evals None best] best by (simp_all add: best_row_def)
  have max: "strength (snd row) \<le> strength (snd best)" if "row \<in> set evals" "fst row \<in> set eligible" for row
    using fold_pick_row_max[OF assms(1), of None eligible best] best that by (auto simp: best_row_def)
  have "compare_hands (snd row) (snd best) = 0 \<longleftrightarrow>
      (\<forall>other\<in>set evals. fst other \<in> set eligible \<longrightarrow> compare_hands (snd other) (snd row) \<le> 0)"
    if row: "row \<in> set evals" "fst row \<in> set eligible" for row
  proof -
    have "compare_hands (snd row) (snd best) = 0 \<longleftrightarrow> strength (snd row) = strength (snd best)"
      using assms(1) row mem by (intro compare_hands_zero) auto
    also have "\<dots> \<longleftrightarrow> (\<forall>other\<in>set evals. fst other \<in> set eligible \<longrightarrow>
        strength (snd other) \<le> strength (snd row))"
      using max[OF row] max mem by (metis order.antisym)
    also have "\<dots> \<longleftrightarrow> (\<forall>other\<in>set evals. fst other \<in> set eligible \<longrightarrow>
        compare_hands (snd other) (snd row) \<le> 0)"
      using assms(1) row by (auto simp: compare_hands_le)
    finally show ?thesis .
  qed
  then have "pot_winners eligible evals (snd best) =
      map fst (filter (\<lambda>row. fst row \<in> set eligible \<and>
        (\<forall>other\<in>set evals. fst other \<in> set eligible \<longrightarrow> compare_hands (snd other) (snd row) \<le> 0)) evals)"
    unfolding pot_winners_def by (intro arg_cong[where f = "map fst"] filter_cong) auto
  then show ?thesis using best pot_winners_nonempty[OF best] by blast
qed

lemma pot_goes_to_best_hands_witness:
  "\<exists>best. best_row [2, 5] [(2, evaluate5 wheel), (3, evaluate5 wheel), (5, evaluate5 nines_up)] = Some best \<and>
     pot_winners [2, 5] [(2, evaluate5 wheel), (3, evaluate5 wheel), (5, evaluate5 nines_up)] (snd best) \<noteq> []"
proof -
  have "length wheel = 5" "length nines_up = 5" by code_simp+
  then have "\<forall>row\<in>set [(2::int, evaluate5 wheel), (3, evaluate5 wheel), (5, evaluate5 nines_up)]. shaped (snd row)"
    by (simp add: evaluate5_shaped)
  from pot_goes_to_best_hands[OF this, of "[2, 5]"] show ?thesis
    by fastforce
qed

lemma live_cong:
  assumes "seats r' = seats r" "players r' = players r" "hand_num r' = hand_num r"
  shows "get_in_hand_seats clients r' = get_in_hand_seats clients r"
    and "get_actable_seats clients r' = get_actable_seats clients r"
proof -
  have "seat_live clients r' i = seat_live clients r i" for i
    using assms by (simp add: seat_live_def seat_at_def)
  then have "in_hand clients r' = in_hand clients r" "actable clients r' = actable clients r"
    by (simp_all add: fun_eq_iff in_hand_def actable_def assms get_player_def split: option.split)
  then show "get_in_hand_seats clients r' = get_in_hand_seats clients r"
    and "get_actable_seats clients r' = get_actable_seats clients r"
    by (simp_all add: get_in_hand_seats_def get_actable_seats_def)
qed

lemma live_seats_update [simp]:
  "get_in_hand_seats clients (r\<lparr>pending_action_seats := x\<rparr>) = get_in_hand_seats clients r"
  "get_in_hand_seats clients (r\<lparr>active_seat_idx := y\<rparr>) = get_in_hand_seats clients r"
  "get_in_hand_seats clients (r\<lparr>pot := y\<rparr>) = get_in_hand_seats clients r"
  "get_in_hand_seats clients (r\<lparr>round_name := z\<rparr>) = get_in_hand_seats clients r"
  "get_actable_seats clients (r\<lparr>pending_action_seats := x\<rparr>) = get_actable_seats clients r"
  "get_actable_seats clients (r\<lparr>active_seat_idx := y\<rparr>) = get_actable_seats clients r"
  "get_actable_seats clients (r\<lparr>round_name := z\<rparr>) = get_actable_seats clients r"
  by (rule live_cong; simp)+

lemma contributors_each:
  assumes "\<And>i p. hand_contribution (f i p) = hand_contribution p" "\<And>i p. is_folded (f i p) = is_folded p"
    and "players r' = smap_each f (players r)"
  shows "contributors_of r' = contributors_of r"
proof -
  have "map (\<lambda>(i, p). \<lparr>pc_seat_idx = i, committed = hand_contribution p, showdown_eligible = (\<not> is_folded p)\<rparr>)
      (filter (\<lambda>(i, p). \<not> hand_contribution p \<le> 0) (smap_each f m)) =
    map (\<lambda>(i, p). \<lparr>pc_seat_idx = i, committed = hand_contribution p, showdown_eligible = (\<not> is_folded p)\<rparr>)
      (filter (\<lambda>(i, p). \<not> hand_contribution p \<le> 0) m)" for m
    using assms(1,2) by (induction m) (auto simp: smap_each_def)
  then show ?thesis by (simp add: contributors_of_def assms(3))
qed

lemma win_chips_live [simp]:
  "contributors_of (win_chips i a r) = contributors_of r"
  "get_in_hand_seats clients (win_chips i a r) = get_in_hand_seats clients r"
proof -
  show "contributors_of (win_chips i a r) = contributors_of r"
    by (rule contributors_each[where f = "\<lambda>j p. if j = i then p\<lparr>chips := chips p + a\<rparr> else p"])
       (simp_all add: win_chips_def smap_adjust_def)
  have "in_hand clients (win_chips i a r) = in_hand clients r"
    by (rule ext)
       (simp add: in_hand_def seat_live_def seat_at_def get_player_win_chips split: option.split)
  then show "get_in_hand_seats clients (win_chips i a r) = get_in_hand_seats clients r"
    by (simp add: get_in_hand_seats_def)
qed

lemma pay_all_live [simp]:
  "contributors_of (pay_all a ws r) = contributors_of r"
  "get_in_hand_seats clients (pay_all a ws r) = get_in_hand_seats clients r"
  by (induction ws arbitrary: r) (simp_all add: pay_all_def)

subsection \<open>Settling the pots\<close>

definition paid_in :: "EvalRow list \<Rightarrow> Pot \<Rightarrow> int" where
  "paid_in evals pt =
     (if \<exists>i\<in>set (eligible_seat_indices pt). i \<in> set (map fst evals) then pot_amount pt else 0)"

text \<open>What settling keeps: well-formedness, contributions and everything but the players.\<close>

definition settled_from :: "string set \<Rightarrow> Ctx \<Rightarrow> int \<Rightarrow> Ctx \<Rightarrow> bool" where
  "settled_from clients c x d \<longleftrightarrow>
     table_ok (rm d) \<and> table_contrib (rm d) = table_contrib (rm c) \<and>
     table_chips (rm d) = table_chips (rm c) + x \<and>
     (\<forall>i. get_player (rm d) i = None \<longleftrightarrow> get_player (rm c) i = None) \<and>
     pending_action_seats (rm d) = pending_action_seats (rm c) \<and>
     active_seat_idx (rm d) = active_seat_idx (rm c) \<and>
     contributors_of (rm d) = contributors_of (rm c) \<and>
     get_in_hand_seats clients (rm d) = get_in_hand_seats clients (rm c)"

lemma settled_from_refl: "table_ok (rm c) \<Longrightarrow> settled_from clients c 0 c"
  by (simp add: settled_from_def)

lemma settled_from_trans: "settled_from clients c x d \<Longrightarrow> settled_from clients d y e \<Longrightarrow> settled_from clients c (x + y) e"
  by (simp add: settled_from_def)

lemma pay_winners_fields:
  "get_player (fst (pay_winners a ws (r, ord))) i = None \<longleftrightarrow> get_player r i = None"
  "pending_action_seats (fst (pay_winners a ws (r, ord))) = pending_action_seats r"
  "active_seat_idx (fst (pay_winners a ws (r, ord))) = active_seat_idx r"
  "contributors_of (fst (pay_winners a ws (r, ord))) = contributors_of r"
  "get_in_hand_seats clients (fst (pay_winners a ws (r, ord))) = get_in_hand_seats clients r"
  by (simp_all add: pay_winners_eq Let_def)

lemma settle_pot_settled:
  assumes "table_ok (rm c)" and "0 \<le> pot_amount pt"
    and "\<forall>row\<in>set evals. get_player (rm c) (fst row) \<noteq> None"
  shows "settled_from clients c (paid_in evals pt) (fst (settle_pot hs evals (k, pt) (c, ord, desc)))"
proof -
  define el where "el = filter (\<lambda>i. i \<in> set (map fst evals)) (eligible_seat_indices pt)"
  show ?thesis
  proof (cases "el = []")
    case True
    then have "paid_in evals pt = 0" by (auto simp: paid_in_def filter_empty_conv el_def)
    then show ?thesis
      using settled_from_refl[OF assms(1)] True
      unfolding settle_pot_def Let_def prod.case el_def[symmetric] by simp
  next
    case False
    then have paid: "paid_in evals pt = pot_amount pt"
      by (auto simp: paid_in_def filter_empty_conv el_def)
    have "\<exists>row\<in>set evals. fst row \<in> set el"
      using False by (auto simp: filter_empty_conv el_def)
    then obtain row where row: "best_row el evals = Some row"
      using fold_pick_row_none[of el evals None] by (auto simp: best_row_def)
    define ws where "ws = pot_winners el evals (snd row)"
    define r where "r = fst (pay_winners (pot_amount pt) ws (rm c, ord))"
    have ws: "ws \<noteq> []" unfolding ws_def by (rule pot_winners_nonempty[OF row])
    have "\<forall>i\<in>set ws. get_player (rm c) i \<noteq> None"
      using assms(3) by (auto simp: ws_def pot_winners_def)
    then have "table_ok r \<and> table_contrib r = table_contrib (rm c) \<and>
        table_chips r = table_chips (rm c) + pot_amount pt"
      unfolding r_def by (intro pay_winners_sums[OF assms(1) ws assms(2)])
    moreover have "\<exists>txt d o'. settle_pot hs evals (k, pt) (c, ord, desc) =
        (broadcast_activity txt (c\<lparr>rm := r\<rparr>), o', d)"
      unfolding settle_pot_def Let_def prod.case el_def[symmetric] row option.case ws_def[symmetric]
      using False ws by (auto simp: r_def case_prod_beta)
    ultimately show ?thesis
      using pay_winners_fields[where r = "rm c" and ws = ws and a = "pot_amount pt" and ord = ord]
      by (auto simp: settled_from_def paid r_def[symmetric])
  qed
qed

lemma settle_pots_settled:
  assumes "table_ok (rm c)" and "\<forall>kp\<in>set kps. 0 \<le> pot_amount (snd kp)"
    and "\<forall>row\<in>set evals. get_player (rm c) (fst row) \<noteq> None"
  shows "settled_from clients c (\<Sum>kp\<leftarrow>kps. paid_in evals (snd kp))
           (fst (fold (settle_pot hs evals) kps (c, ord, desc)))"
  using assms
proof (induction kps arbitrary: c ord desc)
  case Nil
  then show ?case by (simp add: settled_from_refl)
next
  case (Cons kp kps)
  obtain k pt where kp: "kp = (k, pt)" by (cases kp)
  obtain c' ord' desc' where st: "settle_pot hs evals kp (c, ord, desc) = (c', ord', desc')"
    by (cases "settle_pot hs evals kp (c, ord, desc)")
  have one: "settled_from clients c (paid_in evals pt) c'"
    using settle_pot_settled[where c = c and pt = pt and evals = evals and hs = hs and k = k and ord = ord and desc = desc] Cons.prems st by (simp add: kp)
  then have "settled_from clients c' (\<Sum>kp\<leftarrow>kps. paid_in evals (snd kp))
      (fst (fold (settle_pot hs evals) kps (c', ord', desc')))"
    using Cons.prems by (intro Cons.IH) (auto simp: settled_from_def)
  then show ?case
    using settled_from_trans[OF one] by (simp add: st[unfolded kp] kp)
qed

subsection \<open>finish\_hand\<close>

lemma send_hand_over_game [simp]: "game_of (send_hand_over msg sc c) = game_of c"
  by (simp add: send_hand_over_def Let_def) (simp add: game_of_def Table.truncate_def)

lemma send_hand_over_clients [simp]: "active_clients (send_hand_over msg sc c) = active_clients c"
  by (simp add: send_hand_over_def Let_def)

lemmas send_hand_over_reads [simp] = table_reads[OF send_hand_over_game[unfolded game_of_def]]

lemma deal_community_fields [simp]:
  "players (deal_community n r) = players r" "seats (deal_community n r) = seats r"
  "dealer_seat_idx (deal_community n r) = dealer_seat_idx r" "hand_num (deal_community n r) = hand_num r"
  "pending_action_seats (deal_community n r) = pending_action_seats r"
  "active_seat_idx (deal_community n r) = active_seat_idx r"
  "pot (deal_community n r) = pot r" "initial_chips (deal_community n r) = initial_chips r"
  by (induction n r rule: deal_community.induct) simp_all

lemma run_out_board_fields [simp]:
  "players (run_out_board r) = players r" "seats (run_out_board r) = seats r"
  "dealer_seat_idx (run_out_board r) = dealer_seat_idx r"
  "get_player (run_out_board r) i = get_player r i"
  "pending_action_seats (run_out_board r) = pending_action_seats r"
  "active_seat_idx (run_out_board r) = active_seat_idx r"
  "table_ok (run_out_board r) = table_ok r" "table_chips (run_out_board r) = table_chips r"
  "table_contrib (run_out_board r) = table_contrib r"
  "contributors_of (run_out_board r) = contributors_of r"
  by (simp_all add: run_out_board_def get_player_def table_ok_def table_chips_def table_contrib_def
      contributors_of_def)

lemma run_out_board_live [simp]:
  "get_in_hand_seats clients (run_out_board r) = get_in_hand_seats clients r"
  by (rule live_cong) (simp_all add: run_out_board_def)

lemma in_hand_player: "i \<in> set (get_in_hand_seats clients r) \<Longrightarrow> get_player r i \<noteq> None"
  by (cases "get_player r i") (auto simp: get_in_hand_seats_def in_hand_def)

lemma eval_rows_seats:
  "\<forall>i\<in>set is. get_player r i \<noteq> None \<Longrightarrow> map fst (eval_rows r is) = is"
  by (induction "is") (auto simp: eval_rows_def List.map_filter_simps)

text \<open>The chips \<open>finish_hand\<close> hands out, given the seats still in the hand.\<close>

definition payout :: "string set \<Rightarrow> 'a Table_scheme \<Rightarrow> int" where
  "payout clients r =
     (let live = get_in_hand_seats clients r; pots = build_pots (contributors_of r)
      in if live = [] then 0
         else if length live = 1 then (\<Sum>pt\<leftarrow>pots. pot_amount pt)
         else (\<Sum>pt\<leftarrow>filter (\<lambda>pt. \<exists>i\<in>set (eligible_seat_indices pt). i \<in> set live) pots. pot_amount pt))"

definition hand_closed :: "'a Table_scheme \<Rightarrow> bool" where
  "hand_closed r \<longleftrightarrow>
     round_name r = phase_to_string HandOver \<and> pot r = 0 \<and> active_seat_idx r = -1 \<and>
     pending_action_seats r = {}"

lemma table_reads_room [simp]:
  "table_ok (r\<lparr>ai_timer := x\<rparr>) = table_ok r"
  "table_chips (r\<lparr>ai_timer := x\<rparr>) = table_chips r"
  "table_contrib (r\<lparr>ai_timer := x\<rparr>) = table_contrib r"
  "get_player (r\<lparr>ai_timer := x\<rparr>) i = get_player r i"
  "can_still_act (r\<lparr>ai_timer := x\<rparr>) i = can_still_act r i"
  "get_in_hand_seats clients (r\<lparr>ai_timer := x\<rparr>) = get_in_hand_seats clients r"
  "get_actable_seats clients (r\<lparr>ai_timer := x\<rparr>) = get_actable_seats clients r"
  by (rule table_reads, simp add: Table.truncate_def)+

lemma contributors_of_update [simp]:
  "contributors_of (r\<lparr>ai_timer := x, pending_action_seats := y, active_seat_idx := z\<rparr>) = contributors_of r"
  "contributors_of (r\<lparr>pot := w\<rparr>) = contributors_of r"
  "contributors_of (r\<lparr>pot := w, round_name := v\<rparr>) = contributors_of r"
  by (simp_all add: contributors_of_def)

text \<open>\<open>settled_from\<close> for the stretches of \<open>finish_hand\<close>.\<close>

lemma count_pot_settled: "table_ok (rm c) \<Longrightarrow> settled_from clients c 0 (count_pot c)"
  by (simp add: settled_from_def count_pot_def)

lemma count_pot_reads [simp]:
  "contributors_of (rm (count_pot c)) = contributors_of (rm c)"
  "get_player (rm (count_pot c)) i = get_player (rm c) i"
  by (simp_all add: count_pot_def)

lemma settle_hand_settled:
  assumes "table_ok (rm c)" and "live \<noteq> []" and "\<forall>i\<in>set live. get_player (rm c) i \<noteq> None"
    and "\<forall>pt\<in>set pots. 0 \<le> pot_amount pt"
  shows "settled_from clients c
      (if length live = 1 then (\<Sum>pt\<leftarrow>pots. pot_amount pt)
       else (\<Sum>pt\<leftarrow>filter (\<lambda>pt. \<exists>i\<in>set (eligible_seat_indices pt). i \<in> set live) pots. pot_amount pt))
      (fst (settle_hand live pots c))"
proof (cases "length live = 1")
  case True
  have "0 \<le> (\<Sum>pt\<leftarrow>pots. pot_amount pt)" using assms(4) by (intro sum_list_map_nonneg) auto
  moreover have "get_player (rm c) (hd live) \<noteq> None" using assms(2,3) by (cases live) auto
  ultimately show ?thesis
    using assms(1) True
    by (simp add: settle_hand_def settled_from_def table_ok_win_chips table_chips_win_chips
        table_contrib_win_chips get_player_win_chips Let_def)
next
  case False
  define d where "d = on_room run_out_board c"
  define evals where "evals = eval_rows (rm d) live"
  have d: "settled_from clients c 0 d" using assms(1) by (simp add: d_def settled_from_def)
  have seats: "map fst evals = live"
    unfolding evals_def using assms(3) by (intro eval_rows_seats) (simp add: d_def)
  have rows: "\<forall>row\<in>set evals. get_player (rm d) (fst row) \<noteq> None"
  proof
    fix row assume "row \<in> set evals"
    then have "fst row \<in> set live" unfolding seats[symmetric] by simp
    then show "get_player (rm d) (fst row) \<noteq> None" using assms(3) by (simp add: d_def)
  qed
  have ok: "table_ok (rm d)" using assms(1) by (simp add: d_def)
  have pos: "\<forall>kp\<in>set (zip [0..<length pots] pots). 0 \<le> pot_amount (snd kp)"
    using assms(4) by (auto dest: set_zip_rightD)
  have "(\<Sum>kp\<leftarrow>zip [0..<length pots] pots. paid_in evals (snd kp)) = (\<Sum>pt\<leftarrow>pots. paid_in evals pt)"
    by (simp add: map_snd_zip comp_def flip: list.map_comp[of "paid_in evals" snd, unfolded comp_def])
  also have "\<dots> = (\<Sum>pt\<leftarrow>filter (\<lambda>pt. \<exists>i\<in>set (eligible_seat_indices pt). i \<in> set live) pots. pot_amount pt)"
    unfolding paid_in_def seats by (rule sum_list_map_if_filter)
  finally show ?thesis
    using settled_from_trans[OF d settle_pots_settled[OF ok pos rows,
        where hs = "length pots > 1" and ord = "[]" and desc = "''All others folded''"]] False
    by (simp add: settle_hand_def Let_def d_def[symmetric] evals_def[symmetric])
qed

lemma close_hand_reads:
  "round_name (rm (close_hand t ws sc c)) = phase_to_string HandOver"
  "pot (rm (close_hand t ws sc c)) = 0"
  "active_seat_idx (rm (close_hand t ws sc c)) = active_seat_idx (rm c)"
  "pending_action_seats (rm (close_hand t ws sc c)) = pending_action_seats (rm c)"
  "table_ok (rm (close_hand t ws sc c)) = table_ok (rm c)"
  "table_chips (rm (close_hand t ws sc c)) = table_chips (rm c)"
  "table_contrib (rm (close_hand t ws sc c)) = table_contrib (rm c)"
  "get_player (rm (close_hand t ws sc c)) i = get_player (rm c) i"
  "contributors_of (rm (close_hand t ws sc c)) = contributors_of (rm c)"
  "get_in_hand_seats clients (rm (close_hand t ws sc c)) = get_in_hand_seats clients (rm c)"
  by (simp_all add: close_hand_def Let_def)

lemma finish_hand_settles:
  assumes "table_ok (rm c)"
  shows "table_ok (rm (finish_hand c)) \<and> hand_closed (rm (finish_hand c)) \<and>
     table_contrib (rm (finish_hand c)) = table_contrib (rm c) \<and>
     table_chips (rm (finish_hand c)) = table_chips (rm c) + payout (active_clients c) (rm c) \<and>
     (\<forall>i. get_player (rm (finish_hand c)) i = None \<longleftrightarrow> get_player (rm c) i = None) \<and>
     contributors_of (rm (finish_hand c)) = contributors_of (rm c) \<and>
     get_in_hand_seats clients (rm (finish_hand c)) = get_in_hand_seats clients (rm c)"
proof -
  define d where "d = close_turns c"
  define live where "live = get_in_hand_seats (active_clients c) (rm c)"
  define pots where "pots = build_pots (contributors_of (rm c))"
  have d: "table_ok (rm d)" "table_chips (rm d) = table_chips (rm c)"
    "table_contrib (rm d) = table_contrib (rm c)" "active_clients d = active_clients c"
    "contributors_of (rm d) = contributors_of (rm c)"
    "get_in_hand_seats (active_clients c) (rm d) = live"
    "\<And>i. get_player (rm d) i = get_player (rm c) i"
    "active_seat_idx (rm d) = -1" "pending_action_seats (rm d) = {}"
    "get_in_hand_seats clients (rm d) = get_in_hand_seats clients (rm c)"
    using assms by (simp_all add: d_def close_turns_def live_def contributors_of_def)
  show ?thesis
  proof (cases "live = []")
    case True
    then have "payout (active_clients c) (rm c) = 0" by (simp add: payout_def live_def)
    then show ?thesis
      using True d by (simp add: finish_hand_def Let_def d_def[symmetric] hand_closed_def close_hand_reads)
  next
    case False
    define s where "s = settle_hand live pots (count_pot d)"
    have pay: "payout (active_clients c) (rm c) =
      (if length live = 1 then (\<Sum>pt\<leftarrow>pots. pot_amount pt)
       else (\<Sum>pt\<leftarrow>filter (\<lambda>pt. \<exists>i\<in>set (eligible_seat_indices pt). i \<in> set live) pots. pot_amount pt))"
      using False by (simp add: payout_def live_def pots_def Let_def)
    have "\<forall>i\<in>set live. get_player (rm (count_pot d)) i \<noteq> None"
      using in_hand_player by (simp add: live_def d) blast
    moreover have "\<forall>pt\<in>set pots. 0 \<le> pot_amount pt"
      using build_pots_mem by (fastforce simp: pots_def)
    moreover have "table_ok (rm (count_pot d))"
      using count_pot_settled[OF d(1)] by (simp add: settled_from_def)
    ultimately have "settled_from clients (count_pot d) (payout (active_clients c) (rm c)) (fst s)"
      unfolding s_def pay using False by (intro settle_hand_settled) auto
    from settled_from_trans[OF count_pot_settled[OF d(1)] this]
    have st: "settled_from clients d (payout (active_clients c) (rm c)) (fst s)" by simp
    obtain e ord desc where s: "s = (e, ord, desc)" by (cases s)
    then have "finish_hand c = close_hand desc ord (showdown_cards_of (rm d) live) (fst s)"
      using False d
      by (simp add: finish_hand_def Let_def d_def[symmetric] s[unfolded s_def pots_def])
    then show ?thesis
      using st d by (simp add: settled_from_def hand_closed_def close_hand_reads)
  qed
qed

text \<open>The chips of the pots no seat still in the hand can win.\<close>

definition orphaned_chips :: "string set \<Rightarrow> 'a Table_scheme \<Rightarrow> int" where
  "orphaned_chips clients r =
     (let live = get_in_hand_seats clients r; pots = build_pots (contributors_of r)
      in if length live = 1 then 0
         else (\<Sum>pt\<leftarrow>filter (\<lambda>pt. \<not> (\<exists>i\<in>set (eligible_seat_indices pt). i \<in> set live)) pots.
                 pot_amount pt))"

lemma sum_committed:
  "(\<Sum>e\<leftarrow>filter (\<lambda>e. \<not> hand_contribution (snd e) \<le> 0) m. hand_contribution (snd e)) =
   (\<Sum>x\<leftarrow>map (\<lambda>(i, p). \<lparr>pc_seat_idx = i, committed = hand_contribution p,
                          showdown_eligible = (\<not> is_folded p)\<rparr>)
            (filter (\<lambda>(i, p). \<not> hand_contribution p \<le> 0) m). max 0 (committed x))"
  by (induction m) (auto simp: case_prod_beta)

lemma contributions_total:
  assumes "table_ok r"
  shows "(\<Sum>pt\<leftarrow>build_pots (contributors_of r). pot_amount pt) = table_contrib r"
proof -
  have "0 \<le> hand_contribution p" if "(i, p) \<in> set (players r)" for i p
    using that assms by (force simp: table_ok_def player_ok_def smap_vals_def)
  then have "(\<Sum>e\<leftarrow>players r. hand_contribution (snd e)) =
      (\<Sum>e\<leftarrow>players r. if \<not> hand_contribution (snd e) \<le> 0 then hand_contribution (snd e) else 0)"
    by (intro arg_cong[where f = sum_list] map_cong) (auto intro: order.antisym)
  also have "\<dots> = (\<Sum>e\<leftarrow>filter (\<lambda>e. \<not> hand_contribution (snd e) \<le> 0) (players r). hand_contribution (snd e))"
    by (rule sum_list_map_if_filter)
  also have "\<dots> = (\<Sum>x\<leftarrow>contributors_of r. max 0 (committed x))"
    by (simp only: contributors_of_def sum_committed)
  finally show ?thesis
    by (simp add: build_pots_total table_contrib_def smap_sum_def)
qed

lemma payout_orphaned:
  assumes "table_ok r"
  shows "payout clients r + orphaned_chips clients r = table_contrib r"
proof -
  define pots where "pots = build_pots (contributors_of r)"
  have "(\<Sum>pt\<leftarrow>filter P pots. pot_amount pt) + (\<Sum>pt\<leftarrow>filter (\<lambda>pt. \<not> P pt) pots. pot_amount pt) =
      (\<Sum>pt\<leftarrow>pots. pot_amount pt)" for P
    by (induction pots) auto
  from this[of "\<lambda>pt. \<exists>i\<in>set (eligible_seat_indices pt). i \<in> set (get_in_hand_seats clients r)"]
  show ?thesis
    using contributions_total[OF assms]
    by (auto simp: payout_def orphaned_chips_def Let_def pots_def)
qed

text \<open>
  C3. Where the chips of a hand go. Closing a hand leaves the table well formed with the hand marked
  over and nobody to act, and every chip bet ends in a stack except the pots that no seat still in
  the hand is eligible for, whose chips leave the match.
\<close>

theorem finish_hand_accounting:
  assumes "table_ok (rm c)"
  shows "let r = rm c; r' = rm (finish_hand c) in
     table_ok r' \<and> hand_closed r' \<and>
     table_chips r' + orphaned_chips (active_clients c) r = table_chips r + table_contrib r"
  using finish_hand_settles[OF assms] payout_orphaned[OF assms, of "active_clients c"]
  by (simp add: Let_def)

text \<open>
  C13. No chip is lost when every bet is covered: if each contribution is matched by a player still in
  the hand, closing the hand returns exactly the chips that were bet to the stacks.
\<close>

theorem finish_hand_conserves_chips:
  assumes "table_ok (rm c)"
    and "\<forall>(i, p)\<in>set (players (rm c)). hand_contribution p > 0 \<longrightarrow>
           (\<exists>j\<in>set (get_in_hand_seats (active_clients c) (rm c)). \<exists>q.
              get_player (rm c) j = Some q \<and> hand_contribution p \<le> hand_contribution q)"
  shows "table_chips (rm (finish_hand c)) = table_chips (rm c) + table_contrib (rm c)"
proof -
  let ?live = "get_in_hand_seats (active_clients c) (rm c)"
  have "\<exists>j\<in>set (eligible_seat_indices pt). j \<in> set ?live"
    if pt: "pt \<in> set (build_pots (contributors_of (rm c)))" for pt
  proof -
    have cap: "0 < pot_cap pt" "0 < pot_amount pt"
      "eligible_seat_indices pt = pot_eligible (pot_cap pt) (contributors_of (rm c))"
      using build_pots_mem[OF pt] by auto
    have "pot_cap pt \<in> set (pot_caps (contributors_of (rm c)))"
      using pt build_pots_loop_mem[of pt] by (auto simp: build_pots_def)
    then obtain i p where p: "(i, p) \<in> set (players (rm c))" "hand_contribution p = pot_cap pt"
      by (auto simp: set_pot_caps contributors_of_def)
    then obtain j q where j: "j \<in> set ?live" "get_player (rm c) j = Some q" "pot_cap pt \<le> hand_contribution q"
      using assms(2) cap(1) by fastforce
    then have "\<not> is_folded q" by (simp add: get_in_hand_seats_def in_hand_def)
    then have "j \<in> set (pot_eligible (pot_cap pt) (contributors_of (rm c)))"
      using j(3) cap(1) get_player_mem[OF j(2)]
      by (force simp: pot_eligible_def pot_reached_def contributors_of_def)
    then show ?thesis using j(1) cap(3) by auto
  qed
  then have "filter (\<lambda>pt. \<not> (\<exists>i\<in>set (eligible_seat_indices pt). i \<in> set ?live))
      (build_pots (contributors_of (rm c))) = []"
    by (auto simp: filter_empty_conv)
  then have "orphaned_chips (active_clients c) (rm c) = 0"
    by (simp add: orphaned_chips_def Let_def)
  then show ?thesis
    using finish_hand_settles[OF assms(1)] payout_orphaned[OF assms(1), of "active_clients c"]
    by simp
qed

text \<open>
  A table for the witnesses: the player of seat 1 put in 500 and lost the connection, the AI players
  of seats 4 and 7 are all-in for 200.
\<close>

definition bettor :: "int \<Rightarrow> int \<Rightarrow> int \<Rightarrow> PlayerState" where
  "bettor i c bet = default_player\<lparr>p_seat_idx := i, chips := c, current_bet := bet, hand_contribution := bet\<rparr>"

definition demo_ctx :: "string set \<Rightarrow> int \<Rightarrow> Ctx" where
  "demo_ctx clients bet =
     \<lparr>now = 0, snapshots_on = False, gateway_attached = True, active_clients = clients,
      sessions = Map.empty, gameplay_sessions = Map.empty, snapshot_timers = {},
      auth_usernames = Map.empty, cached_users = Map.empty, recorded_matches = [],
      pending_match_rooms = Map.empty, outbox = [],
      rm = demo_room\<lparr>players := [(1, bettor 1 500 bet), (4, bettor 4 0 200), (7, bettor 7 0 200)],
                     round_name := phase_to_string River\<rparr>\<rparr>"

lemma demo_ctx_reads [simp]:
  "active_clients (demo_ctx clients bet) = clients"
  "rm (demo_ctx clients bet) =
     demo_room\<lparr>players := [(1, bettor 1 500 bet), (4, bettor 4 0 200), (7, bettor 7 0 200)],
               round_name := phase_to_string River\<rparr>"
  by (simp_all add: demo_ctx_def)

lemma finish_hand_accounting_witness:
  "table_chips (rm (finish_hand (demo_ctx {} 500))) = 1100 \<and>
   table_chips (rm (demo_ctx {} 500)) + table_contrib (rm (demo_ctx {} 500)) = 1400"
proof -
  have ok: "table_ok (rm (demo_ctx {} 500))" by code_simp
  have sums: "orphaned_chips {} (rm (demo_ctx {} 500)) = 300" "table_chips (rm (demo_ctx {} 500)) = 500"
    "table_contrib (rm (demo_ctx {} 500)) = 900"
    by code_simp+
  then show ?thesis
    using finish_hand_accounting[OF ok] by (simp add: Let_def)
qed

lemma finish_hand_conserves_chips_witness:
  "table_chips (rm (finish_hand (demo_ctx {''a''} 200))) = 1100"
proof -
  let ?c = "demo_ctx {''a''} 200"
  have ok: "table_ok (rm ?c)" by code_simp
  have live: "get_in_hand_seats (active_clients ?c) (rm ?c) = [1, 4, 7]" by code_simp
  have pl: "players (rm ?c) = [(1, bettor 1 500 200), (4, bettor 4 0 200), (7, bettor 7 0 200)]" by simp
  have sums: "table_chips (rm ?c) = 500" "table_contrib (rm ?c) = 600" by code_simp+
  have "hand_contribution (bettor i x 200) = 200" for i x by (simp add: bettor_def)
  then have "\<forall>(i, p)\<in>set (players (rm ?c)). hand_contribution p > 0 \<longrightarrow>
      (\<exists>j\<in>set (get_in_hand_seats (active_clients ?c) (rm ?c)). \<exists>q.
         get_player (rm ?c) j = Some q \<and> hand_contribution p \<le> hand_contribution q)"
    unfolding live pl get_player_def by simp
  from finish_hand_conserves_chips[OF ok this] sums show ?thesis by simp
qed

end
