(* ===== verification/Turns.thy ===== *)
theory Turns
  imports Accounting
begin

section \<open>Every street ends with a turn or a finished hand\<close>

text \<open>
  Play moves on: \<open>request_turn\<close> either asks a player who can act or deals the next street or ends the hand, and
  the streets that follow each other are counted by a measure.
\<close>

subsection \<open>Money and streets\<close>

text \<open>The two contexts agree on what \<open>finish_hand\<close> would pay.\<close>

definition same_money :: "Ctx \<Rightarrow> Ctx \<Rightarrow> bool" where
  "same_money c d \<longleftrightarrow>
     active_clients d = active_clients c \<and> table_ok (rm d) = table_ok (rm c) \<and>
     table_chips (rm d) = table_chips (rm c) \<and> table_contrib (rm d) = table_contrib (rm c) \<and>
     get_in_hand_seats (active_clients c) (rm d) = get_in_hand_seats (active_clients c) (rm c) \<and>
     contributors_of (rm d) = contributors_of (rm c)"

lemma same_money_refl [simp]: "same_money c c"
  by (simp add: same_money_def)

lemma same_money_trans: "same_money c d \<Longrightarrow> same_money d e \<Longrightarrow> same_money c e"
  by (simp add: same_money_def)

lemma same_money_orphaned:
  "same_money c d \<Longrightarrow> orphaned_chips (active_clients d) (rm d) = orphaned_chips (active_clients c) (rm c)"
  by (simp add: same_money_def orphaned_chips_def)

lemma same_money_room:
  assumes "active_clients d = active_clients c" "players (rm d) = players (rm c)"
    "seats (rm d) = seats (rm c)" "hand_num (rm d) = hand_num (rm c)"
    "dealer_seat_idx (rm d) = dealer_seat_idx (rm c)" "initial_chips (rm d) = initial_chips (rm c)"
  shows "same_money c d"
  using assms live_cong(1)[of "rm d" "rm c"]
  by (simp add: same_money_def table_ok_def table_chips_def table_contrib_def contributors_of_def)

lemma same_money_broadcast [simp]: "same_money c (broadcast_game c)"
  by (rule same_money_room) simp_all

lemma clear_street_bets_money:
  "table_ok r \<Longrightarrow> table_ok (clear_street_bets r)"
  "table_chips (clear_street_bets r) = table_chips r"
  "table_contrib (clear_street_bets r) = table_contrib r"
  "contributors_of (clear_street_bets r) = contributors_of r"
  "get_in_hand_seats clients (clear_street_bets r) = get_in_hand_seats clients r"
proof -
  show "table_ok r \<Longrightarrow> table_ok (clear_street_bets r)"
    by (rule table_ok_each[of r _ "clear_street_bets r"])
      (auto simp: clear_street_bets_def player_ok_def)
  show "table_chips (clear_street_bets r) = table_chips r"
    "table_contrib (clear_street_bets r) = table_contrib r"
    by (simp_all add: clear_street_bets_def table_chips_def table_contrib_def smap_sum_each)
      (simp_all add: smap_sum_def)
  show "contributors_of (clear_street_bets r) = contributors_of r"
    unfolding contributors_of_def clear_street_bets_def smap_each_def
    by (simp add: filter_map comp_def case_prod_beta')
  have "in_hand clients (clear_street_bets r) = in_hand clients r"
    by (rule ext)
       (simp add: in_hand_def seat_live_def seat_at_def clear_street_bets_def get_player_def
         smap_get_each split: option.split)
  then show "get_in_hand_seats clients (clear_street_bets r) = get_in_hand_seats clients r"
    by (simp add: get_in_hand_seats_def)
qed

lemma open_next_street_shape:
  "\<exists>n p. open_next_street r = deal_community n ((clear_street_bets r)\<lparr>round_name := p\<rparr>)"
proof -
  define ph where "ph = round_phase_from_string (round_name (clear_street_bets r))"
  have "open_next_street r =
      deal_community (if ph = PreFlop then 3 else if ph = Flop then 1 else if ph = Turn then 1 else 0)
        ((clear_street_bets r)\<lparr>round_name := phase_to_string
           (if ph = PreFlop then Flop else if ph = Flop then Turn else if ph = Turn then River else Showdown)\<rparr>)"
    by (simp add: open_next_street_def Let_def ph_def del: phase_to_string.simps)
  then show ?thesis by blast
qed

lemma same_money_open_next_street:
  assumes "table_ok (rm c)"
  shows "same_money c (on_room open_next_street c)"
proof -
  obtain n p where eq: "open_next_street (rm c) = deal_community n ((clear_street_bets (rm c))\<lparr>round_name := p\<rparr>)"
    using open_next_street_shape by blast
  have "same_money (on_room clear_street_bets c) (on_room open_next_street c)"
    by (rule same_money_room) (simp_all add: eq)
  moreover have "same_money c (on_room clear_street_bets c)"
    using assms by (simp add: same_money_def clear_street_bets_money)
  ultimately show ?thesis using same_money_trans by blast
qed

subsection \<open>Whose turn it is\<close>

lemma pass_turn_fields [simp]:
  "players (pass_turn i r) = players r" "seats (pass_turn i r) = seats r"
  "hand_num (pass_turn i r) = hand_num r" "dealer_seat_idx (pass_turn i r) = dealer_seat_idx r"
  "pending_action_seats (pass_turn i r) = {j \<in> pending_action_seats r. can_still_act r j}"
  "can_still_act (pass_turn i r) j = can_still_act r j"
  "turn_nonce (pass_turn i r) = turn_nonce r" "initial_chips (pass_turn i r) = initial_chips r"
  by (simp_all add: pass_turn_def choose_next_actor_eq can_still_act_def remove_ineligible_from_pending_def)

lemma can_still_act_update [simp]:
  "can_still_act (remove_ineligible_from_pending r) i = can_still_act r i"
  "can_still_act (r\<lparr>active_seat_idx := x\<rparr>) i = can_still_act r i"
  by (simp_all add: can_still_act_def)

lemma settle_active_fields [simp]:
  "players (settle_active r) = players r" "seats (settle_active r) = seats r"
  "hand_num (settle_active r) = hand_num r" "dealer_seat_idx (settle_active r) = dealer_seat_idx r"
  "initial_chips (settle_active r) = initial_chips r"
  "can_still_act (settle_active r) j = can_still_act r j"
  "pending_action_seats (settle_active r) = {j \<in> pending_action_seats r. can_still_act r j}"
proof -
  show "players (settle_active r) = players r" "seats (settle_active r) = seats r"
    "hand_num (settle_active r) = hand_num r" "dealer_seat_idx (settle_active r) = dealer_seat_idx r"
    "initial_chips (settle_active r) = initial_chips r"
    "can_still_act (settle_active r) j = can_still_act r j"
    by (simp_all add: settle_active_def Let_def) (simp_all add: remove_ineligible_from_pending_def)
  show "pending_action_seats (settle_active r) = {j \<in> pending_action_seats r. can_still_act r j}"
    by (auto simp: settle_active_def Let_def)
qed

lemma pass_turn_active:
  assumes "table_ok r"
  shows "if {j \<in> pending_action_seats r. can_still_act r j} = {} then active_seat_idx (pass_turn i r) = -1
         else active_seat_idx (pass_turn i r) \<in> {j \<in> pending_action_seats r. can_still_act r j}"
proof -
  define S where "S = {j \<in> pending_action_seats r. can_still_act r j}"
  have "next_seat_clockwise i (\<lambda>j. j \<in> S) \<in> S" if "S \<noteq> {}"
  proof -
    have "\<not> (\<forall>j. 0 \<le> j \<and> j < kSeats \<longrightarrow> j \<notin> S)"
      using that can_still_act_seat[OF assms] by (auto simp: S_def)
    then show ?thesis using next_seat_clockwise_cases[of i "\<lambda>j. j \<in> S"] by blast
  qed
  then show ?thesis
    by (simp add: pass_turn_def choose_next_actor_eq S_def[symmetric])
qed

lemma settle_active_active:
  assumes "table_ok r"
  shows "if {j \<in> pending_action_seats r. can_still_act r j} = {} then active_seat_idx (settle_active r) < 0
         else active_seat_idx (settle_active r) \<in> {j \<in> pending_action_seats r. can_still_act r j}"
proof -
  define S where "S = {j \<in> pending_action_seats r. can_still_act r j}"
  define q where "q = remove_ineligible_from_pending r"
  have set: "{j \<in> pending_action_seats q. can_still_act q j} = S" "pending_action_seats q = S"
    by (auto simp: q_def S_def)
  have pt: "if S = {} then active_seat_idx (pass_turn i q) = -1 else active_seat_idx (pass_turn i q) \<in> S" for i
  proof -
    have "table_ok q" using assms by (simp add: q_def)
    then show ?thesis by (rule pass_turn_active[of q, unfolded set(1)])
  qed
  have "(\<exists>i. settle_active r = pass_turn i q) \<or> settle_active r = q \<and> active_seat_idx q \<in> S"
    unfolding settle_active_def Let_def q_def[symmetric] set by auto
  then show ?thesis
  proof
    assume "\<exists>i. settle_active r = pass_turn i q"
    then obtain i where "settle_active r = pass_turn i q" by blast
    then show ?thesis using pt[of i] unfolding S_def[symmetric] by (simp split: if_splits)
  next
    assume *: "settle_active r = q \<and> active_seat_idx q \<in> S"
    then show ?thesis unfolding S_def[symmetric] by auto
  qed
qed

subsection \<open>The outcome\<close>

text \<open>The seat to act has been told: an AI timer runs for it, or the last event names it.\<close>

definition turn_offered :: "Ctx \<Rightarrow> bool" where
  "turn_offered c \<longleftrightarrow>
     (let i = active_seat_idx (rm c)
      in i \<in> pending_action_seats (rm c) \<and> can_still_act (rm c) i \<and>
         (if ai_controls (active_clients c) (rm c) i then ai_timer (rm c) = Some i
          else event_log (rm c) \<noteq> [] \<and>
               ev_envelope (last (event_log (rm c))) = (''turn'', TurnMessage i (turn_nonce (rm c)))))"

definition turn_outcome :: "Ctx \<Rightarrow> Ctx \<Rightarrow> bool" where
  "turn_outcome c d \<longleftrightarrow>
     table_ok (rm d) \<and> table_contrib (rm d) = table_contrib (rm c) \<and>
     orphaned_chips (active_clients c) (rm d) = orphaned_chips (active_clients c) (rm c) \<and>
     (turn_offered d \<and> table_chips (rm d) = table_chips (rm c) \<or>
      hand_closed (rm d) \<and>
      table_chips (rm d) + orphaned_chips (active_clients c) (rm c) = table_chips (rm c) + table_contrib (rm c))"

lemma turn_outcome_trans: "same_money c c' \<Longrightarrow> turn_outcome c' d \<Longrightarrow> turn_outcome c d"
  using same_money_orphaned[of c c'] by (auto simp: turn_outcome_def same_money_def)

lemma finish_hand_outcome: "table_ok (rm c) \<Longrightarrow> turn_outcome c (finish_hand c)"
  using finish_hand_settles[of c] payout_orphaned[of "rm c" "active_clients c"]
  by (simp add: turn_outcome_def orphaned_chips_def)

lemma append_room_event_last:
  "event_log (append_room_event t env i r) \<noteq> [] \<and>
   ev_envelope (last (event_log (append_room_event t env i r))) = env"
  by (simp add: append_room_event_def Let_def trim_event_log_def kRoomEventLogLimit_def last_drop)

lemma ai_controls_reads:
  "seats r = seats r' \<Longrightarrow> ai_controls clients r i = ai_controls clients r' i"
  by (simp add: ai_controls_def seat_at_def)

lemma turn_nonce_broadcast [simp]: "turn_nonce (rm (broadcast_game c)) = turn_nonce (rm c)"
  by (rule truncate_fields(19)[OF game_of_broadcast(1)[unfolded game_of_def]])

lemma announce_turn_outcome:
  assumes "table_ok (rm c)" and "active_seat_idx (rm c) \<in> pending_action_seats (rm c)"
    and "can_still_act (rm c) (active_seat_idx (rm c))"
  shows "turn_outcome c (announce_turn c)"
proof -
  define b where "b = broadcast_game c"
  define i where "i = active_seat_idx (rm c)"
  have b: "table_ok (rm b)" "table_chips (rm b) = table_chips (rm c)"
    "table_contrib (rm b) = table_contrib (rm c)" "active_seat_idx (rm b) = i"
    "pending_action_seats (rm b) = pending_action_seats (rm c)" "can_still_act (rm b) i"
    "active_clients b = active_clients c"
    "orphaned_chips (active_clients c) (rm b) = orphaned_chips (active_clients c) (rm c)"
    using assms by (simp_all add: b_def i_def orphaned_chips_def)
  show ?thesis
  proof (cases "ai_controls (active_clients b) (rm b) i")
    case True
    then have eq: "announce_turn c = on_room (\<lambda>r. r\<lparr>ai_timer := Some i\<rparr>) b"
      by (simp add: announce_turn_def Let_def b_def[symmetric] b)
    have "ai_controls (active_clients b) ((rm b)\<lparr>ai_timer := Some i\<rparr>) i"
      using True ai_controls_reads[of "rm b" "(rm b)\<lparr>ai_timer := Some i\<rparr>"] by simp
    moreover have "orphaned_chips (active_clients c) ((rm b)\<lparr>ai_timer := Some i\<rparr>) =
        orphaned_chips (active_clients c) (rm b)"
      by (simp add: orphaned_chips_def contributors_of_def)
    ultimately show ?thesis
      using b assms(2) by (simp add: eq turn_outcome_def turn_offered_def i_def)
  next
    case False
    define d where "d = emit_room_event ''turn'' (TurnMessage i (turn_nonce (rm b))) b"
    have eq: "announce_turn c = d"
      using False by (simp add: announce_turn_def Let_def b_def[symmetric] b d_def)
    have "\<not> ai_controls (active_clients b) (rm d) i"
      using False ai_controls_reads[of "rm b" "rm d"] by (simp add: d_def)
    moreover have "turn_nonce (rm d) = turn_nonce (rm b)"
      unfolding d_def by (rule truncate_fields(19)[OF game_of_emit(1)[unfolded game_of_def]])
    moreover have "event_log (rm d) \<noteq> [] \<and>
        ev_envelope (last (event_log (rm d))) = (''turn'', TurnMessage i (turn_nonce (rm b)))"
      unfolding d_def rm_emit_room_event logged_def using append_room_event_last by simp
    moreover have "orphaned_chips (active_clients c) (rm d) = orphaned_chips (active_clients c) (rm b)"
      by (simp add: orphaned_chips_def d_def)
    ultimately show ?thesis
      using b assms(2)
      by (simp add: eq turn_outcome_def turn_offered_def i_def) (simp add: d_def i_def)
  qed
qed

lemma proceed_and_request_outcome:
  "table_ok (rm c) \<Longrightarrow> turn_outcome c (proceed_to_next_street c)"
  "table_ok (rm c') \<Longrightarrow> turn_outcome c' (request_turn c')"
proof (induction c and c' rule: proceed_to_next_street_request_turn.induct)
  case (1 c)
  define d where "d = on_room open_next_street c"
  have d: "same_money c d" using same_money_open_next_street[OF 1(2)] by (simp add: d_def)
  then have ok: "table_ok (rm d)" using 1(2) by (simp add: same_money_def)
  show ?case
  proof (cases "round_phase_from_string (round_name (rm d)) = Showdown")
    case True
    then show ?thesis
      using turn_outcome_trans[OF d finish_hand_outcome[OF ok]]
      by (simp add: proceed_to_next_street.simps Let_def d_def)
  next
    case False
    define first where "first = get_active_offset (active_clients d) (rm d) (dealer_seat_idx (rm d)) 1"
    define e where "e = broadcast_game (on_room (init_pending_action (active_clients d) first) d)"
    have "same_money d (on_room (init_pending_action (active_clients d) first) d)"
      by (rule same_money_room) (simp_all add: init_pending_action_def)
    then have de: "same_money d e"
      unfolding e_def using same_money_broadcast same_money_trans by blast
    then have "table_ok (rm e)" using ok by (simp add: same_money_def)
    then have "turn_outcome e (request_turn e)"
      using 1(1)[OF d_def False first_def refl] by (simp add: e_def)
    moreover have "proceed_to_next_street c = request_turn e"
      using False by (simp add: proceed_to_next_street.simps Let_def d_def e_def first_def)
    ultimately show ?thesis
      using turn_outcome_trans[OF same_money_trans[OF d de]] by simp
  qed
next
  case (2 c)
  define d where "d = on_room (\<lambda>r. r\<lparr>ai_timer := None\<rparr>) c"
  have d: "same_money c d" unfolding d_def by (rule same_money_room) simp_all
  then have ok: "table_ok (rm d)" using 2(2) by (simp add: same_money_def)
  show ?case
  proof (cases "length (get_in_hand_seats (active_clients d) (rm d)) \<le> 1")
    case True
    then show ?thesis
      using turn_outcome_trans[OF d finish_hand_outcome[OF ok]]
      by (simp add: request_turn.simps Let_def d_def)
  next
    case many: False
    show ?thesis
    proof (cases "get_actable_seats (active_clients d) (rm d) = []")
      case True
      define e where "e = on_room (\<lambda>r. r\<lparr>round_name := phase_to_string Showdown\<rparr>) d"
      have e: "same_money d e" unfolding e_def by (rule same_money_room) simp_all
      then have "table_ok (rm e)" using ok by (simp add: same_money_def)
      then have "turn_outcome c (finish_hand e)"
        using turn_outcome_trans[OF same_money_trans[OF d e]] finish_hand_outcome by blast
      moreover have "request_turn c = finish_hand e"
        using many True unfolding request_turn.simps[of c] Let_def d_def[symmetric] e_def by simp
      ultimately show ?thesis by simp
    next
      case False
      define e where "e = on_room settle_active d"
      have e: "same_money d e" unfolding e_def by (rule same_money_room) simp_all
      then have ok_e: "table_ok (rm e)" using ok by (simp add: same_money_def)
      note ce = same_money_trans[OF d e]
      have eq: "request_turn c =
          (if active_seat_idx (rm e) < 0 then proceed_to_next_street e else announce_turn e)"
        using many False unfolding request_turn.simps[of c] Let_def d_def[symmetric] e_def by simp
      show ?thesis
      proof (cases "active_seat_idx (rm e) < 0")
        case True
        then have "turn_outcome e (proceed_to_next_street e)"
          using 2(1)[OF d_def many False e_def _ ok_e] by simp
        then show ?thesis using turn_outcome_trans[OF ce] True by (simp add: eq)
      next
        case act: False
        have "active_seat_idx (rm e) \<in> pending_action_seats (rm e) \<and> can_still_act (rm e) (active_seat_idx (rm e))"
          using settle_active_active[OF ok] act by (auto simp: e_def split: if_splits)
        then have "turn_outcome e (announce_turn e)"
          using announce_turn_outcome[OF ok_e] by blast
        then show ?thesis using turn_outcome_trans[OF ce] act by (simp add: eq)
      qed
    qed
  qed
qed

text \<open>
  C6. The game never stalls and never leaks chips between streets. Asking for a turn ends, with the
  table well formed, in one of two ways: a seat that owes an action and can take it is active and has
  been told (an AI timer is armed for it or its \<open>turn\<close> event is the last of the log) and no chip
  moved; or the hand is closed and every bet is paid out except the pots nobody can win.
\<close>

theorem request_turn_progress:
  assumes "table_ok (rm c)"
  shows "let d = request_turn c in
     table_ok (rm d) \<and> table_contrib (rm d) = table_contrib (rm c) \<and>
     (turn_offered d \<and> table_chips (rm d) = table_chips (rm c) \<or>
      hand_closed (rm d) \<and>
      table_chips (rm d) + orphaned_chips (active_clients c) (rm c) = table_chips (rm c) + table_contrib (rm c))"
  using proceed_and_request_outcome(2)[OF assms] by (simp add: turn_outcome_def Let_def)

lemma request_turn_progress_witness:
  "let d = request_turn (demo_ctx {''a''} 200) in
     table_ok (rm d) \<and> (turn_offered d \<or> hand_closed (rm d) \<and> table_chips (rm d) = 1100)"
proof -
  have ok: "table_ok (rm (demo_ctx {''a''} 200))" by code_simp
  have sums: "orphaned_chips {''a''} (rm (demo_ctx {''a''} 200)) = 0"
    "table_chips (rm (demo_ctx {''a''} 200)) = 500" "table_contrib (rm (demo_ctx {''a''} 200)) = 600"
    by code_simp+
  show ?thesis
    using request_turn_progress[OF ok] sums by (auto simp: Let_def)
qed

end
