(* ===== verification/Text_Utils.thy ===== *)
theory Text_Utils
  imports Prelude "HOL-Library.Char_ord"
begin

section \<open>Text helpers (main.cpp)\<close>

text \<open>
  Trimming, ASCII case, the name checks, JSON escaping, URL decoding and the form and cookie parsers.
  A \<open>char\<close> is a byte; the \<open>ctype\<close> functions are those of the "C" locale, which the program never
  changes.
\<close>

abbreviation byte :: "char \<Rightarrow> nat" where
  "byte c \<equiv> of_char c"

subsection \<open>The character classes of the C locale\<close>

definition isspace :: "char \<Rightarrow> bool" where
  "isspace c \<longleftrightarrow> byte c = 32 \<or> (9 \<le> byte c \<and> byte c \<le> 13)"

definition is_upper :: "char \<Rightarrow> bool" where
  "is_upper c \<longleftrightarrow> 65 \<le> byte c \<and> byte c \<le> 90"

definition is_lower :: "char \<Rightarrow> bool" where
  "is_lower c \<longleftrightarrow> 97 \<le> byte c \<and> byte c \<le> 122"

definition is_digit :: "char \<Rightarrow> bool" where
  "is_digit c \<longleftrightarrow> 48 \<le> byte c \<and> byte c \<le> 57"

definition tolower :: "char \<Rightarrow> char" where
  "tolower c = (if is_upper c then char_of (byte c + 32) else c)"

definition toupper :: "char \<Rightarrow> char" where
  "toupper c = (if is_lower c then char_of (byte c - 32) else c)"

subsection \<open>Normalised names\<close>

definition trim_copy :: "string \<Rightarrow> string" where
  "trim_copy s = rev (dropWhile isspace (rev (dropWhile isspace s)))"

definition to_lower_ascii :: "string \<Rightarrow> string" where
  "to_lower_ascii s = map tolower s"

definition to_upper_ascii :: "string \<Rightarrow> string" where
  "to_upper_ascii s = map toupper s"

definition normalize_username :: "string \<Rightarrow> string" where
  "normalize_username s = to_lower_ascii (trim_copy s)"

definition normalize_display_name :: "string \<Rightarrow> string" where
  "normalize_display_name s = trim_copy s"

definition normalize_action_name :: "string \<Rightarrow> string" where
  "normalize_action_name s = to_lower_ascii (trim_copy s)"

definition to_upper_room_code :: "string \<Rightarrow> string" where
  "to_upper_room_code s = to_upper_ascii (trim_copy s)"

definition username_char :: "char \<Rightarrow> bool" where
  "username_char c \<longleftrightarrow> is_upper c \<or> is_lower c \<or> is_digit c \<or> c = CHR ''_'' \<or> c = CHR ''-''"

definition is_valid_username :: "string \<Rightarrow> bool" where
  "is_valid_username s =
     (if length s < 3 \<or> length s > 24 then False else list_all username_char s)"

definition is_valid_display_name :: "string \<Rightarrow> bool" where
  "is_valid_display_name s =
     (if s = [] \<or> length s > 48 then False else list_all (\<lambda>c. byte c \<ge> 32 \<and> byte c \<noteq> 127) s)"

subsection \<open>JSON escaping\<close>

definition hex_digit :: "nat \<Rightarrow> char" where
  "hex_digit d = (if d < 10 then char_of (48 + d) else char_of (87 + d))"

definition escape_json_char :: "char \<Rightarrow> string" where
  "escape_json_char c =
     (let n = byte c; bs = char_of (92::nat)
      in if n = 34 then [bs, c]
         else if n = 92 then [bs, bs]
         else if n = 8 then [bs, CHR ''b'']
         else if n = 12 then [bs, CHR ''f'']
         else if n = 10 then [bs, CHR ''n'']
         else if n = 13 then [bs, CHR ''r'']
         else if n = 9 then [bs, CHR ''t'']
         else if n < 32 then [bs, CHR ''u'', CHR ''0'', CHR ''0'', hex_digit (n div 16), hex_digit (n mod 16)]
         else [c])"

definition escape_json :: "string \<Rightarrow> string" where
  "escape_json s = concat (map escape_json_char s)"

subsection \<open>URL decoding\<close>

definition hex_value :: "char \<Rightarrow> nat option" where
  "hex_value c =
     (if is_digit c then Some (byte c - 48)
      else if 65 \<le> byte c \<and> byte c \<le> 70 then Some (byte c - 55)
      else if 97 \<le> byte c \<and> byte c \<le> 102 then Some (byte c - 87)
      else None)"

fun hex_digits :: "nat \<Rightarrow> string \<Rightarrow> nat \<times> string" where
  "hex_digits acc [] = (acc, [])"
| "hex_digits acc (c # s) =
     (case hex_value c of None \<Rightarrow> (acc, c # s) | Some d \<Rightarrow> hex_digits (acc * 16 + d) s)"

text \<open>
  \<open>strtol(s, &end, 16)\<close> on a C string: spaces, a sign, an optional \<open>0x\<close> before a digit, digits. The
  result is the value and what \<open>end\<close> points at; without a digit \<open>end\<close> is the start.
\<close>

definition skip_0x :: "string \<Rightarrow> string" where
  "skip_0x s =
     (case s of
        z # x # d # rest \<Rightarrow>
          if z = CHR ''0'' \<and> (x = CHR ''x'' \<or> x = CHR ''X'') \<and> hex_value d \<noteq> None then d # rest else s
      | _ \<Rightarrow> s)"

definition strtol_16 :: "string \<Rightarrow> int \<times> string" where
  "strtol_16 s =
     (let t = dropWhile isspace s;
          neg = (t \<noteq> [] \<and> hd t = CHR ''-'');
          t = (if t \<noteq> [] \<and> (hd t = CHR ''-'' \<or> hd t = CHR ''+'') then tl t else t);
          t = skip_0x t
      in case t of
           [] \<Rightarrow> (0, s)
         | c # _ \<Rightarrow>
             if hex_value c = None then (0, s)
             else let (v, rest) = hex_digits 0 t in (if neg then - int v else int v, rest))"

text \<open>\<open>hex.c_str()\<close> ends at the first zero byte.\<close>

definition c_str :: "string \<Rightarrow> string" where
  "c_str s = takeWhile (\<lambda>c. byte c \<noteq> 0) s"

definition decode_hex2 :: "char \<Rightarrow> char \<Rightarrow> char option" where
  "decode_hex2 a b =
     (let (v, rest) = strtol_16 (c_str [a, b])
      in if rest = [] then Some (char_of (nat (v mod 256))) else None)"

function url_decode :: "string \<Rightarrow> string" where
  "url_decode [] = []"
| "url_decode (c # s) =
     (if c = CHR ''+'' then CHR '' '' # url_decode s
      else case (c = CHR ''%'', s) of
             (True, a # b # rest) \<Rightarrow>
               (case decode_hex2 a b of
                  Some d \<Rightarrow> d # url_decode rest
                | None \<Rightarrow> c # url_decode s)
           | _ \<Rightarrow> c # url_decode s)"
  by pat_completeness auto
termination
  by (relation "measure length") auto

subsection \<open>Forms and cookies\<close>

text \<open>The pieces of a string between occurrences of a separator, as the \<open>find\<close> loops visit them.\<close>

fun split_on :: "char \<Rightarrow> string \<Rightarrow> string list" where
  "split_on sep [] = [[]]"
| "split_on sep (c # s) =
     (if c = sep then [] # split_on sep s
      else case split_on sep s of [] \<Rightarrow> [[c]] | p # ps \<Rightarrow> (c # p) # ps)"

lemma split_on_nonempty [simp]: "split_on c s \<noteq> []"
  by (induction s) (auto split: list.split)

lemma split_on_sep: "split_on c (s @ c # t) = split_on c s @ split_on c t"
  by (induction s) (auto split: list.split)

lemma split_on_none: "c \<notin> set s \<Longrightarrow> split_on c s = [s]"
  by (induction s) auto

definition before_eq :: "string \<Rightarrow> string" where
  "before_eq s = takeWhile (\<lambda>c. c \<noteq> CHR ''='') s"

definition after_eq :: "string \<Rightarrow> string" where
  "after_eq s = tl (dropWhile (\<lambda>c. c \<noteq> CHR ''='') s)"

definition form_pair :: "(string \<rightharpoonup> string) \<Rightarrow> string \<Rightarrow> (string \<rightharpoonup> string)" where
  "form_pair out pair =
     (let key = url_decode (before_eq pair);
          value = (if CHR ''='' \<in> set pair then url_decode (after_eq pair) else [])
      in if key = [] then out else out(key \<mapsto> value))"

definition parse_form_body :: "string \<Rightarrow> (string \<rightharpoonup> string)" where
  "parse_form_body body = foldl form_pair Map.empty (split_on (CHR ''&'') body)"

definition cookie_part :: "(string \<rightharpoonup> string) \<Rightarrow> string \<Rightarrow> (string \<rightharpoonup> string)" where
  "cookie_part out piece =
     (let part = trim_copy piece
      in if CHR ''='' \<in> set part then out(before_eq part \<mapsto> after_eq part) else out)"

text \<open>
  The cookie loop stops at \<open>start = size\<close>, so an empty last piece is not visited; that piece has no
  equals sign and would change nothing.
\<close>

definition parse_cookie_header :: "string \<Rightarrow> (string \<rightharpoonup> string)" where
  "parse_cookie_header header = foldl cookie_part Map.empty (split_on (CHR '';'') header)"

subsection \<open>MIME types\<close>

definition ends_with :: "string \<Rightarrow> string \<Rightarrow> bool" where
  "ends_with s t \<longleftrightarrow> length t \<le> length s \<and> drop (length s - length t) s = t"

definition mime_for_path :: "string \<Rightarrow> string" where
  "mime_for_path path =
     (if ends_with path ''.html'' then ''text/html; charset=utf-8''
      else if ends_with path ''.js'' then ''application/javascript; charset=utf-8''
      else if ends_with path ''.proto'' then ''text/plain; charset=utf-8''
      else if ends_with path ''.json'' then ''application/json; charset=utf-8''
      else if ends_with path ''.png'' then ''image/png''
      else if ends_with path ''.jpg'' \<or> ends_with path ''.jpeg'' then ''image/jpeg''
      else if ends_with path ''.webp'' then ''image/webp''
      else if ends_with path ''.gif'' then ''image/gif''
      else if ends_with path ''.mp3'' then ''audio/mpeg''
      else if ends_with path ''.svg'' then ''image/svg+xml''
      else if ends_with path ''.css'' then ''text/css; charset=utf-8''
      else ''text/plain; charset=utf-8'')"

subsection \<open>Normalisation is idempotent\<close>

lemma byte_char_of: "n < 256 \<Longrightarrow> byte (char_of n) = n"
  by simp

lemma tolower_facts:
  "\<not> is_upper (tolower c)" "isspace (tolower c) = isspace c" "tolower (tolower c) = tolower c"
proof -
  show up: "\<not> is_upper (tolower c)"
    by (auto simp: tolower_def is_upper_def)
  show "isspace (tolower c) = isspace c"
    by (auto simp: tolower_def is_upper_def isspace_def)
  show "tolower (tolower c) = tolower c"
    using up by (subst tolower_def) simp
qed

lemma dropWhile_map_inv:
  assumes "\<And>c. P (f c) = P c"
  shows "dropWhile P (map f xs) = map f (dropWhile P xs)"
  using assms by (induction xs) auto

lemma trim_lower: "trim_copy (to_lower_ascii s) = to_lower_ascii (trim_copy s)"
  by (simp add: trim_copy_def to_lower_ascii_def dropWhile_map_inv tolower_facts(2) rev_map)

lemma hd_dropWhile_keep: "xs \<noteq> [] \<Longrightarrow> \<not> P (hd xs) \<Longrightarrow> dropWhile P xs = xs"
  by (cases xs) auto

lemma trim_copy_ends:
  "trim_copy s = [] \<or> \<not> isspace (hd (trim_copy s)) \<and> \<not> isspace (last (trim_copy s))"
proof -
  define t where "t = dropWhile isspace s"
  define u where "u = dropWhile isspace (rev t)"
  have eq: "trim_copy s = rev u" by (simp add: trim_copy_def u_def t_def)
  show ?thesis
  proof (cases "u = []")
    case True
    then show ?thesis by (simp add: eq)
  next
    case False
    have "\<not> isspace (hd u)" using False by (metis u_def hd_dropWhile)
    moreover have "t \<noteq> []" using False by (auto simp: u_def)
    then have "\<not> isspace (hd t)" by (metis t_def hd_dropWhile)
    moreover have "last u = hd t"
      using False \<open>t \<noteq> []\<close> unfolding u_def
      by (metis dropWhile_eq_Nil_conv dropWhile_append3 hd_rev last_rev last_append
          rev_rev_ident takeWhile_dropWhile_id)
    ultimately show ?thesis using False by (simp add: eq hd_rev last_rev)
  qed
qed

lemma trim_copy_idem: "trim_copy (trim_copy s) = trim_copy s"
proof (cases "trim_copy s = []")
  case True
  have "trim_copy [] = []" by (simp add: trim_copy_def)
  then show ?thesis by (simp only: True)
next
  case False
  then have "\<not> isspace (hd (trim_copy s))" "\<not> isspace (last (trim_copy s))"
    using trim_copy_ends by auto
  then show ?thesis
    using False by (simp add: trim_copy_def[of "trim_copy s"] hd_dropWhile_keep hd_rev)
qed

text \<open>
  Names are normalised once and for all: a normalised user name has no upper-case letter and no
  space at its ends, normalising it again changes nothing, and case and surrounding spaces of the
  input do not matter.
\<close>

theorem normalize_username_canonical:
  "normalize_username (normalize_username s) = normalize_username s \<and>
   normalize_username (to_lower_ascii s) = normalize_username s \<and>
   normalize_username (trim_copy s) = normalize_username s \<and>
   list_all (\<lambda>c. \<not> is_upper c) (normalize_username s)"
proof -
  have low: "to_lower_ascii (to_lower_ascii t) = to_lower_ascii t" for t
    by (simp add: to_lower_ascii_def tolower_facts(3))
  show ?thesis
    by (simp add: normalize_username_def trim_lower trim_copy_idem low)
       (simp add: to_lower_ascii_def list_all_iff tolower_facts(1))
qed

subsection \<open>URL decoding inverts percent-encoding\<close>

text \<open>The encoding of RFC 3986 for every byte: a percent sign and two hexadecimal digits.\<close>

definition percent_encode :: "string \<Rightarrow> string" where
  "percent_encode s =
     concat (map (\<lambda>c. [CHR ''%'', hex_digit (byte c div 16), hex_digit (byte c mod 16)]) s)"

lemma hex_digit_cases: "d < 16 \<Longrightarrow>
   hex_value (hex_digit d) = Some d \<and> \<not> isspace (hex_digit d) \<and> byte (hex_digit d) \<noteq> 0 \<and>
   hex_digit d \<noteq> CHR ''-'' \<and> hex_digit d \<noteq> CHR ''+''"
proof -
  assume "d < 16"
  then have "d \<in> {0,1,2,3,4,5,6,7,8,9,10,11,12,13,14,15}"
    unfolding insert_iff empty_iff by presburger
  then show ?thesis
    by (elim insertE emptyE) (simp_all, (code_simp+)?)
qed

lemma decode_hex2_digits:
  assumes "a < 16" "b < 16"
  shows "decode_hex2 (hex_digit a) (hex_digit b) = Some (char_of (a * 16 + b))"
proof -
  note ha = hex_digit_cases[OF assms(1)] and hb = hex_digit_cases[OF assms(2)]
  have "c_str [hex_digit a, hex_digit b] = [hex_digit a, hex_digit b]"
    using ha hb by (simp add: c_str_def)
  moreover have "strtol_16 [hex_digit a, hex_digit b] = (int (a * 16 + b), [])"
    using ha hb by (simp add: strtol_16_def Let_def skip_0x_def)
  moreover have "nat (int (a * 16 + b) mod 256) = a * 16 + b"
    using assms by (simp add: nat_mod_as_int flip: zmod_int)
  ultimately show ?thesis by (simp add: decode_hex2_def)
qed

text \<open>
  Every byte string survives a percent-encoded form: \<open>url_decode\<close> gives back exactly the bytes
  that were encoded, spaces, plus and percent signs and zero bytes included.
\<close>

theorem url_decode_inverts_encoding: "url_decode (percent_encode s) = s"
proof (induction s)
  case Nil
  then show ?case by (simp add: percent_encode_def)
next
  case (Cons c s)
  have "byte c < 16 * 16" by simp
  then have "byte c div 16 < 16" by (rule less_mult_imp_div_less)
  then have "decode_hex2 (hex_digit (byte c div 16)) (hex_digit (byte c mod 16)) = Some c"
    using decode_hex2_digits[of "byte c div 16" "byte c mod 16"] by simp
  then show ?case
    using Cons by (simp add: percent_encode_def)
qed

end
