(* ===== verification/Betting.thy ===== *)
theory Betting
  imports Turns Text_Utils Complex_Main
begin

section \<open>Player actions (main.cpp)\<close>

text \<open>
  \<open>handle_action\<close> and the AI player. The amount of a raise is chosen by the client, so the sum
  \<open>call_amt + raise_by\<close> can leave the \<open>int\<close> range: that is undefined behaviour, a \<open>fault\<close> here. The
  random number of \<open>ai_act\<close> is a parameter.
\<close>

definition reject_illegal_action :: "string \<Rightarrow> string \<Rightarrow> Ctx \<Rightarrow> Ctx" where
  "reject_illegal_action socket_id reason c =
     (if socket_id = [] then c else send_error socket_id (''Action rejected: '' @ reason) c)"

definition seat_label :: "Ctx \<Rightarrow> int \<Rightarrow> string" where
  "seat_label c i = seat_name (seat_at (rm c) i)"

definition current_bet_of :: "Ctx \<Rightarrow> int \<Rightarrow> int" where
  "current_bet_of c i = (case get_player (rm c) i of None \<Rightarrow> 0 | Some p \<Rightarrow> current_bet p)"

text \<open>The announcements that follow an accepted action: a line of the activity log and the badge.\<close>

definition announce_action :: "int \<Rightarrow> string \<Rightarrow> string \<Rightarrow> Ctx \<Rightarrow> Ctx" where
  "announce_action seat_idx line badge c =
     broadcast_player_action seat_idx badge (broadcast_activity (seat_label c seat_idx @ line) c)"

definition drop_pending :: "int \<Rightarrow> 'a Table_scheme \<Rightarrow> 'a Table_scheme" where
  "drop_pending i r = r\<lparr>pending_action_seats := pending_action_seats r - {i}\<rparr>"

text \<open>Everyone else who can act owes an answer to the raise of seat \<open>i\<close>.\<close>

definition reopen_betting :: "string set \<Rightarrow> int \<Rightarrow> 'a Table_scheme \<Rightarrow> 'a Table_scheme" where
  "reopen_betting clients i r =
     r\<lparr>pending_action_seats := set (get_actable_seats clients r) - {i}\<rparr>"

definition fold_action :: "int \<Rightarrow> Ctx \<Rightarrow> Ctx" where
  "fold_action i c =
     announce_action i '' Folds.'' ''FOLD''
       (on_room (\<lambda>r. drop_pending i (upd_player i (\<lambda>p. p\<lparr>is_folded := True\<rparr>) r)) c)"

definition check_action :: "int \<Rightarrow> Ctx \<Rightarrow> Ctx" where
  "check_action i c = announce_action i '' Checks.'' ''CHECK'' (on_room (drop_pending i) c)"

definition call_action :: "int \<Rightarrow> PlayerState \<Rightarrow> int \<Rightarrow> Ctx \<Rightarrow> Ctx" where
  "call_action i p call_amt c =
     on_room (drop_pending i)
       (if call_amt > 0 then
          if chips p < call_amt then
            let (paid, r) = place_bet i (chips p) (rm c);
                c = c\<lparr>rm := r\<rparr>
            in announce_action i ('' is ALL-IN for '' @ to_string paid @ ''.'')
                 (''ALL-IN '' @ to_string (current_bet_of c i)) c
          else
            announce_action i '' Calls.'' (''CALL '' @ to_string call_amt)
              (on_room (\<lambda>r. snd (place_bet i call_amt r)) c)
        else announce_action i '' Checks.'' ''CHECK'' c)"

definition raise_action :: "int \<Rightarrow> int \<Rightarrow> int \<Rightarrow> Ctx \<Rightarrow> Ctx" where
  "raise_action i amount raise_by c =
     (let c = on_room (\<lambda>r. snd (place_bet i amount r)) c;
          bet = current_bet_of c i;
          c = on_room (\<lambda>r. reopen_betting (clients_of c) i (r\<lparr>current_max_bet := bet, min_raise := raise_by\<rparr>)) c
      in announce_action i ('' Raises to '' @ to_string bet @ ''.'') (''RAISE '' @ to_string bet) c)"

definition allin_action :: "int \<Rightarrow> int \<Rightarrow> Ctx \<Rightarrow> Ctx" where
  "allin_action i all c =
     (let prev_max_bet = current_max_bet (rm c); prev_min_raise = min_raise (rm c);
          c = on_room (\<lambda>r. snd (place_bet i all r)) c;
          bet = current_bet_of c i
      in if bet > prev_max_bet then
           let raise_by = bet - prev_max_bet;
               c = on_room (\<lambda>r. r\<lparr>current_max_bet := bet\<rparr>) c
           in if raise_by \<ge> prev_min_raise then
                announce_action i ('' ALL-IN to '' @ to_string bet @ ''.'') (''ALL-IN '' @ to_string bet)
                  (on_room (\<lambda>r. reopen_betting (clients_of c) i (r\<lparr>min_raise := raise_by\<rparr>)) c)
              else
                announce_action i ('' is ALL-IN to '' @ to_string bet @
                    '' (short raise; betting not reopened).'') (''ALL-IN '' @ to_string bet)
                  (on_room (drop_pending i) c)
         else
           announce_action i '' is ALL-IN!'' ''ALL-IN'' (on_room (drop_pending i) c))"

text \<open>The branches on the action's type: \<open>Inl\<close> is a rejection with its reason.\<close>

datatype verdict = Fault fault | Rejected string | Accepted Ctx

definition apply_action :: "int \<Rightarrow> PlayerState \<Rightarrow> ActionRequest \<Rightarrow> Ctx \<Rightarrow> verdict" where
  "apply_action i p act c =
     (let call_amt = max 0 (current_max_bet (rm c) - current_bet p);
          type = normalize_action_name (ar_type act)
      in if type = ''fold'' then Accepted (fold_action i c)
         else if type = ''check'' then
           if call_amt \<noteq> 0 then Rejected ''cannot check while facing a bet''
           else Accepted (check_action i c)
         else if type = ''call'' then Accepted (call_action i p call_amt c)
         else if type = ''raise'' then
           let raise_by = ar_raise_by act
           in if raise_by < min_raise (rm c) then
                Rejected (''raise is below minimum re-raise ('' @ to_string (min_raise (rm c)) @ '')'')
              else if \<not> in_i32 (call_amt + raise_by) then Fault Signed_Overflow
              else if chips p < call_amt + raise_by then
                Rejected ''insufficient chips for requested raise''
              else Accepted (raise_action i (call_amt + raise_by) raise_by c)
         else if type = ''allin'' then
           if chips p \<le> 0 then Rejected ''no chips left for all-in''
           else Accepted (allin_action i (chips p) c)
         else Rejected ''unsupported action type'')"

text \<open>What follows an accepted action: the hand ends, the street ends, or the turn passes.\<close>

definition after_action :: "int \<Rightarrow> Ctx \<Rightarrow> Ctx" where
  "after_action seat_idx c =
     (if length (get_in_hand_seats (clients_of c) (rm c)) \<le> 1 then finish_hand c
      else
        let c = on_room remove_ineligible_from_pending c;
            (done, r) = can_advance_street (rm c);
            c = c\<lparr>rm := r\<rparr>
        in if done then proceed_to_next_street c
           else request_turn (on_room (pass_turn seat_idx) c))"

definition handle_action :: "int \<Rightarrow> ActionRequest \<Rightarrow> string \<Rightarrow> Ctx \<Rightarrow> fault + Ctx" where
  "handle_action seat_idx act actor_socket_id c =
     (let reject = (\<lambda>reason c. Inr (reject_illegal_action actor_socket_id reason c))
      in case get_player (rm c) seat_idx of
           None \<Rightarrow> reject ''seat not found in room'' c
         | Some p \<Rightarrow>
             if seat_type (seat_at (rm c) seat_idx) \<noteq> SeatPlayer \<and> actor_socket_id \<noteq> [] then
               reject ''only seated players can act'' c
             else if is_folded p \<or> is_bankrupt p then
               reject ''seat is not active in this hand'' c
             else if active_seat_idx (rm c) \<noteq> seat_idx \<or> seat_idx \<notin> pending_action_seats (rm c) then
               reject ''it is not your turn'' c
             else
               let c = on_room (\<lambda>r. r\<lparr>last_actor_seat_idx := seat_idx\<rparr>) c
               in case apply_action seat_idx p act c of
                    Fault e \<Rightarrow> Inl e
                  | Rejected reason \<Rightarrow> reject reason c
                  | Accepted c \<Rightarrow> Inr (after_action seat_idx c))"

definition ai_request :: "real \<Rightarrow> int \<Rightarrow> PlayerState \<Rightarrow> 'a Table_scheme \<Rightarrow> ActionRequest" where
  "ai_request x call_amt p r =
     (if call_amt > 0 \<and> x > 85 / 100 then \<lparr>ar_type = ''fold'', ar_raise_by = 0\<rparr>
      else if x > 7 / 10 \<and> chips p > call_amt + min_raise r then
        \<lparr>ar_type = ''raise'', ar_raise_by = min_raise r\<rparr>
      else if call_amt > 0 then \<lparr>ar_type = ''call'', ar_raise_by = 0\<rparr>
      else \<lparr>ar_type = ''check'', ar_raise_by = 0\<rparr>)"

definition ai_act :: "real \<Rightarrow> int \<Rightarrow> Ctx \<Rightarrow> fault + Ctx" where
  "ai_act x seat_idx c =
     (let skip = (\<lambda>c. Inr (request_turn (on_room (\<lambda>r. pass_turn seat_idx (drop_pending seat_idx r)) c)))
      in case get_player (rm c) seat_idx of
           None \<Rightarrow> skip c
         | Some p \<Rightarrow>
             if is_folded p \<or> is_bankrupt p then skip c
             else
               let call_amt = max 0 (current_max_bet (rm c) - current_bet p)
               in handle_action seat_idx (ai_request x call_amt p (rm c)) [] c)"

text \<open>The callback of the AI timer; a timer fires once.\<close>

definition ai_timer_fires :: "real \<Rightarrow> Ctx \<Rightarrow> fault + Ctx" where
  "ai_timer_fires x c =
     (case ai_timer (rm c) of
        None \<Rightarrow> Inr c
      | Some i \<Rightarrow>
          let c = on_room (\<lambda>r. r\<lparr>ai_timer := None\<rparr>) c
          in if active_seat_idx (rm c) \<noteq> i then Inr c
             else if \<not> ai_controls (clients_of c) (rm c) i then Inr c
             else ai_act x i c)"

end
