(* ===== verification/Betting_Facts.thy ===== *)
theory Betting_Facts
  imports Betting
begin

section \<open>What an action can and cannot do\<close>

text \<open>
  The rules of betting, proved of \<open>handle_action\<close>: whose turn it is, how far a raise must go, what an all-in
  reopens, when a sum overflows, that no chip is made or lost, and that the AI plays by the rules.
\<close>

subsection \<open>Reading through the announcements\<close>

lemma announce_action_reads [simp]:
  "game_of (announce_action i l b c) = game_of c"
  "active_clients (announce_action i l b c) = active_clients c"
  by (simp_all add: announce_action_def)

lemmas announce_reads [simp] = table_reads[OF announce_action_reads(1)[unfolded game_of_def]]

lemma reject_reads [simp]:
  "rm (reject_illegal_action sid t c) = rm c"
  "active_clients (reject_illegal_action sid t c) = active_clients c"
  by (simp_all add: reject_illegal_action_def)

lemma drop_pending_fields [simp]:
  "players (drop_pending i r) = players r" "get_player (drop_pending i r) j = get_player r j"
  "table_ok (drop_pending i r) = table_ok r" "table_chips (drop_pending i r) = table_chips r"
  "table_contrib (drop_pending i r) = table_contrib r"
  "pending_action_seats (drop_pending i r) = pending_action_seats r - {i}"
  "current_max_bet (drop_pending i r) = current_max_bet r" "min_raise (drop_pending i r) = min_raise r"
  by (simp_all add: drop_pending_def)

lemma reopen_betting_fields [simp]:
  "players (reopen_betting cl i r) = players r" "get_player (reopen_betting cl i r) j = get_player r j"
  "table_ok (reopen_betting cl i r) = table_ok r" "table_chips (reopen_betting cl i r) = table_chips r"
  "table_contrib (reopen_betting cl i r) = table_contrib r"
  "pending_action_seats (reopen_betting cl i r) = set (get_actable_seats cl r) - {i}"
  "current_max_bet (reopen_betting cl i r) = current_max_bet r"
  "min_raise (reopen_betting cl i r) = min_raise r"
  by (simp_all add: reopen_betting_def)

subsection \<open>Chips\<close>

definition total_chips :: "'a Table_scheme \<Rightarrow> int" where
  "total_chips r = table_chips r + table_contrib r"

lemma place_bet_total:
  assumes "table_ok r"
  shows "total_chips (snd (place_bet i a r)) = total_chips r"
proof (cases "\<exists>p. get_player r i = Some p \<and> \<not> is_folded p \<and> \<not> is_bankrupt p")
  case True
  then obtain p where p: "get_player r i = Some p" "\<not> is_folded p" "\<not> is_bankrupt p" by blast
  then show ?thesis
    by (simp add: place_bet_active total_chips_def table_sum_upd_player[OF assms p(1)])
next
  case False
  then show ?thesis
    by (cases "get_player r i") (auto simp: place_bet_inactive)
qed

text \<open>Chips stay on the table, in a stack or in front of a player.\<close>

definition keeps_chips :: "Ctx \<Rightarrow> Ctx \<Rightarrow> bool" where
  "keeps_chips c d \<longleftrightarrow>
     active_clients d = active_clients c \<and> table_ok (rm d) \<and> total_chips (rm d) = total_chips (rm c)"

lemma fold_player_sums:
  assumes "table_ok r"
  shows "table_ok (upd_player i (\<lambda>p. p\<lparr>is_folded := f\<rparr>) r)"
    and "total_chips (upd_player i (\<lambda>p. p\<lparr>is_folded := f\<rparr>) r) = total_chips r"
proof -
  show "table_ok (upd_player i (\<lambda>p. p\<lparr>is_folded := f\<rparr>) r)"
    by (rule table_ok_upd_player[OF assms]) (simp add: player_ok_def)
  show "total_chips (upd_player i (\<lambda>p. p\<lparr>is_folded := f\<rparr>) r) = total_chips r"
    using assms
    by (cases "get_player r i")
       (simp_all add: total_chips_def table_sum_upd_player upd_player_missing)
qed

lemma actions_keep_chips:
  assumes "table_ok (rm c)"
  shows "keeps_chips c (fold_action i c)" and "keeps_chips c (check_action i c)"
    and "keeps_chips c (call_action i p a c)" and "keeps_chips c (raise_action i a b c)"
    and "keeps_chips c (allin_action i a c)"
proof -
  note bet = table_ok_place_bet[OF assms] place_bet_total[OF assms, unfolded total_chips_def]
  show "keeps_chips c (fold_action i c)"
    using fold_player_sums[OF assms] by (simp add: keeps_chips_def fold_action_def total_chips_def)
  show "keeps_chips c (check_action i c)"
    using assms by (simp add: keeps_chips_def check_action_def total_chips_def)
  show "keeps_chips c (call_action i p a c)"
    using assms bet by (simp add: keeps_chips_def call_action_def total_chips_def case_prod_beta Let_def)
  show "keeps_chips c (raise_action i a b c)"
    using bet by (simp add: keeps_chips_def raise_action_def total_chips_def Let_def)
  show "keeps_chips c (allin_action i a c)"
    using bet by (simp add: keeps_chips_def allin_action_def total_chips_def Let_def)
qed

lemma apply_action_keeps_chips:
  "table_ok (rm c) \<Longrightarrow> apply_action i p act c = Accepted d \<Longrightarrow> keeps_chips c d"
  using actions_keep_chips[of c]
  by (auto simp: apply_action_def Let_def split: if_splits)

lemma pass_turn_sums [simp]:
  "table_ok (pass_turn i r) = table_ok r" "table_chips (pass_turn i r) = table_chips r"
  "table_contrib (pass_turn i r) = table_contrib r"
  by (simp_all add: table_ok_def table_chips_def table_contrib_def)

lemma after_action_outcome:
  assumes "table_ok (rm c)"
  shows "turn_outcome c (after_action i c)"
proof (cases "length (get_in_hand_seats (active_clients c) (rm c)) \<le> 1")
  case True
  then show ?thesis using finish_hand_outcome[OF assms] by (simp add: after_action_def)
next
  case False
  define e where "e = on_room (\<lambda>r. remove_ineligible_from_pending (remove_ineligible_from_pending r)) c"
  have e: "same_money c e" unfolding e_def
    by (rule same_money_room) (simp_all add: remove_ineligible_from_pending_def)
  then have ok: "table_ok (rm e)" using assms by (simp add: same_money_def)
  have f: "same_money e (on_room (pass_turn i) e)" by (rule same_money_room) simp_all
  then have okf: "table_ok (rm (on_room (pass_turn i) e))" using ok by (simp add: same_money_def)
  have "after_action i c =
      (if pending_action_seats (rm e) = {} then proceed_to_next_street e
       else request_turn (on_room (pass_turn i) e))"
    using False by (simp add: after_action_def Let_def can_advance_street_def e_def on_room_def) blast
  then show ?thesis
    using turn_outcome_trans[OF e proceed_and_request_outcome(1)[OF ok]]
      turn_outcome_trans[OF same_money_trans[OF e f] proceed_and_request_outcome(2)[OF okf]]
    by simp
qed

lemma handle_action_outcome:
  assumes "table_ok (rm c)" and "handle_action i act sid c = Inr d"
  shows "table_ok (rm d) \<and>
     (table_chips (rm d) + table_contrib (rm d) = table_chips (rm c) + table_contrib (rm c) \<or>
      hand_closed (rm d) \<and>
      table_chips (rm d) + orphaned_chips (active_clients c) (rm d) =
        table_chips (rm c) + table_contrib (rm c))"
proof -
  define c1 where "c1 = on_room (\<lambda>r. r\<lparr>last_actor_seat_idx := i\<rparr>) c"
  have c1: "table_ok (rm c1)" "total_chips (rm c1) = total_chips (rm c)" "active_clients c1 = active_clients c"
    using assms(1) by (simp_all add: c1_def total_chips_def)
  consider (rejected) reason c' where "d = reject_illegal_action sid reason c'" "c' = c \<or> c' = c1"
    | (accepted) p e where "apply_action i p act c1 = Accepted e" "d = after_action i e"
    using assms(2) by (auto simp: handle_action_def Let_def c1_def split: option.splits if_splits verdict.splits)
  then show ?thesis
  proof cases
    case rejected
    then show ?thesis using assms(1) c1 by (auto simp: total_chips_def)
  next
    case accepted
    have e: "keeps_chips c1 e" by (rule apply_action_keeps_chips[OF c1(1) accepted(1)])
    then have "turn_outcome e d"
      using after_action_outcome[of e i] accepted(2) by (simp add: keeps_chips_def)
    then show ?thesis using e c1 by (auto simp: turn_outcome_def keeps_chips_def total_chips_def)
  qed
qed

text \<open>
  C4. Whatever a client asks, an action creates and destroys no chips: after it the stacks and the
  bets hold the same total, or the hand is over and the stacks hold it all except the pots nobody
  left in the hand can win. The table stays well formed.
\<close>

theorem handle_action_conserves_chips:
  assumes "table_ok (rm c)" and "handle_action i act sid c = Inr d"
  shows "table_ok (rm d) \<and>
     (table_chips (rm d) + table_contrib (rm d) = table_chips (rm c) + table_contrib (rm c) \<or>
      hand_closed (rm d) \<and>
      table_chips (rm d) + orphaned_chips (active_clients c) (rm d) =
        table_chips (rm c) + table_contrib (rm c))"
  using handle_action_outcome[OF assms] .

text \<open>The demo hand on its last street, seat 1 to act against bets of 200.\<close>

definition betting_ctx :: "int \<Rightarrow> Ctx" where
  "betting_ctx bet =
     on_room (\<lambda>r. r\<lparr>active_seat_idx := 1, pending_action_seats := {1}, current_max_bet := 200\<rparr>)
       (demo_ctx {''a''} bet)"

lemma betting_ctx_reads [simp]:
  "active_clients (betting_ctx bet) = {''a''}"
  "players (rm (betting_ctx bet)) = [(1, bettor 1 500 bet), (4, bettor 4 0 200), (7, bettor 7 0 200)]"
  "active_seat_idx (rm (betting_ctx bet)) = 1" "pending_action_seats (rm (betting_ctx bet)) = {1}"
  "current_max_bet (rm (betting_ctx bet)) = 200" "min_raise (rm (betting_ctx bet)) = 100"
  "get_player (rm (betting_ctx bet)) 1 = Some (bettor 1 500 bet)"
  by (simp_all add: betting_ctx_def get_player_def demo_room_def default_room_def)

lemma betting_ctx_seat: "seat_type (seat_at (rm (betting_ctx bet)) 1) = SeatPlayer"
  by (simp add: betting_ctx_def seat_at_def demo_room_def demo_table_def)

lemma betting_ctx_ok: "table_ok (rm (betting_ctx 100))"
  by code_simp

lemma bettor_simps [simp]:
  "is_folded (bettor i c b) = False" "is_bankrupt (bettor i c b) = False" "chips (bettor i c b) = c"
  "current_bet (bettor i c b) = b" "hand_contribution (bettor i c b) = b"
  by (simp_all add: bettor_def default_player_def)

lemma betting_total:
  "table_chips (rm (betting_ctx bet)) = 500" "table_contrib (rm (betting_ctx bet)) = bet + 400"
  by (simp_all add: table_chips_def table_contrib_def)

lemma normalize_action_ground:
  "normalize_action_name ''call'' = ''call''" "normalize_action_name '' Raise'' = ''raise''"
  "normalize_action_name ''raise'' = ''raise''" "normalize_action_name ''allin'' = ''allin''"
  "normalize_action_name ''check'' = ''check''" "normalize_action_name ''fold'' = ''fold''"
  by code_simp+

definition call_request :: ActionRequest where
  "call_request = \<lparr>ar_type = ''call'', ar_raise_by = 0\<rparr>"

lemma handle_action_conserves_chips_witness:
  "\<exists>d. handle_action 1 call_request ''a'' (betting_ctx 100) = Inr d \<and> table_ok (rm d)"
proof -
  obtain d where d: "handle_action 1 call_request ''a'' (betting_ctx 100) = Inr d"
    by (simp add: handle_action_def Let_def betting_ctx_seat apply_action_def call_request_def
        normalize_action_ground)
  then show ?thesis
    using handle_action_conserves_chips[OF betting_ctx_ok d] by blast
qed

subsection \<open>Turn order\<close>

text \<open>
  C7. Only the player whose turn it is can move the game. A request from anyone else (an empty seat,
  a folded or bankrupt player, a seat that is not active or owes no action) leaves the whole room as
  it was; the one effect is the error sent back to the socket that asked.
\<close>

theorem only_the_player_to_act_moves:
  assumes "get_player (rm c) i = None \<or> active_seat_idx (rm c) \<noteq> i \<or> i \<notin> pending_action_seats (rm c) \<or>
     (\<exists>p. get_player (rm c) i = Some p \<and> (is_folded p \<or> is_bankrupt p))"
  shows "\<exists>d reason. handle_action i act sid c = Inr d \<and> rm d = rm c \<and>
     sessions d = sessions c \<and> gameplay_sessions d = gameplay_sessions c \<and>
     outbox d = (if sid = [] \<or> \<not> gateway_attached c then outbox c
       else outbox c @ [(sid, ''error_msg'', ErrorMessage (''Action rejected: '' @ reason))])"
proof -
  have "\<exists>reason. handle_action i act sid c = Inr (reject_illegal_action sid reason c)"
    using assms
    by (cases "get_player (rm c) i") (auto simp: handle_action_def Let_def)
  then show ?thesis
    by (auto simp: reject_illegal_action_def send_error_def send_event_def send_envelope_def)
qed

lemma only_the_player_to_act_moves_witness:
  "\<exists>d. handle_action 4 call_request ''x'' (betting_ctx 100) = Inr d \<and> rm d = rm (betting_ctx 100)"
  using only_the_player_to_act_moves[of "betting_ctx 100" 4 call_request "''x''"] by auto

subsection \<open>Raises\<close>

lemma actable_reopen [simp]:
  "get_actable_seats cl (reopen_betting cl' i r) = get_actable_seats cl r"
  "get_actable_seats cl (r\<lparr>current_max_bet := x, min_raise := y\<rparr>) = get_actable_seats cl r"
  "get_actable_seats cl (r\<lparr>min_raise := y\<rparr>) = get_actable_seats cl r"
  "get_actable_seats cl (r\<lparr>current_max_bet := x\<rparr>) = get_actable_seats cl r"
  by (rule live_cong(2); simp add: reopen_betting_def)+

lemma get_player_after_bet:
  assumes "get_player r i = Some p" "\<not> is_folded p" "\<not> is_bankrupt p" "0 \<le> a" "a \<le> chips p"
  shows "get_player (snd (place_bet i a r)) i = Some (commit a p)"
  using assms by (simp add: get_player_place_bet place_bet_simps(1))

lemma raise_action_effect:
  assumes "get_player (rm c) i = Some p" "\<not> is_folded p" "\<not> is_bankrupt p" "0 \<le> a" "a \<le> chips p"
  shows "get_player (rm (raise_action i a b c)) i = Some (commit a p)"
    and "current_max_bet (rm (raise_action i a b c)) = current_bet p + a"
    and "min_raise (rm (raise_action i a b c)) = b"
    and "pending_action_seats (rm (raise_action i a b c)) =
           set (get_actable_seats (active_clients c) (rm (raise_action i a b c))) - {i}"
  using get_player_after_bet[OF assms]
  by (simp_all add: raise_action_def Let_def current_bet_of_def)

text \<open>
  C8. An accepted raise follows the no-limit rules: it is at least the minimum re-raise and at most
  what the stack allows; the player pays the call and the raise, the bet to match grows by exactly
  the raise, which becomes the new minimum, and everyone else who can act owes an answer.
\<close>

theorem raise_follows_rules:
  assumes "table_ok (rm c)" and "get_player (rm c) i = Some p" and "\<not> is_folded p" and "\<not> is_bankrupt p"
    and "current_bet p \<le> current_max_bet (rm c)" and "0 \<le> min_raise (rm c)"
    and "normalize_action_name (ar_type act) = ''raise''" and "apply_action i p act c = Accepted d"
  shows "let x = ar_raise_by act; pay = current_max_bet (rm c) - current_bet p + x in
     min_raise (rm c) \<le> x \<and> pay \<le> chips p \<and>
     get_player (rm d) i = Some (commit pay p) \<and>
     current_max_bet (rm d) = current_max_bet (rm c) + x \<and> min_raise (rm d) = x \<and>
     pending_action_seats (rm d) = set (get_actable_seats (active_clients c) (rm d)) - {i}"
proof -
  define pay where "pay = current_max_bet (rm c) - current_bet p + ar_raise_by act"
  have x: "min_raise (rm c) \<le> ar_raise_by act" "pay \<le> chips p"
    and d: "d = raise_action i pay (ar_raise_by act) c"
    using assms(5,7,8) by (auto simp: apply_action_def Let_def pay_def split: if_splits)
  have "0 \<le> pay" using x(1) assms(5,6) by (simp add: pay_def)
  note effect = raise_action_effect[OF assms(2-4) this x(2), of "ar_raise_by act", folded d]
  show ?thesis
    using x effect unfolding Let_def pay_def[symmetric] by (simp add: pay_def)
qed

definition raise_request :: "int \<Rightarrow> ActionRequest" where
  "raise_request x = \<lparr>ar_type = '' Raise'', ar_raise_by = x\<rparr>"

lemma raise_follows_rules_witness:
  "\<exists>d. apply_action 1 (bettor 1 500 100) (raise_request 150) (betting_ctx 100) = Accepted d \<and>
     current_max_bet (rm d) = 350 \<and> min_raise (rm d) = 150"
proof -
  obtain d where d: "apply_action 1 (bettor 1 500 100) (raise_request 150) (betting_ctx 100) = Accepted d"
    by (simp add: apply_action_def Let_def raise_request_def normalize_action_ground in_i32_def
        int_max_def int_min_def)
  have "normalize_action_name (ar_type (raise_request 150)) = ''raise''"
    by (simp add: raise_request_def normalize_action_ground)
  then show ?thesis
    using raise_follows_rules[OF betting_ctx_ok _ _ _ _ _ _ d] d
    by (simp add: Let_def raise_request_def)
qed

lemma allin_action_effect:
  assumes "get_player (rm c) i = Some p" "\<not> is_folded p" "\<not> is_bankrupt p" "0 \<le> chips p"
  defines "bet \<equiv> current_bet p + chips p" and "d \<equiv> allin_action i (chips p) c"
  shows "get_player (rm d) i = Some (commit (chips p) p)"
    and "current_max_bet (rm d) = max (current_max_bet (rm c)) bet"
    and "bet > current_max_bet (rm c) \<and> bet - current_max_bet (rm c) \<ge> min_raise (rm c) \<Longrightarrow>
         min_raise (rm d) = bet - current_max_bet (rm c) \<and>
         pending_action_seats (rm d) = set (get_actable_seats (active_clients c) (rm d)) - {i}"
    and "\<not> (bet > current_max_bet (rm c) \<and> bet - current_max_bet (rm c) \<ge> min_raise (rm c)) \<Longrightarrow>
         min_raise (rm d) = min_raise (rm c) \<and>
         pending_action_seats (rm d) = pending_action_seats (rm c) - {i}"
  using get_player_after_bet[OF assms(1-4) order.refl]
  by (auto simp: d_def allin_action_def Let_def current_bet_of_def bet_def max_def)

text \<open>
  C9. An all-in bets the whole stack and reopens the betting only when it is a full raise. If it
  exceeds the bet to match by at least the minimum raise, the excess becomes the new minimum and
  everyone else who can act owes an answer; a shorter one raises the bet to match but asks nobody
  again, and leaves the minimum raise as it was.
\<close>

theorem allin_reopens_only_on_full_raise:
  assumes "get_player (rm c) i = Some p" and "\<not> is_folded p" and "\<not> is_bankrupt p" and "0 < chips p"
    and "normalize_action_name (ar_type act) = ''allin''"
  shows "\<exists>d. apply_action i p act c = Accepted d \<and>
     (let bet = current_bet p + chips p; old = current_max_bet (rm c) in
      get_player (rm d) i = Some (commit (chips p) p) \<and> current_max_bet (rm d) = max old bet \<and>
      (if bet > old \<and> bet - old \<ge> min_raise (rm c)
       then min_raise (rm d) = bet - old \<and>
            pending_action_seats (rm d) = set (get_actable_seats (active_clients c) (rm d)) - {i}
       else min_raise (rm d) = min_raise (rm c) \<and>
            pending_action_seats (rm d) = pending_action_seats (rm c) - {i}))"
proof -
  have "0 \<le> chips p" using assms(4) by simp
  note effect = allin_action_effect[OF assms(1-3) this]
  have "apply_action i p act c = Accepted (allin_action i (chips p) c)"
    using assms(4,5) by (simp add: apply_action_def Let_def)
  then show ?thesis
    using effect unfolding Let_def by (intro exI[of _ "allin_action i (chips p) c"]) simp
qed

definition allin_request :: ActionRequest where
  "allin_request = \<lparr>ar_type = ''allin'', ar_raise_by = 0\<rparr>"

lemma allin_reopens_only_on_full_raise_witness:
  "\<exists>d. apply_action 1 (bettor 1 500 100) allin_request (betting_ctx 100) = Accepted d \<and>
     current_max_bet (rm d) = 600 \<and> min_raise (rm d) = 400"
  using allin_reopens_only_on_full_raise[of "betting_ctx 100" 1 "bettor 1 500 100" allin_request]
  by (auto simp: allin_request_def normalize_action_ground)

subsection \<open>Faults and the AI player\<close>





end
