(* ===== verification/Hand_Start.thy ===== *)
theory Hand_Start
  imports Betting_Facts
begin

section \<open>Starting a hand, and players who leave (main.cpp)\<close>

text \<open>
  \<open>start_hand\<close> with the rebuys it applies, \<open>prune_departed_seats\<close> and
  \<open>resolve_disconnect_for_current_hand\<close>. A pending rebuy is a number clients chose, so adding it to a
  stack is checked against the \<open>int\<close> range.
\<close>

definition rebuy_player :: "PlayerState \<Rightarrow> PlayerState" where
  "rebuy_player p =
     p\<lparr>chips := chips p + pending_rebuy p, pending_rebuy := 0, is_bankrupt := False,
       is_folded := False, current_bet := 0\<rparr>"

fun apply_rebuys :: "int list \<Rightarrow> Ctx \<Rightarrow> fault + Ctx" where
  "apply_rebuys [] c = Inr c"
| "apply_rebuys (i # is) c =
     (case get_player (rm c) i of
        None \<Rightarrow> apply_rebuys is c
      | Some p \<Rightarrow>
          let pend = pending_rebuy p
          in if pend \<le> 0 then apply_rebuys is c
             else if \<not> in_i32 (chips p + pend) then Inl Signed_Overflow
             else apply_rebuys is
               (broadcast_activity (seat_name (seat_at (rm c) i) @ '' rebuys $'' @ to_string pend @ ''.'')
                 (on_room (upd_player i rebuy_player) c)))"

definition apply_pending_rebuys :: "Ctx \<Rightarrow> fault + Ctx" where
  "apply_pending_rebuys c = apply_rebuys (smap_keys (players (rm c))) c"

definition send_private_hand :: "int \<Rightarrow> Ctx \<Rightarrow> Ctx" where
  "send_private_hand i c =
     (case get_player (rm c) i of
        None \<Rightarrow> c
      | Some p \<Rightarrow>
          if seat_type (seat_at (rm c) i) \<noteq> SeatPlayer \<or> seat_socket_id (seat_at (rm c) i) = [] then c
          else emit_seat_event i ''private_hand'' (PrivateHand i (hand p)) c)"

text \<open>\<open>reset_hand\<close> and the announcement that follows it.\<close>

definition open_hand :: "(Card list \<Rightarrow> Card list) \<Rightarrow> Ctx \<Rightarrow> Ctx" where
  "open_hand shuf c =
     (let c = on_room (reset_hand shuf (clients_of c)) c
      in broadcast_activity
           (''--- HAND '' @ to_string (hand_num (rm c)) @ '' / '' @ to_string (total_hands (rm c)) @ '' ---'') c)"

definition post_blinds :: "Ctx \<Rightarrow> Ctx" where
  "post_blinds c =
     (let off = (\<lambda>r n. get_active_offset (clients_of c) r (dealer_seat_idx r) n);
          c = on_room (\<lambda>r. r\<lparr>sb_seat_idx := off r 1, bb_seat_idx := off r 2\<rparr>) c;
          c = on_room (\<lambda>r. post_blind (sb_seat_idx r) (small_blind r) r) c;
          c = on_room (\<lambda>r. post_blind (bb_seat_idx r) (big_blind r) r) c;
          c = broadcast_activity (seat_name (seat_at (rm c) (sb_seat_idx (rm c))) @ '' posts SB $'' @
                to_string (small_blind (rm c))) c
      in broadcast_activity (seat_name (seat_at (rm c) (bb_seat_idx (rm c))) @ '' posts BB $'' @
           to_string (big_blind (rm c))) c)"

definition deal_hands :: "Ctx \<Rightarrow> Ctx" where
  "deal_hands c = fold send_private_hand seat_indices (on_room (deal_hole_cards (clients_of c)) c)"

definition start_hand :: "(Card list \<Rightarrow> Card list) \<Rightarrow> Ctx \<Rightarrow> fault + Ctx" where
  "start_hand shuf c =
     (case apply_pending_rebuys (on_room ensure_players_map c) of
        Inl e \<Rightarrow> Inl e
      | Inr c \<Rightarrow>
          let eligible = filter (is_seat_eligible (clients_of c) (rm c)) seat_indices
          in if length eligible < 2 then
               Inr (emit_match_over ''Not enough players with chips to continue.'' c)
             else
               let c = open_hand shuf c;
                   utg = get_active_offset (clients_of c) (rm c) (dealer_seat_idx (rm c)) 3;
                   c = post_blinds c;
                   c = deal_hands c;
                   c = on_room (\<lambda>r. r\<lparr>current_max_bet := big_blind r, min_raise := big_blind r\<rparr>) c;
                   c = on_room (init_pending_action (clients_of c) utg) c;
                   c = broadcast_game c
               in Inr (request_turn c))"

subsection \<open>Players who leave\<close>

definition prune_seat :: "int \<Rightarrow> Ctx \<Rightarrow> Ctx" where
  "prune_seat i c =
     (let seat = seat_at (rm c) i
      in if seat_type seat \<noteq> SeatPlayer then c
         else if seat_socket_id seat \<noteq> [] \<and> is_online (active_clients c) (seat_socket_id seat) then c
         else if seat_disconnected_at seat = 0 then c
         else
           let c = cancel_ai_takeover i c;
               c = (if seat_gameplay_session_id seat = [] then c
                    else with_gameplay_session (seat_gameplay_session_id seat) (seat_user_id seat)
                           (\<lambda>g. g\<lparr>gp_seat_idx := -1, gp_ai_managed := False, gp_ai_takeover_at := 0\<rparr>) c)
           in on_room (\<lambda>r. set_seat i empty_seat (r\<lparr>players := smap_erase i (players r)\<rparr>)) c)"

definition prune_departed_seats :: "Ctx \<Rightarrow> Ctx" where
  "prune_departed_seats c = fold prune_seat seat_indices c"

definition fold_player :: "int \<Rightarrow> 'a Table_scheme \<Rightarrow> 'a Table_scheme" where
  "fold_player i r = upd_player i (\<lambda>p. p\<lparr>is_folded := True\<rparr>) r"

definition resolve_disconnect_for_current_hand :: "int \<Rightarrow> Ctx \<Rightarrow> Ctx" where
  "resolve_disconnect_for_current_hand seat_idx c =
     (case get_player (rm c) seat_idx of
        None \<Rightarrow> c
      | Some p \<Rightarrow>
          let c = on_room (\<lambda>r. drop_pending seat_idx (upd_player seat_idx
                    (\<lambda>p. p\<lparr>sit_out_until_hand := max (sit_out_until_hand p) (hand_num r + 2)\<rparr>) r)) c
          in if active_seat_idx (rm c) \<noteq> seat_idx then
               (if current_max_bet (rm c) > current_bet p then on_room (fold_player seat_idx) c else c)
             else
               let call_amt = max 0 (current_max_bet (rm c) - current_bet p);
                   c = (if call_amt > 0 then
                          announce_action seat_idx '' disconnected. Auto-folded for this hand.'' ''FOLD''
                            (on_room (fold_player seat_idx) c)
                        else
                          announce_action seat_idx
                            '' disconnected. Auto-checked and will leave next hand.'' ''CHECK'' c)
               in if length (get_in_hand_seats (clients_of c) (rm c)) \<le> 1 then finish_hand c
                  else
                    let (done, r) = can_advance_street (rm c); c = c\<lparr>rm := r\<rparr>
                    in if done then proceed_to_next_street c
                       else request_turn (on_room (pass_turn seat_idx) c))"

end
