(* ===== verification/Lobby.thy ===== *)
theory Lobby
  imports Hand_Start
begin

section \<open>The handlers of client requests (main.cpp)\<close>

text \<open>
  One definition per \<open>handle_*\<close> function, for a room that exists. The parameter \<open>sid\<close> is the socket
  of the \<open>Session&\<close> the code passes; since sending an event also writes into that session, handlers
  read it from \<open>sessions\<close> whenever the code does. Random tokens are parameters.
\<close>

definition default_profile :: UserProfileData where
  "default_profile =
     \<lparr>ud_user_id = 0, ud_external_id = [], ud_login_username = [], ud_username = [], ud_avatar = [],
      ud_gold = 10000, ud_games_played = 0, ud_games_won = 0\<rparr>"

definition new_session :: "string \<Rightarrow> Session" where
  "new_session sid =
     \<lparr>ses_socket_id = sid, ses_session_id = [], ses_gameplay_session_id = [], ses_room_id = [],
      ses_seat_idx = -1, ses_name = [], ses_client_id = [], ses_user_id = 0, ses_last_seen_seq = 0,
      ses_authenticated = False, ses_voice_joined = False, ses_profile = default_profile\<rparr>"

definition ses :: "'a Server_scheme \<Rightarrow> string \<Rightarrow> Session" where
  "ses c sid = (case sessions c sid of Some s \<Rightarrow> s | None \<Rightarrow> new_session sid)"

definition write_session :: "string \<Rightarrow> (Session \<Rightarrow> Session) \<Rightarrow> 'a Server_scheme \<Rightarrow> 'a Server_scheme" where
  "write_session sid f c = c\<lparr>sessions := (sessions c)(sid \<mapsto> f (ses c sid))\<rparr>"

definition profile_cache_key :: "UserProfileData \<Rightarrow> string" where
  "profile_cache_key p =
     (if ud_login_username p \<noteq> [] then ud_login_username p
      else if ud_external_id p \<noteq> [] then ud_external_id p
      else ud_username p)"

definition cache_profile :: "UserProfileData \<Rightarrow> 'a Server_scheme \<Rightarrow> 'a Server_scheme" where
  "cache_profile p c = c\<lparr>cached_users := (cached_users c)(profile_cache_key p \<mapsto> p)\<rparr>"

definition player_seat :: "(Seat \<Rightarrow> bool) \<Rightarrow> Room \<Rightarrow> int option" where
  "player_seat P r = find (\<lambda>i. seat_type (seat_at r i) = SeatPlayer \<and> P (seat_at r i)) seat_indices"

definition can_reclaim_started_seat :: "Seat \<Rightarrow> Session \<Rightarrow> string \<Rightarrow> bool" where
  "can_reclaim_started_seat seat s reconnect_token =
     (if seat_type seat \<noteq> SeatPlayer then False
      else if ses_user_id s > 0 \<and> seat_user_id seat > 0 then seat_user_id seat = ses_user_id s
      else if ses_gameplay_session_id s \<noteq> [] \<and>
              seat_gameplay_session_id seat = ses_gameplay_session_id s then True
      else if reconnect_token \<noteq> [] \<and> seat_reconnect_token seat = reconnect_token then True
      else False)"

subsection \<open>Joining\<close>

text \<open>The seat a session may reconnect to: by user, else (for a session without a user) by session or token.\<close>

definition reconnect_seat :: "Room \<Rightarrow> Session \<Rightarrow> string \<Rightarrow> int option" where
  "reconnect_seat r s token =
     (case player_seat (\<lambda>seat. seat_user_id seat = ud_user_id (ses_profile s)) r of
        Some i \<Rightarrow> Some i
      | None \<Rightarrow>
          if ses_user_id s > 0 then None
          else case player_seat (\<lambda>seat. ses_gameplay_session_id s \<noteq> [] \<and>
                      seat_gameplay_session_id seat = ses_gameplay_session_id s) r of
                 Some i \<Rightarrow> Some i
               | None \<Rightarrow> player_seat (\<lambda>seat. token \<noteq> [] \<and> seat_reconnect_token seat = token) r)"

text \<open>What the join writes into the session before it looks for a seat.\<close>

definition enter_room :: "JoinRoomRequest \<Rightarrow> string \<Rightarrow> string \<Rightarrow> Ctx \<Rightarrow> Ctx" where
  "enter_room req room sid c =
     (let c = write_session sid (\<lambda>s.
            let s = s\<lparr>ses_room_id := room,
                      ses_name := (if ud_username (ses_profile s) = [] then ''Player''
                                   else ud_username (ses_profile s)),
                      ses_client_id := jr_client_id req\<rparr>
            in if jr_session_id req \<noteq> [] then s\<lparr>ses_gameplay_session_id := jr_session_id req\<rparr> else s) c;
          gid = ses_gameplay_session_id (ses c sid);
          c = (if gid = [] then c
               else
                 let c = with_gameplay_session gid (ses_user_id (ses c sid)) (\<lambda>g. g\<lparr>gp_room_id := room\<rparr>) c
                 in write_session sid (\<lambda>s. s\<lparr>ses_last_seen_seq :=
                      (case gameplay_sessions c gid of Some g \<Rightarrow> gp_last_seen_seq g | None \<Rightarrow> 0)\<rparr>) c);
          c = cache_profile (ses_profile (ses c sid)) c
      in c\<lparr>pending_match_rooms := (pending_match_rooms c)(ud_user_id (ses_profile (ses c sid)) := None)\<rparr>)"

definition reconnected_gameplay :: "string \<Rightarrow> int \<Rightarrow> string \<Rightarrow> GameplaySession \<Rightarrow> GameplaySession" where
  "reconnected_gameplay room i token g =
     g\<lparr>gp_room_id := room, gp_seat_idx := i, gp_reconnect_token := token, gp_last_disconnect_at := 0,
       gp_ai_managed := False, gp_ai_takeover_at := 0\<rparr>"

text \<open>\<open>session.gameplay_session_id\<close> and the seat's are made to agree, the session's winning.\<close>

definition link_gameplay :: "int \<Rightarrow> string \<Rightarrow> Ctx \<Rightarrow> Ctx" where
  "link_gameplay i sid c =
     (let gid = ses_gameplay_session_id (ses c sid)
      in if gid \<noteq> [] then
           on_room (\<lambda>r. set_seat i ((seat_at r i)\<lparr>seat_gameplay_session_id := gid\<rparr>) r) c
         else write_session sid (\<lambda>s. s\<lparr>ses_gameplay_session_id := seat_gameplay_session_id (seat_at (rm c) i)\<rparr>) c)"

definition reconnect_to_seat :: "int \<Rightarrow> string \<Rightarrow> string \<Rightarrow> Ctx \<Rightarrow> Ctx" where
  "reconnect_to_seat i room sid c =
     (let s = ses c sid;
          c = on_room (\<lambda>r. set_seat i ((seat_at r i)\<lparr>seat_socket_id := ses_socket_id s,
                seat_name := ses_name s, seat_user_id := ud_user_id (ses_profile s)\<rparr>) r) c;
          c = link_gameplay i sid c;
          s = ses c sid;
          c = on_room (\<lambda>r. set_seat i ((seat_at r i)\<lparr>seat_client_id :=
                 (if ses_client_id s \<noteq> [] then ses_client_id s else seat_client_id (seat_at r i)),
                 seat_disconnected_at := 0\<rparr>) r) c;
          c = cancel_ai_takeover i c;
          c = write_session sid (\<lambda>s. s\<lparr>ses_seat_idx := i\<rparr>) c;
          gid = ses_gameplay_session_id (ses c sid)
      in if gid = [] then c
         else with_gameplay_session gid (ses_user_id (ses c sid))
                (reconnected_gameplay room i (seat_reconnect_token (seat_at (rm c) i))) c)"

definition profile_msg :: "UserProfileData \<Rightarrow> UserProfileMsg" where
  "profile_msg p =
     \<lparr>up_user_id = ud_user_id p, up_external_id = ud_external_id p, up_username = ud_username p,
      up_avatar = ud_avatar p, up_gold = ud_gold p, up_games_played = ud_games_played p,
      up_games_won = ud_games_won p\<rparr>"

definition admit :: "string \<Rightarrow> Ctx \<Rightarrow> Ctx" where
  "admit sid c =
     (let c = on_room (\<lambda>r. r\<lparr>status := (if started r then ''playing'' else ''waiting''),
                host_socket_id := (if host_socket_id r = [] \<or> \<not> is_online (active_clients c) (host_socket_id r)
                                   then ses_socket_id (ses c sid) else host_socket_id r),
                socket_ids := insert (ses_socket_id (ses c sid)) (socket_ids r), empty_since := None\<rparr>) c;
          c = send_event sid ''user_profile'' (UserProfile (profile_msg (ses_profile (ses c sid)))) c;
          playing = (\<lambda>c. started (rm c) \<and> \<not> closing (rm c) \<and> ses_seat_idx (ses c sid) \<ge> 0);
          c = send_full_state_sync (ses c sid) (playing c) c;
          c = broadcast_room c;
          c = broadcast_game c
      in if playing c then
           let c = replay_missed_events sid c
           in if round_phase_from_string (round_name (rm c)) \<noteq> HandOver then request_turn c else c
         else c)"

definition handle_join_room :: "string \<Rightarrow> JoinRoomRequest \<Rightarrow> string \<Rightarrow> Ctx \<Rightarrow> Ctx" where
  "handle_join_room room req sid c =
     (let c = on_room (\<lambda>r. r\<lparr>last_active_at := now c\<rparr>) c
      in if closing (rm c) then
           send_error sid ''This room has ended and is closing. Please rejoin in a moment (or use a new Room ID).'' c
         else
           let c = enter_room req room sid c
           in if started (rm c) then
                case reconnect_seat (rm c) (ses c sid) (jr_reconnect_token req) of
                  None \<Rightarrow> send_error sid
                    ''Game already started in this room. You can only rejoin if you were already seated.'' c
                | Some i \<Rightarrow> admit sid (reconnect_to_seat i room sid c)
              else admit sid c)"

subsection \<open>Seats\<close>

definition seat_session_msg :: "int \<Rightarrow> Session \<Rightarrow> Room \<Rightarrow> message" where
  "seat_session_msg i s r =
     SeatSession \<lparr>ss_room_id = room_id r, ss_reconnect_token = seat_reconnect_token (seat_at r i),
                  ss_session_id = ses_gameplay_session_id s, ss_last_seen_seq = ses_last_seen_seq s\<rparr>"

definition reclaim_seat :: "int \<Rightarrow> string \<Rightarrow> Ctx \<Rightarrow> Ctx" where
  "reclaim_seat i sid c =
     (let s = ses c sid;
          c = on_room (\<lambda>r. set_seat i ((seat_at r i)\<lparr>seat_socket_id := ses_socket_id s,
                seat_user_id := ud_user_id (ses_profile s)\<rparr>) r) c;
          c = link_gameplay i sid c;
          c = on_room (\<lambda>r. set_seat i ((seat_at r i)\<lparr>seat_disconnected_at := 0\<rparr>) r) c;
          c = cancel_ai_takeover i c;
          c = write_session sid (\<lambda>s. s\<lparr>ses_seat_idx := i\<rparr>) c;
          c = send_event sid ''seat_session'' (seat_session_msg i (ses c sid) (rm c)) c;
          gid = ses_gameplay_session_id (ses c sid);
          c = (if gid = [] then c
               else with_gameplay_session gid (ses_user_id (ses c sid))
                 (reconnected_gameplay (room_id (rm c)) i (seat_reconnect_token (seat_at (rm c) i))) c);
          c = send_full_state_sync (ses c sid) True c;
          c = broadcast_room c;
          c = broadcast_game c
      in replay_missed_events sid c)"

text \<open>\<open>for (i) if (seats[i] is this socket's) seats[i] = Seat{};\<close>\<close>

definition leave_seats :: "string \<Rightarrow> Room \<Rightarrow> Room" where
  "leave_seats sid r =
     r\<lparr>seats := map (\<lambda>s. if seat_type s = SeatPlayer \<and> seat_socket_id s = sid then empty_seat else s) (seats r)\<rparr>"

definition sit_down :: "string \<Rightarrow> string \<Rightarrow> int \<Rightarrow> string \<Rightarrow> Ctx \<Rightarrow> Ctx" where
  "sit_down session_token seat_token i sid c =
     (let c = on_room (leave_seats sid) c;
          c = write_session sid (\<lambda>s. if ses_gameplay_session_id s = []
                                      then s\<lparr>ses_gameplay_session_id := session_token\<rparr> else s) c;
          s = ses c sid;
          gid = ses_gameplay_session_id s;
          seat = empty_seat\<lparr>seat_type := SeatPlayer, seat_socket_id := ses_socket_id s,
                   seat_name := (if ses_name s = [] then ''Player'' else ses_name s),
                   seat_client_id := ses_client_id s, seat_decor := ''none'',
                   seat_user_id := ud_user_id (ses_profile s), seat_gameplay_session_id := gid,
                   seat_reconnect_token := seat_token\<rparr>;
          c = on_room (set_seat i seat) c;
          c = write_session sid (\<lambda>s. s\<lparr>ses_seat_idx := i\<rparr>) c;
          c = with_gameplay_session gid (ses_user_id s) (reconnected_gameplay (room_id (rm c)) i seat_token) c;
          c = write_session sid (\<lambda>s. s\<lparr>ses_last_seen_seq :=
                 (case gameplay_sessions c gid of Some g \<Rightarrow> gp_last_seen_seq g | None \<Rightarrow> 0)\<rparr>) c;
          c = on_room ensure_players_map c;
          c = send_event sid ''seat_taken'' (SeatTaken i) c;
          c = send_event sid ''seat_session'' (seat_session_msg i (ses c sid) (rm c)) c;
          c = emit_you_state (ses c sid) c;
          c = broadcast_room c
      in broadcast_game c)"

definition handle_take_seat :: "string \<Rightarrow> string \<Rightarrow> int \<Rightarrow> string \<Rightarrow> string \<Rightarrow> Ctx \<Rightarrow> Ctx" where
  "handle_take_seat session_token seat_token i reconnect_token sid c =
     (if closing (rm c) then send_error sid ''Cannot take seat: room is closing.'' c
      else if i < 0 \<or> i \<ge> kSeats then send_error sid ''Cannot take seat: invalid seat index.'' c
      else if started (rm c) then
        if \<not> can_reclaim_started_seat (seat_at (rm c) i) (ses c sid) reconnect_token then
          send_error sid ''Cannot take seat: this started seat cannot be reclaimed by current session.'' c
        else reclaim_seat i sid c
      else if seat_type (seat_at (rm c) i) \<noteq> SeatEmpty \<and>
              seat_socket_id (seat_at (rm c) i) \<noteq> ses_socket_id (ses c sid) then
        send_error sid ''Cannot take seat: seat already occupied.'' c
      else sit_down session_token seat_token i sid c)"

definition broadcast_both :: "Ctx \<Rightarrow> Ctx" where
  "broadcast_both c = broadcast_game (broadcast_room c)"

definition handle_toggle_ai :: "int \<Rightarrow> string \<Rightarrow> Ctx \<Rightarrow> Ctx" where
  "handle_toggle_ai i sid c =
     (if started (rm c) then send_error sid ''Cannot toggle AI: game already started.'' c
      else if closing (rm c) then send_error sid ''Cannot toggle AI: room is closing.'' c
      else if ses_socket_id (ses c sid) \<noteq> host_socket_id (rm c) then
        send_error sid ''Cannot toggle AI: only host can add or remove AI.'' c
      else if i < 0 \<or> i \<ge> kSeats then send_error sid ''Cannot toggle AI: invalid seat index.'' c
      else if seat_type (seat_at (rm c) i) = SeatPlayer then
        send_error sid ''Cannot toggle AI: player is already seated there.'' c
      else if seat_type (seat_at (rm c) i) = SeatAI then
        broadcast_both (on_room (\<lambda>r. set_seat i empty_seat (r\<lparr>players := smap_erase i (players r)\<rparr>)) c)
      else
        broadcast_both (on_room (\<lambda>r. ensure_players_map
          (set_seat i ((seat_at r i)\<lparr>seat_type := SeatAI, seat_name := ''AI-'' @ to_string i\<rparr>) r)) c))"

definition notify_seat :: "int \<Rightarrow> string \<Rightarrow> message \<Rightarrow> Ctx \<Rightarrow> Ctx" where
  "notify_seat i event msg c =
     (let socket = seat_socket_id (seat_at (rm c) i)
      in if is_online (active_clients c) socket then send_event socket event msg c else c)"

definition kick_from_hand :: "int \<Rightarrow> Ctx \<Rightarrow> Ctx" where
  "kick_from_hand i c =
     (let c = on_room (\<lambda>r. drop_pending i (upd_player i
                (\<lambda>p. p\<lparr>is_folded := True, sit_out_until_hand := hand_num r + 1\<rparr>) r)) c;
          c = notify_seat i ''kicked_in_hand''
                (Kicked i ''You were removed from this hand by host. You can rejoin next hand.'') c;
          c = announce_action i '' was removed by host (sit out until next hand).'' ''FOLD'' c
      in if length (get_in_hand_seats (clients_of c) (rm c)) \<le> 1 then finish_hand c
         else
           let c = on_room (\<lambda>r. if active_seat_idx r = i then pass_turn i r else r) c;
               (done, r) = can_advance_street (rm c); c = c\<lparr>rm := r\<rparr>
           in broadcast_both (if done then proceed_to_next_street c else request_turn c))"

definition handle_kick_seat :: "int \<Rightarrow> string \<Rightarrow> Ctx \<Rightarrow> Ctx" where
  "handle_kick_seat i sid c =
     (if closing (rm c) \<or> ses_socket_id (ses c sid) \<noteq> host_socket_id (rm c) then c
      else if i < 0 \<or> i \<ge> kSeats then c
      else if seat_type (seat_at (rm c) i) \<noteq> SeatPlayer then c
      else if started (rm c) then kick_from_hand i c
      else
        let c = notify_seat i ''kicked'' (Kicked i ''You were removed from this seat by host.'') c
        in broadcast_both (on_room (\<lambda>r. set_seat i empty_seat (r\<lparr>players := smap_erase i (players r)\<rparr>)) c))"

end
