(* ===== verification/Requests.thy ===== *)
theory Requests
  imports Lobby
begin

section \<open>The game requests and the server's rooms (main.cpp)\<close>

text \<open>
  The rest of the \<open>handle_*\<close> functions, and the dispatch of \<open>on_ws_message\<close> over all rooms. A handler
  that may erase its room from \<open>rooms_\<close> returns a flag that tells so. Sums and indices that depend on
  a number a client sent, unchecked, end in a \<open>fault\<close>.
\<close>

subsection \<open>The match\<close>

definition restart_player :: "int \<Rightarrow> PlayerState \<Rightarrow> PlayerState" where
  "restart_player initial p =
     p\<lparr>chips := initial, total_buy_in := initial, current_bet := 0, pending_rebuy := 0,
       sit_out_until_hand := 0, is_bankrupt := False, is_folded := False\<rparr>"

definition clamp :: "int \<Rightarrow> int \<Rightarrow> int \<Rightarrow> int" where
  "clamp x lo hi = (if x < lo then lo else if hi < x then hi else x)"

definition open_match :: "StartGameRequest \<Rightarrow> 'a Table_scheme \<Rightarrow> 'a Table_scheme" where
  "open_match req r =
     (let r = r\<lparr>total_hands := clamp (sg_total_hands req) 1 50,
                initial_chips := max 1000 (sg_initial_chips req), hand_num := 0, dealer_seat_idx := 0\<rparr>;
          r = ensure_players_map r
      in r\<lparr>players := smap_each (\<lambda>_. restart_player (initial_chips r)) (players r)\<rparr>)"

definition handle_start_game ::
  "(Card list \<Rightarrow> Card list) \<Rightarrow> StartGameRequest \<Rightarrow> string \<Rightarrow> Ctx \<Rightarrow> fault + Ctx" where
  "handle_start_game shuf req sid c =
     (if started (rm c) \<or> closing (rm c) \<or> ses_socket_id (ses c sid) \<noteq> host_socket_id (rm c) then Inr c
      else if length (filter (\<lambda>s. seat_type s \<noteq> SeatEmpty) (seats (rm c))) < 3 then
        Inr (send_error sid ''At least 3 players (including AI) are needed to start!'' c)
      else
        let c = on_room (\<lambda>r. open_match req (r\<lparr>started := True, status := ''playing''\<rparr>)) c
        in start_hand shuf (broadcast_room c))"

definition handle_player_action :: "ActionRequest \<Rightarrow> string \<Rightarrow> Ctx \<Rightarrow> fault + Ctx" where
  "handle_player_action act sid c =
     (let s = ses c sid; i = ses_seat_idx s; seat = seat_at (rm c) i
      in if \<not> started (rm c) \<or> i < 0 then
           Inr (send_error sid ''Action rejected: no active started room for this session.'' c)
         else if i \<ge> kSeats then Inr (send_error sid ''Action rejected: invalid seat index.'' c)
         else if seat_type seat \<noteq> SeatPlayer then
           Inr (send_error sid ''Action rejected: this seat is not controlled by a player.'' c)
         else if seat_user_id seat > 0 \<and> seat_user_id seat \<noteq> ses_user_id s then
           Inr (send_error sid ''Action rejected: seat ownership mismatch.'' c)
         else if seat_socket_id seat \<noteq> [] \<and> seat_socket_id seat \<noteq> ses_socket_id s \<and>
                 \<not> seat_ai_managed seat then
           Inr (send_error sid ''Action rejected: socket no longer owns this seat.'' c)
         else handle_action i act (ses_socket_id s) c)"

definition handle_next_hand :: "(Card list \<Rightarrow> Card list) \<Rightarrow> string \<Rightarrow> Ctx \<Rightarrow> fault + Ctx" where
  "handle_next_hand shuf sid c =
     (if \<not> started (rm c) \<or> ses_socket_id (ses c sid) \<noteq> host_socket_id (rm c) then Inr c
      else if pot (rm c) \<noteq> 0 then Inr c
      else if hand_num (rm c) \<ge> total_hands (rm c) then Inr (emit_match_over [] c)
      else
        let c = on_room (\<lambda>r. r\<lparr>dealer_seat_idx := (dealer_seat_idx r + 1) mod kSeats\<rparr>) c
        in start_hand shuf (broadcast_room (prune_departed_seats c)))"

subsection \<open>Rebuys\<close>

text \<open>\<open>pending_rebuy += amount; total_buy_in += amount\<close>, announced.\<close>

definition grant_rebuy :: "int \<Rightarrow> int \<Rightarrow> string \<Rightarrow> Ctx \<Rightarrow> fault + Ctx" where
  "grant_rebuy i amount line c =
     (case get_player (rm c) i of
        None \<Rightarrow> Inr c
      | Some p \<Rightarrow>
          if \<not> in_i32 (pending_rebuy p + amount) \<or> \<not> in_i32 (total_buy_in p + amount) then Inl Signed_Overflow
          else
            let c = on_room (upd_player i (\<lambda>p. p\<lparr>pending_rebuy := pending_rebuy p + amount,
                      total_buy_in := total_buy_in p + amount\<rparr>)) c
            in Inr (broadcast_game (broadcast_activity (seat_label c i @ line) c)))"

definition bad_rebuy :: "int \<Rightarrow> bool" where
  "bad_rebuy amount \<longleftrightarrow> amount < 1000 \<or> amount mod 50 \<noteq> 0"

definition rebuy_seat :: "string \<Rightarrow> Ctx \<Rightarrow> PlayerState option" where
  "rebuy_seat sid c =
     (let i = ses_seat_idx (ses c sid)
      in if \<not> started (rm c) \<or> closing (rm c) \<or> i < 0 then None
         else case get_player (rm c) i of
                None \<Rightarrow> None | Some p \<Rightarrow> if chips p > 0 then None else Some p)"

definition handle_rebuy :: "int \<Rightarrow> string \<Rightarrow> Ctx \<Rightarrow> fault + Ctx" where
  "handle_rebuy amount sid c =
     (if rebuy_seat sid c = None then Inr c
      else if bad_rebuy amount then
        Inr (send_error sid ''Rebuy amount must be >= 1000 and a multiple of 50.'' c)
      else grant_rebuy (ses_seat_idx (ses c sid)) amount
             ('' rebuys $'' @ to_string amount @ '' (applies next hand).'') c)"

definition handle_rebuy_request :: "int \<Rightarrow> string \<Rightarrow> Ctx \<Rightarrow> Ctx" where
  "handle_rebuy_request amount sid c =
     (let i = ses_seat_idx (ses c sid); host = host_socket_id (rm c)
      in if rebuy_seat sid c = None then c
         else if bad_rebuy amount then
           send_error sid ''Rebuy amount must be >= 1000 and a multiple of 50.'' c
         else if \<not> is_online (active_clients c) host then
           send_error sid ''Host is offline. Cannot approve rebuy right now.'' c
         else send_event host ''rebuy_requested'' (RebuyRequested i (seat_label c i) amount) c)"

definition host_may_rule :: "string \<Rightarrow> Ctx \<Rightarrow> bool" where
  "host_may_rule sid c \<longleftrightarrow>
     started (rm c) \<and> \<not> closing (rm c) \<and> ses_socket_id (ses c sid) = host_socket_id (rm c)"

definition handle_rebuy_approve :: "int \<Rightarrow> int \<Rightarrow> string \<Rightarrow> Ctx \<Rightarrow> fault + Ctx" where
  "handle_rebuy_approve i amount sid c =
     (if \<not> host_may_rule sid c then Inr c
      else if get_player (rm c) i = None \<or> bad_rebuy amount then Inr c
      else grant_rebuy i amount ('' rebuy approved: $'' @ to_string amount @ '' (applies next hand).'') c)"

definition handle_rebuy_deny :: "int \<Rightarrow> string \<Rightarrow> Ctx \<Rightarrow> fault + Ctx" where
  "handle_rebuy_deny i sid c =
     (if \<not> host_may_rule sid c then Inr c
      else if i < 0 \<or> i \<ge> kSeats then Inl Out_Of_Bounds
      else
        let seat = seat_at (rm c) i
        in if seat_type seat \<noteq> SeatPlayer \<or> \<not> is_online (active_clients c) (seat_socket_id seat) then Inr c
           else
             let c = send_event (seat_socket_id seat) ''rebuy_denied'' (RebuyDenied ''Rebuy denied by host.'') c
             in Inr (broadcast_activity (seat_name seat @ '' rebuy denied.'') c))"

subsection \<open>Decor, acknowledgements and voice\<close>

definition handle_set_decor :: "string \<Rightarrow> string \<Rightarrow> Ctx \<Rightarrow> Ctx" where
  "handle_set_decor decor sid c =
     (let i = ses_seat_idx (ses c sid)
      in if closing (rm c) \<or> i < 0 then c
         else if decor \<notin> {''none'', ''cola'', ''coffee'', ''wine'', ''cigar''} then c
         else broadcast_both (on_room (\<lambda>r. (set_seat i ((seat_at r i)\<lparr>seat_decor := decor\<rparr>) r)
                \<lparr>last_active_at := now c\<rparr>) c))"

definition handle_ack_match_over :: "string \<Rightarrow> Ctx \<Rightarrow> bool \<times> Ctx" where
  "handle_ack_match_over sid c =
     (if \<not> closing (rm c) then (False, c)
      else release_room_if_done
        (on_room (\<lambda>r. r\<lparr>match_acks := insert (ses_socket_id (ses c sid)) (match_acks r)\<rparr>) c))"

text \<open>\<open>for (sid : voice_participants) if (P sid) send_event(sid, ...)\<close>.\<close>

definition tell_voice :: "(string \<Rightarrow> bool) \<Rightarrow> string \<Rightarrow> message \<Rightarrow> Ctx \<Rightarrow> Ctx" where
  "tell_voice P event msg c =
     fold (\<lambda>k c. send_event k event msg c) (filter P (smap_keys (voice_participants (rm c)))) c"

definition handle_voice_join :: "string \<Rightarrow> Ctx \<Rightarrow> Ctx" where
  "handle_voice_join sid c =
     (let s = ses c sid; i = ses_seat_idx s; me = ses_socket_id s; seat = seat_at (rm c) i
      in if i < 0 \<or> seat_type seat \<noteq> SeatPlayer \<or> seat_socket_id seat \<noteq> me then c
         else
           let peer = \<lparr>vp_socket_id = me, vp_seat_idx = i, vp_name = seat_name seat\<rparr>;
               c = on_room (\<lambda>r. r\<lparr>voice_participants := smap_put me peer (voice_participants r)\<rparr>) c;
               c = write_session sid (\<lambda>s. s\<lparr>ses_voice_joined := True\<rparr>) c;
               peers = map snd (filter (\<lambda>(k, _). k \<noteq> me) (voice_participants (rm c)));
               c = send_event me ''voice_peers'' (VoicePeers peers) c
           in tell_voice (\<lambda>k. k \<noteq> me) ''voice_peer_joined'' (VoicePeerJoined peer) c)"

definition leave_voice :: "string \<Rightarrow> Ctx \<Rightarrow> Ctx" where
  "leave_voice me c =
     (if smap_get (voice_participants (rm c)) me = None then c
      else
        let c = on_room (\<lambda>r. r\<lparr>voice_participants := smap_erase me (voice_participants r)\<rparr>) c
        in tell_voice (\<lambda>_. True) ''voice_peer_left'' (VoicePeerLeft me) c)"

definition handle_voice_leave :: "string \<Rightarrow> Ctx \<Rightarrow> Ctx" where
  "handle_voice_leave sid c =
     (let me = ses_socket_id (ses c sid)
      in if smap_get (voice_participants (rm c)) me = None then c
         else leave_voice me (write_session sid (\<lambda>s. s\<lparr>ses_voice_joined := False\<rparr>) c))"

definition handle_voice_signal :: "string \<Rightarrow> string \<Rightarrow> string \<Rightarrow> Ctx \<Rightarrow> Ctx" where
  "handle_voice_signal to_sid data sid c =
     (let me = ses_socket_id (ses c sid); vp = voice_participants (rm c)
      in if \<not> ses_voice_joined (ses c sid) then c
         else if smap_get vp me = None \<or> smap_get vp to_sid = None then c
         else send_event to_sid ''voice_signal'' (VoiceSignal me to_sid data) c)"

subsection \<open>Losing a connection\<close>

definition disconnect_seat :: "string \<Rightarrow> int \<Rightarrow> Ctx \<Rightarrow> Ctx" where
  "disconnect_seat sid i c =
     (let seat = seat_at (rm c) i
      in if seat_type seat \<noteq> SeatPlayer \<or> seat_socket_id seat \<noteq> sid then c
         else
           let c = (if seat_gameplay_session_id seat = [] then c
                    else with_gameplay_session (seat_gameplay_session_id seat) (seat_user_id seat)
                      (\<lambda>g. g\<lparr>gp_room_id := room_id (rm c), gp_seat_idx := i,
                             gp_reconnect_token := seat_reconnect_token seat,
                             gp_last_disconnect_at := now c, gp_ai_managed := seat_ai_managed seat,
                             gp_ai_takeover_at := seat_ai_takeover_at seat,
                             gp_last_seen_seq := max (gp_last_seen_seq g) (ses_last_seen_seq (ses c sid))\<rparr>) c)
           in if started (rm c) then
                resolve_disconnect_for_current_hand i
                  (on_room (set_seat i (seat\<lparr>seat_socket_id := [], seat_disconnected_at := now c\<rparr>)) c)
              else
                on_room (\<lambda>r. set_seat i empty_seat (r\<lparr>players := smap_erase i (players r)\<rparr>))
                  (cancel_ai_takeover i c))"

definition hand_over_host :: "string \<Rightarrow> Ctx \<Rightarrow> Ctx" where
  "hand_over_host sid c =
     (if host_socket_id (rm c) \<noteq> sid then c
      else on_room (\<lambda>r. r\<lparr>host_socket_id :=
        (case find (\<lambda>s. seat_type s = SeatPlayer \<and> is_online (active_clients c) (seat_socket_id s)) (seats r) of
           Some s \<Rightarrow> seat_socket_id s | None \<Rightarrow> [])\<rparr>) c)"

definition drop_snapshot :: "Ctx \<Rightarrow> Ctx" where
  "drop_snapshot c = c\<lparr>snapshot_timers := snapshot_timers c - {room_id (rm c)}\<rparr>"

definition handle_disconnect :: "string \<Rightarrow> Ctx \<Rightarrow> bool \<times> Ctx" where
  "handle_disconnect sid c =
     (let c = on_room (\<lambda>r. let ids = socket_ids r - {sid}
                in r\<lparr>socket_ids := ids, empty_since := (if ids = {} then Some (now c) else empty_since r)\<rparr>) c;
          acking = (closing (rm c) \<and> sid \<in> expected_acks (rm c));
          c = (if acking then on_room (\<lambda>r. r\<lparr>expected_acks := expected_acks r - {sid},
                                               match_acks := match_acks r - {sid}\<rparr>) c else c)
      in if acking \<and> expected_acks (rm c) = {} then (True, drop_snapshot c)
         else
           let c = leave_voice sid c;
               c = fold (disconnect_seat sid) seat_indices c;
               c = hand_over_host sid c
           in if list_all (\<lambda>s. seat_type s = SeatEmpty) (seats (rm c)) then (True, drop_snapshot c)
              else (False, broadcast_both c))"

subsection \<open>Dispatch\<close>

text \<open>The envelopes a client can send, decoded; decoding is the protobuf library's.\<close>

datatype request =
    JoinRoom JoinRoomRequest
  | TakeSeat int string
  | ToggleAi int
  | KickSeat int
  | StartGame StartGameRequest
  | Act ActionRequest
  | NextHand
  | Rebuy int
  | RebuyRequest int
  | RebuyApprove int int
  | RebuyDeny int
  | SetDecor string
  | AckMatchOver
  | VoiceJoin
  | VoiceLeave
  | VoiceSignalTo string string

text \<open>What the generator \<open>rng_\<close> yields during one event.\<close>

record Chance =
  shuffle :: "Card list \<Rightarrow> Card list"
  token1 :: string
  token2 :: string
  uniform :: real

definition handle_request :: "Chance \<Rightarrow> request \<Rightarrow> string \<Rightarrow> Ctx \<Rightarrow> fault + bool \<times> Ctx" where
  "handle_request ch req sid c =
     (let keep = map_sum id (Pair False)
      in case req of
           JoinRoom jr \<Rightarrow> Inr (False, handle_join_room (to_upper_room_code (jr_room_id jr)) jr sid c)
         | TakeSeat i token \<Rightarrow> Inr (False, handle_take_seat (token1 ch) (token2 ch) i token sid c)
         | ToggleAi i \<Rightarrow> Inr (False, handle_toggle_ai i sid c)
         | KickSeat i \<Rightarrow> Inr (False, handle_kick_seat i sid c)
         | StartGame sg \<Rightarrow> keep (handle_start_game (shuffle ch) sg sid c)
         | Act act \<Rightarrow> keep (handle_player_action act sid c)
         | NextHand \<Rightarrow> keep (handle_next_hand (shuffle ch) sid c)
         | Rebuy amount \<Rightarrow> keep (handle_rebuy amount sid c)
         | RebuyRequest amount \<Rightarrow> Inr (False, handle_rebuy_request amount sid c)
         | RebuyApprove i amount \<Rightarrow> keep (handle_rebuy_approve i amount sid c)
         | RebuyDeny i \<Rightarrow> keep (handle_rebuy_deny i sid c)
         | SetDecor decor \<Rightarrow> Inr (False, handle_set_decor decor sid c)
         | AckMatchOver \<Rightarrow> Inr (handle_ack_match_over sid c)
         | VoiceJoin \<Rightarrow> Inr (False, handle_voice_join sid c)
         | VoiceLeave \<Rightarrow> Inr (False, handle_voice_leave sid c)
         | VoiceSignalTo to_sid data \<Rightarrow> Inr (False, handle_voice_signal to_sid data sid c))"

record World = Server +
  rooms :: "string \<rightharpoonup> Room"

definition open_room :: "World \<Rightarrow> Room \<Rightarrow> Ctx" where
  "open_room w r = Server.extend (Server.truncate w) (Ctx.fields r)"

definition close_room :: "string \<Rightarrow> World \<Rightarrow> bool \<times> Ctx \<Rightarrow> World" where
  "close_room key w res =
     Server.extend (Server.truncate (snd res))
       (World.fields ((rooms w)(key := (if fst res then None else Some (rm (snd res))))))"

text \<open>What a handler does when \<open>get_room\<close> finds nothing.\<close>

definition no_room :: "request \<Rightarrow> string \<Rightarrow> World \<Rightarrow> World" where
  "no_room req sid w =
     (case req of
        JoinRoom jr \<Rightarrow> send_error sid ''Room not found.'' w
      | TakeSeat _ _ \<Rightarrow> send_error sid ''Cannot take seat: room not found.'' w
      | ToggleAi _ \<Rightarrow> send_error sid ''Cannot toggle AI: room not found.'' w
      | Act _ \<Rightarrow> send_error sid ''Action rejected: no active started room for this session.'' w
      | _ \<Rightarrow> w)"

definition target_room :: "request \<Rightarrow> Session \<Rightarrow> string" where
  "target_room req s =
     (case req of JoinRoom jr \<Rightarrow> to_upper_room_code (jr_room_id jr) | _ \<Rightarrow> ses_room_id s)"

definition refused :: "request \<Rightarrow> Session \<Rightarrow> bool" where
  "refused req s \<longleftrightarrow> (case req of JoinRoom _ \<Rightarrow> \<not> ses_authenticated s | _ \<Rightarrow> False)"

definition on_ws_message :: "Chance \<Rightarrow> request \<Rightarrow> string \<Rightarrow> World \<Rightarrow> fault + World" where
  "on_ws_message ch req sid w =
     (case sessions w sid of
        None \<Rightarrow> Inr w
      | Some s \<Rightarrow>
          if refused req s then Inr (send_error sid ''Please log in before joining a room.'' w)
          else
            let key = target_room req s
            in if (case req of JoinRoom _ \<Rightarrow> key = [] | _ \<Rightarrow> False) then Inr w
               else case rooms w key of
                      None \<Rightarrow> Inr (no_room req sid w)
                    | Some r \<Rightarrow> map_sum id (close_room key w) (handle_request ch req sid (open_room w r)))"

text \<open>\<open>handle_disconnect(it->second); sessions_.erase(it);\<close>\<close>

definition end_session :: "string \<Rightarrow> World \<Rightarrow> World" where
  "end_session sid w =
     (case sessions w sid of
        None \<Rightarrow> w
      | Some s \<Rightarrow>
          let w = (case rooms w (ses_room_id s) of
                     None \<Rightarrow> w
                   | Some r \<Rightarrow> close_room (ses_room_id s) w (handle_disconnect sid (open_room w r)))
          in w\<lparr>sessions := (sessions w)(sid := None)\<rparr>)"

text \<open>The gateway reports that a client is gone.\<close>

definition remove_session :: "string \<Rightarrow> World \<Rightarrow> World" where
  "remove_session sid w =
     (if sid = [] then w else end_session sid (w\<lparr>active_clients := active_clients w - {sid}\<rparr>))"

text \<open>The AI timer of a room fires.\<close>

definition fire_ai_timer :: "Chance \<Rightarrow> string \<Rightarrow> World \<Rightarrow> fault + World" where
  "fire_ai_timer ch key w =
     (case rooms w key of
        None \<Rightarrow> Inr w
      | Some r \<Rightarrow>
          map_sum id (\<lambda>c. close_room key w (False, c)) (ai_timer_fires (uniform ch) (open_room w r)))"

end
