(* ===== verification/Hand_Start_Facts.thy ===== *)
theory Hand_Start_Facts
  imports Hand_Start
begin

section \<open>A new hand starts with the chips the players own\<close>

text \<open>
  The start of a hand keeps the players' money: their stacks, their pending rebuys and the blinds they post
  add up, and the table stays well formed.
\<close>

subsection \<open>The player table\<close>

lemma smap_put_sum:
  "smap_wf m \<Longrightarrow> smap_get m k = None \<Longrightarrow> smap_sum f (smap_put k v m) = smap_sum f m + f v"
  by (induction k v m rule: smap_put.induct) (auto simp: smap_wf_def split: if_splits)

lemma smap_put_vals: "set (smap_vals (smap_put k v m)) \<subseteq> insert v (set (smap_vals m))"
  by (induction k v m rule: smap_put.induct) (auto simp: smap_vals_def)

lemma add_missing_player_ok:
  assumes "table_ok r" "i \<in> set seat_indices"
  shows "table_ok (add_missing_player i r)" "initial_chips (add_missing_player i r) = initial_chips r"
proof -
  show "initial_chips (add_missing_player i r) = initial_chips r"
    by (simp add: add_missing_player_def split: option.split)
  have "player_ok (new_player r i)"
    using assms(1) by (simp add: table_ok_def new_player_def player_ok_def default_player_def)
  then have "table_ok (r\<lparr>players := smap_put i (new_player r i) (players r)\<rparr>)"
    using assms smap_put_vals[of i "new_player r i" "players r"]
    by (auto simp: table_ok_def smap_wf_put sm.keys_put set_seat_indices)
  then show "table_ok (add_missing_player i r)"
    using assms(1) by (simp add: add_missing_player_def split: option.split)
qed

lemma fold_add_missing_ok:
  assumes "table_ok r" "set is \<subseteq> set seat_indices"
  shows "table_ok (fold add_missing_player is r)"
  using assms
proof (induction "is" arbitrary: r)
  case (Cons i "is")
  then show ?case using add_missing_player_ok[of r i] by simp
qed simp

lemma table_ok_filter:
  assumes "table_ok r"
  shows "table_ok (r\<lparr>players := filter P (players r)\<rparr>)"
proof -
  have "sorted_wrt (<) (map fst (filter P m))" if "sorted_wrt (<) (map fst m)" for m :: "(int \<times> PlayerState) list"
    using that by (induction m) auto
  then show ?thesis
    using assms by (auto simp: table_ok_def smap_wf_def smap_keys_def smap_vals_def)
qed

lemma ensure_players_map_ok:
  "table_ok r \<Longrightarrow> table_ok (ensure_players_map r)"
  unfolding ensure_players_map_def Let_def
  by (intro table_ok_filter fold_add_missing_ok) auto

subsection \<open>Rebuys\<close>

text \<open>What the players own between hands: their stacks and the rebuys that are still to come.\<close>

definition purse :: "PlayerState \<Rightarrow> int" where
  "purse p = chips p + max 0 (pending_rebuy p)"

definition table_purse :: "'a Table_scheme \<Rightarrow> int" where
  "table_purse r = smap_sum purse (players r)"

lemma table_purse_upd:
  "table_ok r \<Longrightarrow> get_player r i = Some p \<Longrightarrow>
   table_purse (upd_player i f r) = table_purse r - purse p + purse (f p)"
  by (simp add: table_purse_def table_ok_def smap_sum_adjust get_player_def)

lemma rebuy_step:
  assumes "table_ok r" "get_player r i = Some p" "0 < pending_rebuy p"
  shows "table_ok (upd_player i rebuy_player r)"
    and "table_purse (upd_player i rebuy_player r) = table_purse r"
proof -
  show "table_ok (upd_player i rebuy_player r)"
    using assms by (intro table_ok_upd_player) (auto simp: rebuy_player_def player_ok_def)
  show "table_purse (upd_player i rebuy_player r) = table_purse r"
    using assms by (simp add: table_purse_upd purse_def rebuy_player_def)
qed

lemma table_purse_broadcast [simp]: "table_purse (rm (broadcast_activity t c)) = table_purse (rm c)"
  by (simp add: table_purse_def)

definition no_rebuy_due :: "Ctx \<Rightarrow> int \<Rightarrow> bool" where
  "no_rebuy_due c j \<longleftrightarrow> (\<forall>p. get_player (rm c) j = Some p \<longrightarrow> pending_rebuy p \<le> 0)"

definition rebuys_done :: "int list \<Rightarrow> Ctx \<Rightarrow> Ctx \<Rightarrow> bool" where
  "rebuys_done is c d \<longleftrightarrow>
     table_ok (rm d) \<and> table_purse (rm d) = table_purse (rm c) \<and> active_clients d = active_clients c \<and>
     (\<forall>j. j \<in> set is \<or> no_rebuy_due c j \<longrightarrow> no_rebuy_due d j)"

lemma apply_rebuys_keeps:
  "table_ok (rm c) \<Longrightarrow> apply_rebuys is c = Inr d \<Longrightarrow> rebuys_done is c d"
proof (induction "is" c rule: apply_rebuys.induct)
  case (1 c)
  then show ?case by (simp add: rebuys_done_def)
next
  case (2 i "is" c)
  have skip: "rebuys_done (i # is) c d" if "rebuys_done is c d" "no_rebuy_due c i"
    using that by (auto simp: rebuys_done_def)
  show ?case
  proof (cases "get_player (rm c) i")
    case None
    then have "apply_rebuys is c = Inr d" using 2(5) by simp
    moreover have "no_rebuy_due c i" using None by (simp add: no_rebuy_due_def)
    ultimately show ?thesis using 2(1)[OF None 2(4)] skip by blast
  next
    case (Some p)
    show ?thesis
    proof (cases "pending_rebuy p \<le> 0")
      case True
      then have "apply_rebuys is c = Inr d" using 2(5) Some by (simp add: Let_def)
      moreover have "no_rebuy_due c i" using Some True by (simp add: no_rebuy_due_def)
      ultimately show ?thesis using 2(2)[OF Some refl True 2(4)] skip by blast
    next
      case False
      define e where "e = broadcast_activity
        (seat_name (seat_at (rm c) i) @ '' rebuys $'' @ to_string (pending_rebuy p) @ ''.'')
        (on_room (upd_player i rebuy_player) c)"
      have e: "table_ok (rm e)" "table_purse (rm e) = table_purse (rm c)" "active_clients e = active_clients c"
        using rebuy_step[OF 2(4) Some] False by (simp_all add: e_def)
      have pl: "get_player (rm e) j = (if j = i then Some (rebuy_player p) else get_player (rm c) j)" for j
        using Some by (simp add: e_def)
      have rng: "\<not> \<not> in_i32 (chips p + pending_rebuy p)" "apply_rebuys is e = Inr d"
        using 2(5) Some False by (auto simp: Let_def e_def split: if_splits)
      have "no_rebuy_due e j" if "j = i \<or> no_rebuy_due c j" for j
        using that by (auto simp: no_rebuy_due_def pl rebuy_player_def)
      moreover have "rebuys_done is e d"
        using 2(3)[OF Some refl False rng(1)] e(1) rng(2) by (simp add: e_def)
      ultimately show ?thesis using e by (auto simp: rebuys_done_def)
    qed
  qed
qed

lemma apply_pending_rebuys_keeps:
  assumes "table_ok (rm c)" "apply_pending_rebuys c = Inr d"
  shows "table_ok (rm d)" "active_clients d = active_clients c" "table_chips (rm d) = table_purse (rm c)"
proof -
  have d: "rebuys_done (smap_keys (players (rm c))) c d"
    using apply_rebuys_keeps assms by (simp add: apply_pending_rebuys_def)
  then show ok: "table_ok (rm d)" and "active_clients d = active_clients c"
    by (simp_all add: rebuys_done_def)
  have "no_rebuy_due c j" if "j \<notin> set (smap_keys (players (rm c)))" for j
    using that by (simp add: no_rebuy_due_def get_player_def smap_get_keys)
  then have due: "no_rebuy_due d j" for j
    using d by (auto simp: rebuys_done_def)
  have "purse p = chips p" if "(i, p) \<in> set (players (rm d))" for i p
  proof -
    have "get_player (rm d) i = Some p"
      using that ok by (simp add: table_ok_def get_player_def smap_mem_get)
    then show ?thesis using due[of i] by (simp add: no_rebuy_due_def purse_def)
  qed
  then have "table_purse (rm d) = table_chips (rm d)"
    unfolding table_purse_def table_chips_def smap_sum_def
    by (intro arg_cong[where f = sum_list] map_cong) auto
  then show "table_chips (rm d) = table_purse (rm c)"
    using d by (simp add: rebuys_done_def)
qed

subsection \<open>The deal\<close>

lemma reset_hand_sums:
  assumes "table_ok r"
  shows "table_ok (reset_hand shuf clients r)" "table_chips (reset_hand shuf clients r) = table_chips r"
    "table_contrib (reset_hand shuf clients r) = 0"
proof -
  have each: "\<exists>g. players (reset_hand shuf clients r) = smap_each g (players r) \<and>
      (\<forall>i p. chips (g i p) = chips p \<and> hand_contribution (g i p) = 0 \<and> current_bet (g i p) = 0)"
    by (rule exI[of _ "reset_player clients (r\<lparr>hand_num := hand_num r + 1, pot := 0,
            round_name := phase_to_string PreFlop, community_cards := [], deck := fresh_deck shuf,
            current_max_bet := 0, pending_action_seats := {}, turn_nonce := turn_nonce r + 1,
            last_actor_seat_idx := -1\<rparr>)"])
       (simp add: reset_hand_def reset_player_def Let_def del: phase_to_string.simps)
  then obtain g where g: "players (reset_hand shuf clients r) = smap_each g (players r)"
    "\<And>i p. chips (g i p) = chips p" "\<And>i p. hand_contribution (g i p) = 0"
    "\<And>i p. current_bet (g i p) = 0" by blast
  show "table_ok (reset_hand shuf clients r)"
    by (rule table_ok_each[OF assms _ g(1)]) (auto simp: player_ok_def g(2-4))
  show "table_chips (reset_hand shuf clients r) = table_chips r"
    by (simp add: table_chips_def g(1,2) smap_sum_each) (simp add: smap_sum_def)
  show "table_contrib (reset_hand shuf clients r) = 0"
    by (simp add: table_contrib_def g(1,3) smap_sum_each)
qed

lemma post_blind_sums:
  assumes "table_ok r"
  shows "table_ok (post_blind i a r)" "total_chips (post_blind i a r) = total_chips r"
  using table_ok_place_bet[OF assms, of i a] place_bet_total[OF assms, of i a]
  by (auto simp: post_blind_def total_chips_def case_prod_beta Let_def split: option.split)

lemma deal_one_sums:
  assumes "table_ok r"
  shows "table_ok (deal_one i r) \<and> total_chips (deal_one i r) = total_chips r"
proof (cases "get_player r i")
  case None
  then show ?thesis using assms by (simp add: deal_one_def)
next
  case (Some p)
  have ok: "table_ok (upd_player i (\<lambda>p. p\<lparr>hand := hand p @ x\<rparr>) r)" for x
    by (rule table_ok_upd_player[OF assms]) (simp add: player_ok_def)
  have "table_chips (r\<lparr>deck := x\<rparr>) = table_chips r" "table_contrib (r\<lparr>deck := x\<rparr>) = table_contrib r"
    for r :: "'a Table_scheme" and x
    by (simp_all add: table_chips_def table_contrib_def)
  then show ?thesis
    using assms Some ok by (simp add: deal_one_def total_chips_def table_sum_upd_player)
qed

lemma fold_deal_one_sums:
  "table_ok r \<Longrightarrow> table_ok (fold deal_one is r) \<and> total_chips (fold deal_one is r) = total_chips r"
  by (induction "is" arbitrary: r) (simp_all add: deal_one_sums)

lemma deal_hole_cards_sums:
  "table_ok r \<Longrightarrow> table_ok (deal_hole_cards clients r) \<and> total_chips (deal_hole_cards clients r) = total_chips r"
  by (simp add: deal_hole_cards_def Let_def fold_deal_one_sums)

lemma total_chips_reads [simp]:
  "total_chips (rm (broadcast_activity t c)) = total_chips (rm c)"
  "total_chips (rm (broadcast_game c)) = total_chips (rm c)"
  by (simp_all add: total_chips_def)

lemma send_private_hand_keeps [simp]:
  "game_of (send_private_hand i c) = game_of c"
  "active_clients (send_private_hand i c) = active_clients c"
  by (simp_all add: send_private_hand_def split: option.split)

lemma deal_hands_keeps:
  assumes "table_ok (rm c)"
  shows "keeps_chips c (deal_hands c)"
proof -
  define e where "e = on_room (deal_hole_cards (active_clients c)) c"
  have e: "keeps_chips c e"
    using deal_hole_cards_sums[OF assms] assms by (simp add: keeps_chips_def e_def)
  have "game_of (fold send_private_hand is e) = game_of e" "active_clients (fold send_private_hand is e) = active_clients e"
    for "is" by (simp_all add: fold_frame)
  then have "keeps_chips e (fold send_private_hand seat_indices e)"
    using table_reads(1-3)[of "rm (fold send_private_hand seat_indices e)" "rm e"] e
    by (simp add: keeps_chips_def game_of_def total_chips_def)
  then show ?thesis
    using e by (simp add: keeps_chips_def deal_hands_def e_def[symmetric])
qed

lemma seat_fields_sums [simp]:
  "table_ok (r\<lparr>sb_seat_idx := x, bb_seat_idx := y\<rparr>) = table_ok r"
  "total_chips (r\<lparr>sb_seat_idx := x, bb_seat_idx := y\<rparr>) = total_chips r"
  "table_ok (r\<lparr>current_max_bet := x, min_raise := y\<rparr>) = table_ok r"
  "total_chips (r\<lparr>current_max_bet := x, min_raise := y\<rparr>) = total_chips r"
  "table_ok (init_pending_action cl x r) = table_ok r"
  "total_chips (init_pending_action cl x r) = total_chips r"
  by (simp_all add: table_ok_def total_chips_def table_chips_def table_contrib_def init_pending_action_def)

lemma post_blinds_keeps:
  assumes "table_ok (rm c)"
  shows "keeps_chips c (post_blinds c)"
  using assms by (simp add: keeps_chips_def post_blinds_def Let_def post_blind_sums)

lemma emit_match_over_players:
  "players (rm (emit_match_over t c)) = players (rm c) \<and> seats (rm (emit_match_over t c)) = seats (rm c) \<and>
   dealer_seat_idx (rm (emit_match_over t c)) = dealer_seat_idx (rm c) \<and>
   initial_chips (rm (emit_match_over t c)) = initial_chips (rm c)"
  by (simp add: emit_match_over_def Let_def)

lemma start_hand_outcome:
  assumes "table_ok (rm c)" and "start_hand shuf c = Inr d"
  shows "let own = table_purse (ensure_players_map (rm c)) in
     table_ok (rm d) \<and>
     (table_chips (rm d) = own \<or> table_chips (rm d) + table_contrib (rm d) = own \<or>
      hand_closed (rm d) \<and> table_chips (rm d) + orphaned_chips (active_clients c) (rm d) = own)"
proof -
  define own where "own = table_purse (ensure_players_map (rm c))"
  obtain e where e: "apply_pending_rebuys (on_room ensure_players_map c) = Inr e"
    using assms(2) by (auto simp: start_hand_def split: sum.splits)
  have "table_ok (rm (on_room ensure_players_map c))"
    using ensure_players_map_ok[OF assms(1)] by simp
  from apply_pending_rebuys_keeps[OF this e]
  have ok: "table_ok (rm e)" "active_clients e = active_clients c" "table_chips (rm e) = own"
    by (simp_all add: own_def)
  show ?thesis
  proof (cases "length (filter (is_seat_eligible (active_clients e) (rm e)) seat_indices) < 2")
    case True
    then have "d = emit_match_over ''Not enough players with chips to continue.'' e"
      using assms(2) e by (simp add: start_hand_def)
    then have "table_ok (rm d)" "table_chips (rm d) = own"
      using ok emit_match_over_players table_ok_cong[of "rm d" "rm e"] by (simp_all add: table_chips_def)
    then show ?thesis by (simp add: Let_def own_def)
  next
    case False
    define c1 where "c1 = open_hand shuf e"
    define c2 where "c2 = post_blinds c1"
    define c3 where "c3 = deal_hands c2"
    define utg where "utg = get_active_offset (active_clients c1) (rm c1) (dealer_seat_idx (rm c1)) 3"
    define c4 where "c4 = broadcast_game (on_room (init_pending_action (active_clients c3) utg)
        (on_room (\<lambda>r. r\<lparr>current_max_bet := big_blind r, min_raise := big_blind r\<rparr>) c3))"
    have d: "d = request_turn c4"
      using assms(2) e False
      by (simp add: start_hand_def Let_def c1_def c2_def c3_def c4_def utg_def)
    have k1: "table_ok (rm c1)" "total_chips (rm c1) = own" "active_clients c1 = active_clients c"
      using reset_hand_sums[OF ok(1)] ok(2,3)
      by (simp_all add: c1_def open_hand_def Let_def total_chips_def)
    have k2: "keeps_chips c1 c2" unfolding c2_def by (rule post_blinds_keeps[OF k1(1)])
    then have k3: "keeps_chips c2 c3"
      unfolding c3_def by (intro deal_hands_keeps) (simp add: keeps_chips_def)
    have k4: "table_ok (rm c4)" "total_chips (rm c4) = own" "active_clients c4 = active_clients c"
      using k1 k2 k3 by (simp_all add: c4_def keeps_chips_def)
    have "turn_outcome c4 d"
      unfolding d by (rule proceed_and_request_outcome(2)[OF k4(1)])
    then show ?thesis
      using k4 by (auto simp: turn_outcome_def total_chips_def Let_def own_def)
  qed
qed


lemma apply_rebuys_none_due:
  "(\<And>j. no_rebuy_due c j) \<Longrightarrow> apply_rebuys is c = Inr c"
  by (induction "is") (auto simp: no_rebuy_due_def split: option.split)

lemma start_hand_returns:
  "apply_pending_rebuys (on_room ensure_players_map c) = Inr e \<Longrightarrow> \<exists>d. start_hand shuf c = Inr d"
  by (cases "length (filter (is_seat_eligible (active_clients e) (rm e)) seat_indices) < 2")
     (simp_all add: start_hand_def Let_def)


end
