(* ===== verification/World_Invariant.thy ===== *)
theory World_Invariant
  imports Requests Hand_Start_Facts
begin

section \<open>Every request leaves every table well formed\<close>

text \<open>
  \<open>keeps_ok\<close> collects one rule per operation: the table of its result is well formed if the table it
  started from was. The handlers follow by rewriting with it.
\<close>

named_theorems keeps_ok \<open>operations that keep the table well formed\<close>

lemma table_ok_game: "game_of d = game_of c \<Longrightarrow> table_ok (rm d) = table_ok (rm c)"
  by (rule table_reads(1)) (simp add: game_of_def)

subsection \<open>Operations that leave the table alone\<close>

lemma game_of_sessions [simp]:
  "game_of (write_session sid f c) = game_of c"
  "game_of (cache_profile p c) = game_of c"
  "game_of (c\<lparr>pending_match_rooms := x\<rparr>) = game_of c"
  "game_of (c\<lparr>snapshot_timers := y\<rparr>) = game_of c"
  "game_of (c\<lparr>sessions := z\<rparr>) = game_of c"
  "game_of (drop_snapshot c) = game_of c"
  by (simp_all add: game_of_def write_session_def cache_profile_def drop_snapshot_def)

lemma game_of_get_session [simp]:
  "get_gameplay_session gid c = (x, d) \<Longrightarrow> game_of d = game_of c"
  by (auto simp: get_gameplay_session_def game_of_def split: option.splits if_splits)

lemma game_of_fold_send [simp]:
  "game_of (fold (\<lambda>e. send_envelope sid (g e)) es c) = game_of c"
  "game_of (fold (\<lambda>k. send_event k n m) ks c) = game_of c"
  by (induction es arbitrary: c, simp_all, induction ks arbitrary: c, simp_all)

lemma game_of_replay [simp]: "game_of (replay_missed_events sid c) = game_of c"
proof (cases "sessions c sid")
  case None
  then show ?thesis by (simp add: replay_missed_events_def)
next
  case (Some s)
  define gid where "gid = ses_gameplay_session_id s"
  obtain n d where nd: "(if gid = [] then (ses_last_seen_seq s, c)
      else case get_gameplay_session gid c of
             (None, c) \<Rightarrow> (ses_last_seen_seq s, c)
           | (Some g, c) \<Rightarrow> (max (ses_last_seen_seq s) (gp_last_seen_seq g), c)) = (n, d)"
    by fastforce
  then have "game_of d = game_of c"
    by (auto split: if_splits prod.splits option.splits)
  then show ?thesis
    using Some by (simp add: replay_missed_events_def gid_def[symmetric] nd Let_def)
qed

lemma game_of_let:
  "game_of x = g \<Longrightarrow> (\<And>y. game_of y = g \<Longrightarrow> game_of (f y) = g) \<Longrightarrow> game_of (Let x f) = g"
  by simp

lemma game_of_sync [simp]:
  "game_of (emit_you_state s c) = game_of c" "game_of (send_full_state_sync s b c) = game_of c"
proof -
  show you: "game_of (emit_you_state s c) = game_of c" for c by (simp add: emit_you_state_def)
  show "game_of (send_full_state_sync s b c) = game_of c"
    unfolding send_full_state_sync_def
    by (subst Let_def, subst Let_def, (rule game_of_let, simp add: you)+) (simp split: option.split)
qed

lemma game_of_tell [simp]:
  "game_of (tell_voice P e m c) = game_of c" "game_of (notify_seat i e m c) = game_of c"
  "game_of (broadcast_both c) = game_of c"
  by (simp_all add: tell_voice_def notify_seat_def broadcast_both_def Let_def)

lemmas ok_frame [keeps_ok] =
  table_ok_game[OF game_of_sessions(1), THEN iffD2] table_ok_game[OF game_of_sessions(2), THEN iffD2]
  table_ok_game[OF game_of_sessions(3), THEN iffD2] table_ok_game[OF game_of_sessions(4), THEN iffD2]
  table_ok_game[OF game_of_sessions(5), THEN iffD2] table_ok_game[OF game_of_sessions(6), THEN iffD2]
  table_ok_game[OF game_of_replay, THEN iffD2] table_ok_game[OF game_of_sync(1), THEN iffD2]
  table_ok_game[OF game_of_sync(2), THEN iffD2] table_ok_game[OF game_of_tell(1), THEN iffD2]
  table_ok_game[OF game_of_tell(2), THEN iffD2] table_ok_game[OF game_of_tell(3), THEN iffD2]
  table_ok_game[OF game_of_send(2), THEN iffD2] table_ok_game[OF game_of_send(3), THEN iffD2]
  table_ok_game[OF game_of_send(4), THEN iffD2] table_ok_game[OF game_of_broadcast(1), THEN iffD2]
  table_ok_game[OF game_of_broadcast(2), THEN iffD2] table_ok_game[OF game_of_broadcast_room, THEN iffD2]
  table_ok_game[OF announce_action_reads(1), THEN iffD2]

subsection \<open>Operations on the table\<close>

lemma table_ok_set_seat [simp]: "table_ok (set_seat i s r) = table_ok r"
  by (simp add: set_seat_def table_ok_def)

lemma table_ok_room_fields [simp]:
  "table_ok (r\<lparr>last_active_at := t\<rparr>) = table_ok r"
  "table_ok (r\<lparr>ai_takeover_timers := ts\<rparr>) = table_ok r"
  "table_ok (r\<lparr>voice_participants := v\<rparr>) = table_ok r"
  "table_ok (r\<lparr>match_acks := ss\<rparr>) = table_ok r"
  "table_ok (r\<lparr>expected_acks := ss\<rparr>) = table_ok r"
  "table_ok (r\<lparr>socket_ids := ss, empty_since := e\<rparr>) = table_ok r"
  "table_ok (r\<lparr>host_socket_id := h\<rparr>) = table_ok r"
  "table_ok (r\<lparr>status := h, host_socket_id := h', socket_ids := ss, empty_since := e\<rparr>) = table_ok r"
  "table_ok (r\<lparr>started := b, status := h\<rparr>) = table_ok r"
  "table_ok (r\<lparr>status := h\<rparr>) = table_ok r"
  by (simp_all add: table_ok_def)

lemma table_ok_erase_player [simp]:
  "table_ok r \<Longrightarrow> table_ok (r\<lparr>players := smap_erase i (players r)\<rparr>)"
  using table_ok_filter[of r "\<lambda>e. fst e \<noteq> i"] by (simp add: smap_erase_def)

lemma table_ok_on_room [keeps_ok]: "table_ok (f (rm c)) \<Longrightarrow> table_ok (rm (on_room f c))"
  by simp

lemma cancel_ai_takeover_ok [keeps_ok]:
  "table_ok (rm c) \<Longrightarrow> table_ok (rm (cancel_ai_takeover i c))"
  by (simp add: cancel_ai_takeover_def Let_def)

lemma turn_outcome_ok: "turn_outcome c d \<Longrightarrow> table_ok (rm d)"
  by (simp add: turn_outcome_def)

lemma flow_ok [keeps_ok]:
  "table_ok (rm c) \<Longrightarrow> table_ok (rm (finish_hand c))"
  "table_ok (rm c) \<Longrightarrow> table_ok (rm (request_turn c))"
  "table_ok (rm c) \<Longrightarrow> table_ok (rm (proceed_to_next_street c))"
  using finish_hand_outcome proceed_and_request_outcome turn_outcome_ok by blast+

lemma emit_match_over_ok [keeps_ok]:
  "table_ok (rm c) \<Longrightarrow> table_ok (rm (emit_match_over t c))"
  using emit_match_over_players[of t c] table_ok_cong[of "rm (emit_match_over t c)" "rm c"] by simp

lemma player_ok_flags:
  "player_ok (p\<lparr>is_folded := b\<rparr>) = player_ok p"
  "player_ok (p\<lparr>sit_out_until_hand := n\<rparr>) = player_ok p"
  "player_ok (p\<lparr>is_folded := b, sit_out_until_hand := n\<rparr>) = player_ok p"
  "player_ok (p\<lparr>pending_rebuy := n, total_buy_in := n'\<rparr>) = player_ok p"
  by (simp_all add: player_ok_def)

lemma table_ok_upd_flags [simp]:
  "table_ok r \<Longrightarrow> (\<And>p. player_ok (f p) = player_ok p) \<Longrightarrow> table_ok (upd_player i f r)"
  by (rule table_ok_upd_player) auto

lemma can_advance_ok: "can_advance_street r = (b, r') \<Longrightarrow> table_ok r' = table_ok r"
  by (auto simp: can_advance_street_def Let_def)

subsection \<open>Control structure\<close>

lemma ok_let [keeps_ok]:
  "table_ok (rm x) \<Longrightarrow> (\<And>y. table_ok (rm y) \<Longrightarrow> table_ok (rm (f y))) \<Longrightarrow> table_ok (rm (Let x f))"
  by simp

lemma ok_let_value [keeps_ok]:
  "(\<And>y::int. table_ok (rm (fi y))) \<Longrightarrow> table_ok (rm (Let xi fi))"
  "(\<And>y::string. table_ok (rm (fs y))) \<Longrightarrow> table_ok (rm (Let xs fs))"
  "(\<And>y::bool. table_ok (rm (fb y))) \<Longrightarrow> table_ok (rm (Let xb fb))"
  "(\<And>y::Session. table_ok (rm (fe y))) \<Longrightarrow> table_ok (rm (Let xe fe))"
  "(\<And>y::Seat. table_ok (rm (ft y))) \<Longrightarrow> table_ok (rm (Let xt ft))"
  by simp_all

lemma ok_if [keeps_ok]:
  "(b \<Longrightarrow> table_ok (rm x)) \<Longrightarrow> (\<not> b \<Longrightarrow> table_ok (rm y)) \<Longrightarrow> table_ok (rm (if b then x else y))"
  by simp

lemma ok_advance [keeps_ok]:
  "table_ok (rm c) \<Longrightarrow> (\<And>b y. table_ok (rm y) \<Longrightarrow> table_ok (rm (f b y))) \<Longrightarrow>
   table_ok (rm (let (b, r) = can_advance_street (rm c); y = c\<lparr>rm := r\<rparr> in f b y))"
  by (simp add: can_advance_street_def Let_def)

lemma resolve_disconnect_ok [keeps_ok]:
  assumes "table_ok (rm c)"
  shows "table_ok (rm (resolve_disconnect_for_current_hand i c))"
proof (cases "get_player (rm c) i")
  case None
  then show ?thesis using assms by (simp add: resolve_disconnect_for_current_hand_def)
next
  case (Some p)
  show ?thesis
    unfolding resolve_disconnect_for_current_hand_def Some option.case
    by (intro keeps_ok; simp add: assms player_ok_flags fold_player_def)
qed

lemma ok_option [keeps_ok]:
  "(x = None \<Longrightarrow> table_ok (rm a)) \<Longrightarrow> (\<And>y. x = Some y \<Longrightarrow> table_ok (rm (b y))) \<Longrightarrow>
   table_ok (rm (case x of None \<Rightarrow> a | Some y \<Rightarrow> b y))"
  by (cases x) auto

lemma link_gameplay_ok [keeps_ok]: "table_ok (rm c) \<Longrightarrow> table_ok (rm (link_gameplay i sid c))"
  unfolding link_gameplay_def by (intro keeps_ok; simp)

lemma ensure_ok [keeps_ok]: "table_ok (rm c) \<Longrightarrow> table_ok (rm (on_room ensure_players_map c))"
  by (simp add: ensure_players_map_ok)

subsection \<open>The handlers\<close>

lemma enter_room_ok [keeps_ok]: "table_ok (rm c) \<Longrightarrow> table_ok (rm (enter_room req key sid c))"
  unfolding enter_room_def by (intro keeps_ok; simp)

lemma reconnect_to_seat_ok [keeps_ok]:
  "table_ok (rm c) \<Longrightarrow> table_ok (rm (reconnect_to_seat i key sid c))"
  unfolding reconnect_to_seat_def by (intro keeps_ok; simp)

lemma admit_ok [keeps_ok]: "table_ok (rm c) \<Longrightarrow> table_ok (rm (admit sid c))"
  unfolding admit_def Let_def[of "\<lambda>c. started (rm c) \<and> _ c"] by (intro keeps_ok; simp)

lemma handle_join_room_ok [keeps_ok]:
  "table_ok (rm c) \<Longrightarrow> table_ok (rm (handle_join_room key req sid c))"
  unfolding handle_join_room_def by (intro keeps_ok; simp)

lemma reclaim_seat_ok [keeps_ok]: "table_ok (rm c) \<Longrightarrow> table_ok (rm (reclaim_seat i sid c))"
  unfolding reclaim_seat_def by (intro keeps_ok; simp)

lemma table_ok_leave_seats [simp]: "table_ok (leave_seats sid r) = table_ok r"
  by (simp add: leave_seats_def table_ok_def)

lemma sit_down_ok [keeps_ok]: "table_ok (rm c) \<Longrightarrow> table_ok (rm (sit_down t1 t2 i sid c))"
  unfolding sit_down_def by (intro keeps_ok; simp)

lemma handle_take_seat_ok [keeps_ok]:
  "table_ok (rm c) \<Longrightarrow> table_ok (rm (handle_take_seat t1 t2 i tok sid c))"
  unfolding handle_take_seat_def by (intro keeps_ok; simp)

lemma handle_toggle_ai_ok [keeps_ok]: "table_ok (rm c) \<Longrightarrow> table_ok (rm (handle_toggle_ai i sid c))"
  unfolding handle_toggle_ai_def
  by (intro keeps_ok; simp add: ensure_players_map_ok table_ok_erase_player)

lemma kick_from_hand_ok [keeps_ok]: "table_ok (rm c) \<Longrightarrow> table_ok (rm (kick_from_hand i c))"
  unfolding kick_from_hand_def by (intro keeps_ok; simp add: player_ok_flags)

lemma handle_kick_seat_ok [keeps_ok]: "table_ok (rm c) \<Longrightarrow> table_ok (rm (handle_kick_seat i sid c))"
  unfolding handle_kick_seat_def by (intro keeps_ok; simp)

text \<open>The same for handlers that may fault.\<close>

definition ok_res :: "fault + Ctx \<Rightarrow> bool" where
  "ok_res x = (case x of Inl e \<Rightarrow> True | Inr d \<Rightarrow> table_ok (rm d))"

named_theorems keeps_ok_res \<open>operations that keep the table well formed or fault\<close>

lemma ok_res_rules [keeps_ok_res]:
  "table_ok (rm d) \<Longrightarrow> ok_res (Inr d)" "ok_res (Inl e)"
  "(b \<Longrightarrow> ok_res x) \<Longrightarrow> (\<not> b \<Longrightarrow> ok_res y) \<Longrightarrow> ok_res (if b then x else y)"
  "table_ok (rm z) \<Longrightarrow> (\<And>d. table_ok (rm d) \<Longrightarrow> ok_res (f d)) \<Longrightarrow> ok_res (Let z f)"
  "(\<And>i::int. ok_res (fi i)) \<Longrightarrow> ok_res (Let zi fi)"
  "(\<And>i::Session. ok_res (fs i)) \<Longrightarrow> ok_res (Let zs fs)"
  "(\<And>i::Seat. ok_res (ft i)) \<Longrightarrow> ok_res (Let zt ft)"
  by (simp_all add: ok_res_def)

lemma handle_action_ok_res [keeps_ok_res]: "table_ok (rm c) \<Longrightarrow> ok_res (handle_action i act sid c)"
  using handle_action_outcome[of c i act sid] by (auto simp: ok_res_def split: sum.split)

lemma start_hand_ok_res [keeps_ok_res]: "table_ok (rm c) \<Longrightarrow> ok_res (start_hand shuf c)"
  using start_hand_outcome[of c shuf] by (auto simp: ok_res_def Let_def split: sum.split)

lemma ai_act_ok_res [keeps_ok_res]:
  assumes "table_ok (rm c)"
  shows "ok_res (ai_act x i c)"
proof -
  have skip: "ok_res (Inr (request_turn (on_room (\<lambda>r. pass_turn i (drop_pending i r)) c)))"
    using assms by (intro keeps_ok_res keeps_ok) simp
  show ?thesis
    using assms skip
    by (cases "get_player (rm c) i") (auto simp: ai_act_def Let_def intro: keeps_ok_res)
qed

lemma ai_timer_fires_ok_res: "table_ok (rm c) \<Longrightarrow> ok_res (ai_timer_fires x c)"
  by (cases "ai_timer (rm c)") (auto simp: ai_timer_fires_def Let_def intro!: keeps_ok_res)

lemma open_match_ok: "table_ok r \<Longrightarrow> table_ok (open_match req r)"
proof -
  assume ok: "table_ok r"
  define q where "q = r\<lparr>total_hands := clamp (sg_total_hands req) 1 50,
    initial_chips := max 1000 (sg_initial_chips req), hand_num := 0, dealer_seat_idx := 0\<rparr>"
  have q: "table_ok q" using ok by (auto simp: q_def table_ok_def kSeats_def)
  then have e: "table_ok (ensure_players_map q)" by (rule ensure_players_map_ok)
  then have "0 \<le> initial_chips (ensure_players_map q)" by (simp add: table_ok_def)
  then have "table_ok ((ensure_players_map q)\<lparr>players :=
      smap_each (\<lambda>_. restart_player (initial_chips (ensure_players_map q))) (players (ensure_players_map q))\<rparr>)"
    by (intro table_ok_each[OF e]) (auto simp: restart_player_def player_ok_def)
  then show "table_ok (open_match req r)"
    by (simp add: open_match_def Let_def q_def)
qed

lemma table_ok_start: "table_ok r \<Longrightarrow> table_ok (open_match req (r\<lparr>started := b, status := h\<rparr>))"
  by (rule open_match_ok) (simp add: table_ok_def)

lemma handle_start_game_ok_res [keeps_ok_res]:
  "table_ok (rm c) \<Longrightarrow> ok_res (handle_start_game shuf req sid c)"
  unfolding handle_start_game_def
  by (intro keeps_ok_res keeps_ok; simp add: open_match_ok table_ok_start)

lemma handle_player_action_ok_res [keeps_ok_res]:
  "table_ok (rm c) \<Longrightarrow> ok_res (handle_player_action act sid c)"
  unfolding handle_player_action_def by (intro keeps_ok_res keeps_ok; simp)

lemma prune_departed_seats_ok [keeps_ok]:
  "table_ok (rm c) \<Longrightarrow> table_ok (rm (prune_departed_seats c))"
proof -
  have one: "table_ok (rm c) \<Longrightarrow> table_ok (rm (prune_seat i c))" for i c
    unfolding prune_seat_def by (intro keeps_ok; simp)
  have "table_ok (rm c) \<Longrightarrow> table_ok (rm (fold prune_seat is c))" for "is"
    by (induction "is" arbitrary: c) (simp_all add: one)
  then show "table_ok (rm c) \<Longrightarrow> table_ok (rm (prune_departed_seats c))"
    by (simp add: prune_departed_seats_def)
qed

lemma table_ok_next_dealer [simp]:
  "table_ok r \<Longrightarrow> table_ok (r\<lparr>dealer_seat_idx := (dealer_seat_idx r + 1) mod kSeats\<rparr>)"
  by (simp add: table_ok_def kSeats_def)

lemma handle_next_hand_ok_res [keeps_ok_res]:
  "table_ok (rm c) \<Longrightarrow> ok_res (handle_next_hand shuf sid c)"
  unfolding handle_next_hand_def by (intro keeps_ok_res keeps_ok; simp)

lemma grant_rebuy_ok_res [keeps_ok_res]:
  assumes "table_ok (rm c)"
  shows "ok_res (grant_rebuy i n line c)"
proof (cases "get_player (rm c) i")
  case None
  then show ?thesis using assms by (simp add: grant_rebuy_def ok_res_def)
next
  case (Some p)
  show ?thesis
    unfolding grant_rebuy_def Some option.case
    by (intro keeps_ok_res keeps_ok; simp add: assms player_ok_flags)
qed

lemma rebuy_ok_res [keeps_ok_res]:
  "table_ok (rm c) \<Longrightarrow> ok_res (handle_rebuy n sid c)"
  "table_ok (rm c) \<Longrightarrow> ok_res (handle_rebuy_approve i n sid c)"
  "table_ok (rm c) \<Longrightarrow> ok_res (handle_rebuy_deny i sid c)"
  unfolding handle_rebuy_def handle_rebuy_approve_def handle_rebuy_deny_def
  by (intro keeps_ok_res keeps_ok; simp)+

lemma small_handlers_ok [keeps_ok]:
  "table_ok (rm c) \<Longrightarrow> table_ok (rm (handle_rebuy_request n sid c))"
  "table_ok (rm c) \<Longrightarrow> table_ok (rm (handle_set_decor d sid c))"
  "table_ok (rm c) \<Longrightarrow> table_ok (rm (leave_voice sid c))"
  unfolding handle_rebuy_request_def handle_set_decor_def leave_voice_def
  by (intro keeps_ok; simp)+

lemma voice_ok [keeps_ok]:
  "table_ok (rm c) \<Longrightarrow> table_ok (rm (handle_voice_join sid c))"
  "table_ok (rm c) \<Longrightarrow> table_ok (rm (handle_voice_leave sid c))"
  "table_ok (rm c) \<Longrightarrow> table_ok (rm (handle_voice_signal t d sid c))"
proof -
  assume ok: "table_ok (rm c)"
  show "table_ok (rm (handle_voice_join sid c))"
  proof -
    have vp: "table_ok (rm (tell_voice P e m (send_event x y z (write_session sid f
        (on_room (\<lambda>r. r\<lparr>voice_participants := v r\<rparr>) c)))))" for P e m x y z f v
      using ok by (intro keeps_ok) simp
    show ?thesis using ok by (simp add: handle_voice_join_def Let_def vp)
  qed
  show "table_ok (rm (handle_voice_leave sid c))"
    using ok unfolding handle_voice_leave_def by (intro keeps_ok; simp)
  show "table_ok (rm (handle_voice_signal t d sid c))"
    using ok by (simp add: handle_voice_signal_def Let_def)
qed

lemma release_ok: "table_ok (rm c) \<Longrightarrow> table_ok (rm (snd (release_room_if_done c)))"
  by (simp add: release_room_if_done_def Let_def)

lemma handle_ack_ok: "table_ok (rm c) \<Longrightarrow> table_ok (rm (snd (handle_ack_match_over sid c)))"
  by (simp add: handle_ack_match_over_def release_ok)

lemma disconnect_seat_ok: "table_ok (rm c) \<Longrightarrow> table_ok (rm (disconnect_seat sid i c))"
  unfolding disconnect_seat_def by (intro keeps_ok; simp add: cancel_ai_takeover_ok)

lemma fold_disconnect_ok [keeps_ok]:
  "table_ok (rm c) \<Longrightarrow> table_ok (rm (fold (disconnect_seat sid) is c))"
  by (induction "is" arbitrary: c) (simp_all add: disconnect_seat_ok)

lemma hand_over_host_ok [keeps_ok]: "table_ok (rm c) \<Longrightarrow> table_ok (rm (hand_over_host sid c))"
  by (simp add: hand_over_host_def)

text \<open>And for handlers that also say whether the room is gone.\<close>

definition ok_pair :: "bool \<times> Ctx \<Rightarrow> bool" where
  "ok_pair p = table_ok (rm (snd p))"

lemma ok_pair_rules:
  "table_ok (rm d) \<Longrightarrow> ok_pair (g, d)"
  "(b \<Longrightarrow> ok_pair p) \<Longrightarrow> (\<not> b \<Longrightarrow> ok_pair q) \<Longrightarrow> ok_pair (if b then p else q)"
  "table_ok (rm z) \<Longrightarrow> (\<And>d. table_ok (rm d) \<Longrightarrow> ok_pair (f d)) \<Longrightarrow> ok_pair (Let z f)"
  "(\<And>b::bool. ok_pair (h b)) \<Longrightarrow> ok_pair (Let w h)"
  by (simp_all add: ok_pair_def)

lemma handle_disconnect_ok:
  assumes "table_ok (rm c)"
  shows "table_ok (rm (snd (handle_disconnect sid c)))"
proof -
  have "ok_pair (handle_disconnect sid c)"
    unfolding handle_disconnect_def
    by (intro ok_pair_rules keeps_ok; simp add: assms Let_def[of "_ - _"])
  then show ?thesis by (simp add: ok_pair_def)
qed

subsection \<open>Requests\<close>

lemma ok_res_map:
  "ok_res x \<Longrightarrow> map_sum id (Pair False) x = Inr res \<Longrightarrow> table_ok (rm (snd res))"
  by (cases x) (auto simp: ok_res_def)

lemma handle_request_ok:
  assumes "table_ok (rm c)" "handle_request ch req sid c = Inr res"
  shows "table_ok (rm (snd res))"
proof (cases req)
  case (AckMatchOver)
  then show ?thesis using assms handle_ack_ok by (auto simp: handle_request_def)
qed (use assms in \<open>auto simp: handle_request_def Let_def intro: keeps_ok dest!: ok_res_map[rotated] intro!: keeps_ok_res\<close>)

end
