(* ===== verification/Evolution.thy ===== *)
theory Evolution
  imports Requests
begin

section \<open>What no operation may change\<close>

text \<open>
  Every operation on a context is a sequence of a few primitive moves: a write to the room that leaves
  its identity and its event log alone, an entry appended to the log, an envelope queued, a session
  or some other part of the server written. \<open>evolves q mute c d\<close> says that \<open>d\<close> comes from \<open>c\<close> by such moves.
  Each operation is shown to be one once; what the moves keep, all operations keep by induction.

  If \<open>q\<close> holds no move writes to a seat, if \<open>mute\<close> holds none queues anybody's cards. Cards are only ever
  logged under the seat they belong to.
\<close>

definition same_log :: "bool \<Rightarrow> Room \<Rightarrow> Room \<Rightarrow> bool" where
  "same_log q r r' \<longleftrightarrow>
     room_id r' = room_id r \<and> event_log r' = event_log r \<and> event_seq r' = event_seq r \<and>
     (length (activity_log r) \<le> 250 \<longrightarrow> length (activity_log r') \<le> 250) \<and>
     (q \<longrightarrow> seats r' = seats r)"

definition cards_of :: "message \<Rightarrow> int option" where
  "cards_of m = (case m of PrivateHand j cs \<Rightarrow> Some j | _ \<Rightarrow> None)"

lemma cards_of_simps [simp]:
  "cards_of (PrivateHand j cs) = Some j" "cards_of (TextMessage t) = None" "cards_of (ErrorMessage t) = None"
  "cards_of (RoomClosed a a') = None" "cards_of (UserProfile p) = None" "cards_of (YouState a i b) = None"
  "cards_of (RoomState rs) = None" "cards_of (GameState gs) = None" "cards_of (ActivitySync ls) = None"
  "cards_of (PlayerAction i t) = None" "cards_of (TurnMessage i k) = None" "cards_of (HandOverMessage h) = None"
  "cards_of (MatchOver mo) = None" "cards_of (VoicePeers ps) = None" "cards_of (VoicePeerJoined vp) = None"
  "cards_of (VoicePeerLeft t) = None" "cards_of (VoiceSignal a t dt) = None" "cards_of (RebuyRequested i t k) = None"
  "cards_of (RebuyDenied t) = None" "cards_of (SeatTaken i) = None" "cards_of (SeatSession ss) = None"
  "cards_of (Kicked i t) = None" "cards_of (AuthState b up) = None"
  "cards_of (MatchmakingStatus t a i k) = None" "cards_of (MatchFound t i) = None"
  by (simp_all add: cards_of_def)

text \<open>Sessions stay filed under the socket they belong to.\<close>

definition same_sockets :: "(string \<rightharpoonup> Session) \<Rightarrow> (string \<rightharpoonup> Session) \<Rightarrow> bool" where
  "same_sockets m m' \<longleftrightarrow>
     (\<forall>k s'. m' k = Some s' \<longrightarrow>
       ses_socket_id s' = (case m k of None \<Rightarrow> k | Some s \<Rightarrow> ses_socket_id s))"

inductive evolves :: "bool \<Rightarrow> bool \<Rightarrow> Ctx \<Rightarrow> Ctx \<Rightarrow> bool" for q mute c where
  start: "evolves q mute c c"
| write_room: "evolves q mute c d \<Longrightarrow> same_log q (rm d) r \<Longrightarrow> evolves q mute c (d\<lparr>rm := r\<rparr>)"
| log_event: "evolves q mute c d \<Longrightarrow> (\<And>j. cards_of (snd env) = Some j \<Longrightarrow> i = j \<and> 0 \<le> j) \<Longrightarrow>
    evolves q mute c (on_room (append_room_event (now d) env i) d)"
| queue: "evolves q mute c d \<Longrightarrow> (mute \<Longrightarrow> cards_of (snd env) = None) \<Longrightarrow> evolves q mute c (send_envelope sid env d)"
| write_sessions: "evolves q mute c d \<Longrightarrow> same_sockets (sessions d) m \<Longrightarrow> evolves q mute c (d\<lparr>sessions := m\<rparr>)"
| write_gameplay: "evolves q mute c d \<Longrightarrow> evolves q mute c (d\<lparr>gameplay_sessions := g\<rparr>)"
| write_timers: "evolves q mute c d \<Longrightarrow> evolves q mute c (d\<lparr>snapshot_timers := ts\<rparr>)"
| write_users: "evolves q mute c d \<Longrightarrow> evolves q mute c (d\<lparr>cached_users := us\<rparr>)"
| write_matches: "evolves q mute c d \<Longrightarrow> evolves q mute c (d\<lparr>recorded_matches := ms\<rparr>)"
| write_pending: "evolves q mute c d \<Longrightarrow> evolves q mute c (d\<lparr>pending_match_rooms := pm\<rparr>)"

lemma evolves_trans: "evolves q mute d e \<Longrightarrow> evolves q mute c d \<Longrightarrow> evolves q mute c e"
  by (induction rule: evolves.induct) (auto intro: evolves.intros)

subsection \<open>Invariants of a context\<close>

text \<open>The event log is bounded and numbered without gaps up to \<open>event_seq\<close>.\<close>

definition log_ok :: "Room \<Rightarrow> bool" where
  "log_ok r \<longleftrightarrow>
     length (event_log r) \<le> kRoomEventLogLimit \<and>
     (\<forall>k<length (event_log r).
        ev_seq (event_log r ! k) = event_seq r - int (length (event_log r)) + int k + 1)"

definition sessions_filed :: "'a Server_scheme \<Rightarrow> bool" where
  "sessions_filed c \<longleftrightarrow> (\<forall>k s. sessions c k = Some s \<longrightarrow> ses_socket_id s = k)"

lemma numbered_append:
  assumes "\<And>k. k < length es \<Longrightarrow> ev_seq (es ! k) = n - int (length es) + int k + 1" and "ev_seq e = n + 1"
  shows "k < length (es @ [e]) \<Longrightarrow> ev_seq ((es @ [e]) ! k) = n + 1 - int (length (es @ [e])) + int k + 1"
  using assms by (cases "k < length es") (simp_all add: nth_append not_less le_antisym)

lemma numbered_drop:
  assumes "\<And>k. k < length es \<Longrightarrow> ev_seq (es ! k) = n - int (length es) + int k + 1"
  shows "k < length (drop m es) \<Longrightarrow> ev_seq (drop m es ! k) = n - int (length (drop m es)) + int k + 1"
  using assms[of "m + k"] by (simp add: of_nat_diff)

lemma log_ok_append:
  assumes "log_ok r"
  shows "log_ok (append_room_event t env i r)"
proof -
  define e where "e = \<lparr>ev_seq = event_seq r + 1, ev_envelope = env, ev_seat_idx = i, ev_created_at = t\<rparr>"
  define es where "es = event_log r @ [e]"
  have r': "event_log (append_room_event t env i r) = drop (length es - kRoomEventLogLimit) es"
      "event_seq (append_room_event t env i r) = event_seq r + 1"
    by (simp_all add: append_room_event_def trim_event_log_def es_def e_def Let_def)
  have "ev_seq (es ! k) = event_seq r + 1 - int (length es) + int k + 1" if "k < length es" for k
    using numbered_append[of "event_log r" "event_seq r" e k] assms that
    by (simp add: es_def e_def log_ok_def)
  then have "ev_seq (drop m es ! k) = event_seq r + 1 - int (length (drop m es)) + int k + 1"
    if "k < length (drop m es)" for m k
    using numbered_drop[of es "event_seq r + 1"] that by blast
  then show ?thesis by (simp add: log_ok_def r')
qed

lemma log_ok_same: "same_log q r r' \<Longrightarrow> log_ok r' = log_ok r"
  by (simp add: same_log_def log_ok_def)

lemma evolves_room_id: "evolves q mute c d \<Longrightarrow> room_id (rm d) = room_id (rm c)"
  by (induction rule: evolves.induct) (simp_all add: same_log_def append_room_event_def Let_def)

lemma evolves_log_ok: "evolves q mute c d \<Longrightarrow> log_ok (rm c) \<Longrightarrow> log_ok (rm d)"
  by (induction rule: evolves.induct) (simp_all add: log_ok_same log_ok_append)

lemma evolves_activity:
  "evolves q mute c d \<Longrightarrow> length (activity_log (rm c)) \<le> 250 \<Longrightarrow> length (activity_log (rm d)) \<le> 250"
  by (induction rule: evolves.induct)
     (simp_all add: same_log_def append_room_event_def Let_def)

lemma sessions_filed_cong: "sessions c = sessions d \<Longrightarrow> sessions_filed c = sessions_filed d"
  unfolding sessions_filed_def by (simp only:)

lemma sessions_filedI: "(\<And>k s. sessions c k = Some s \<Longrightarrow> ses_socket_id s = k) \<Longrightarrow> sessions_filed c"
  unfolding sessions_filed_def by blast

lemma sessions_filedD: "sessions_filed c \<Longrightarrow> sessions c k = Some s \<Longrightarrow> ses_socket_id s = k"
  unfolding sessions_filed_def by blast

lemma sessions_filed_frame [simp]:
  "sessions_filed (c\<lparr>rm := r\<rparr>) = sessions_filed c" "sessions_filed (on_room f c) = sessions_filed c"
  "sessions_filed (send_envelope sid env c') = sessions_filed c'"
  "sessions_filed (c'\<lparr>gameplay_sessions := g\<rparr>) = sessions_filed c'"
  "sessions_filed (c'\<lparr>snapshot_timers := ts\<rparr>) = sessions_filed c'"
  "sessions_filed (c'\<lparr>cached_users := us\<rparr>) = sessions_filed c'"
  "sessions_filed (c'\<lparr>recorded_matches := ms\<rparr>) = sessions_filed c'"
  "sessions_filed (c'\<lparr>pending_match_rooms := pm\<rparr>) = sessions_filed c'"
  by (rule sessions_filed_cong, simp)+

lemma evolves_sessions: "evolves q mute c d \<Longrightarrow> sessions_filed c \<Longrightarrow> sessions_filed d"
proof (induction rule: evolves.induct)
  case (write_sessions d m)
  have "ses_socket_id s = k" if "m k = Some s" for k s
  proof -
    have "ses_socket_id s = (case sessions d k of None \<Rightarrow> k | Some s \<Rightarrow> ses_socket_id s)"
      using write_sessions.hyps(2) that unfolding same_sockets_def by blast
    with sessions_filedD[OF write_sessions.IH[OF write_sessions.prems], of k] show ?thesis
      by (cases "sessions d k") simp_all
  qed
  then show ?case by (intro sessions_filedI) simp
qed simp_all

lemma evolves_frame:
  assumes "evolves q mute c d"
  shows "active_clients d = active_clients c" "now d = now c" "gateway_attached d = gateway_attached c"
    "snapshots_on d = snapshots_on c" "auth_usernames d = auth_usernames c"
  using assms by (induction rule: evolves.induct) (simp_all add: send_envelope_def on_room_def)

text \<open>Whoever's cards a log entry shows, the entry is filed under that seat.\<close>

definition log_private :: "Room \<Rightarrow> bool" where
  "log_private r \<longleftrightarrow>
     (\<forall>e\<in>set (event_log r). \<forall>j. cards_of (snd (ev_envelope e)) = Some j \<longrightarrow> ev_seat_idx e = j \<and> 0 \<le> j)"

lemma log_private_cong: "event_log r' = event_log r \<Longrightarrow> log_private r' = log_private r"
  unfolding log_private_def by (simp only:)

lemma append_room_event_mem:
  "e \<in> set (event_log (append_room_event t env i r)) \<Longrightarrow>
   e \<in> set (event_log r) \<or> ev_envelope e = env \<and> ev_seat_idx e = i"
  by (auto simp: append_room_event_def trim_event_log_def Let_def dest: in_set_dropD)

lemma log_privateI:
  "(\<And>e j. e \<in> set (event_log r) \<Longrightarrow> cards_of (snd (ev_envelope e)) = Some j \<Longrightarrow> ev_seat_idx e = j \<and> 0 \<le> j) \<Longrightarrow>
   log_private r"
  unfolding log_private_def by blast

lemma log_privateD:
  "log_private r \<Longrightarrow> e \<in> set (event_log r) \<Longrightarrow> cards_of (snd (ev_envelope e)) = Some j \<Longrightarrow>
   ev_seat_idx e = j \<and> 0 \<le> j"
  unfolding log_private_def by blast

lemma log_private_append:
  assumes "log_private r" and "\<And>j. cards_of (snd env) = Some j \<Longrightarrow> i = j \<and> 0 \<le> j"
  shows "log_private (append_room_event t env i r)"
proof (rule log_privateI)
  fix e j
  assume e: "e \<in> set (event_log (append_room_event t env i r))"
    and cards: "cards_of (snd (ev_envelope e)) = Some j"
  from append_room_event_mem[OF e] show "ev_seat_idx e = j \<and> 0 \<le> j"
  proof
    assume "e \<in> set (event_log r)"
    then show ?thesis by (rule log_privateD[OF assms(1) _ cards])
  next
    assume new: "ev_envelope e = env \<and> ev_seat_idx e = i"
    with cards have "cards_of (snd env) = Some j" by (simp only:)
    from assms(2)[OF this] new show ?thesis by simp
  qed
qed

lemma evolves_log_private: "evolves q mute c d \<Longrightarrow> log_private (rm c) \<Longrightarrow> log_private (rm d)"
proof (induction rule: evolves.induct)
  case (write_room d r)
  then have "log_private (rm d)" by blast
  moreover have "event_log r = event_log (rm d)" using write_room.hyps(2) by (simp add: same_log_def)
  ultimately show ?case by (simp add: log_private_cong[of r "rm d"])
next
  case (log_event d env i)
  then show ?case unfolding on_room_simps by (blast intro: log_private_append)
qed simp_all

text \<open>What the two flags promise.\<close>

lemma evolves_seats: "evolves True mute c d \<Longrightarrow> seats (rm d) = seats (rm c)"
  by (induction rule: evolves.induct) (simp_all add: same_log_def append_room_event_def Let_def)

lemma evolves_mute:
  "evolves q True c d \<Longrightarrow> \<exists>es. outbox d = outbox c @ es \<and> (\<forall>e\<in>set es. cards_of (snd (snd e)) = None)"
proof (induction rule: evolves.induct)
  case (queue d env sid)
  then obtain es where "outbox d = outbox c @ es" "\<forall>e\<in>set es. cards_of (snd (snd e)) = None" by blast
  with queue.hyps(2) show ?case
    by (intro exI[of _ "if gateway_attached d then es @ [(sid, env)] else es"]) (auto simp: send_envelope_def)
qed simp_all

lemma evolves_outbox: "evolves q mute c d \<Longrightarrow> \<exists>es. outbox d = outbox c @ es"
  by (induction rule: evolves.induct) (auto simp: send_envelope_def)

subsection \<open>Writes to the table leave the rest of the room alone\<close>

text \<open>The seats, and everything of a room that is not its table.\<close>

definition rest :: "'a Table_scheme \<Rightarrow> Seat list \<times> 'a" where
  "rest r = (seats r, Table.more r)"

named_theorems same_rest \<open>operations on the game part of a table\<close>

lemma same_log_more: "Table.more r' = Table.more r \<Longrightarrow> (q \<Longrightarrow> seats r' = seats r) \<Longrightarrow> same_log q r r'"
  by (cases r, cases r') (simp add: same_log_def)

lemma same_log_rest: "rest r' = rest r \<Longrightarrow> same_log q r r'"
  by (simp add: rest_def same_log_more)

lemma same_log_refl [simp]: "same_log q r r"
  by (simp add: same_log_def)

lemma same_log_trans: "same_log q r s \<Longrightarrow> same_log q s t \<Longrightarrow> same_log q r t"
  by (simp add: same_log_def)

lemma rest_fold: "(\<And>x r. rest (f x r) = rest r) \<Longrightarrow> rest (fold f xs r) = rest r"
  by (induction xs arbitrary: r) simp_all

lemma rest_players [same_rest]:
  "rest (upd_player i f r) = rest r" "rest (win_chips i n r) = rest r" "rest (fold_player i r) = rest r"
  "rest (drop_pending i r) = rest r" "rest (reopen_betting cs i r) = rest r"
  "rest (clear_street_bets r) = rest r" "rest (reset_hand shuf cs r) = rest r"
  "rest (init_pending_action cs i r) = rest r" "rest (remove_ineligible_from_pending r) = rest r"
  by (simp_all add: rest_def upd_player_def win_chips_def fold_player_def drop_pending_def
      reopen_betting_def clear_street_bets_def reset_hand_def init_pending_action_def
      remove_ineligible_from_pending_def Let_def)

lemma rest_fields [simp]:
  "rest (r\<lparr>players := ps\<rparr>) = rest r" "rest (r\<lparr>pot := n\<rparr>) = rest r" "rest (r\<lparr>deck := cs\<rparr>) = rest r"
  "rest (r\<lparr>community_cards := cs\<rparr>) = rest r" "rest (r\<lparr>active_seat_idx := n\<rparr>) = rest r"
  "rest (r\<lparr>current_max_bet := n\<rparr>) = rest r" "rest (r\<lparr>round_name := t\<rparr>) = rest r"
  "rest (r\<lparr>total_hands := n\<rparr>) = rest r" "rest (r\<lparr>initial_chips := n\<rparr>) = rest r"
  "rest (r\<lparr>hand_num := n\<rparr>) = rest r" "rest (r\<lparr>min_raise := n\<rparr>) = rest r"
  "rest (r\<lparr>dealer_seat_idx := n\<rparr>) = rest r" "rest (r\<lparr>last_actor_seat_idx := n\<rparr>) = rest r"
  "rest (r\<lparr>sb_seat_idx := n\<rparr>) = rest r" "rest (r\<lparr>bb_seat_idx := n\<rparr>) = rest r"
  by (simp_all add: rest_def)

lemma rest_choose [same_rest]:
  "rest (snd (choose_next_actor i r)) = rest r" "rest (pass_turn i r) = rest r"
  "rest (snd (can_advance_street r)) = rest r" "rest (settle_active r) = rest r"
  by (simp_all add: choose_next_actor_def pass_turn_def can_advance_street_def settle_active_def Let_def
      rest_players)

lemma rest_place_bet [same_rest]:
  "rest (snd (place_bet i n r)) = rest r" "rest (post_blind i n r) = rest r"
proof -
  show bet: "rest (snd (place_bet i n r)) = rest r"
    by (simp add: place_bet_def Let_def rest_players split: option.split)
  show "rest (post_blind i n r) = rest r"
    using bet by (cases "place_bet i n r") (simp add: post_blind_def split: option.split)
qed

lemma rest_ensure [same_rest]: "rest (ensure_players_map r) = rest r"
proof -
  have "rest (add_missing_player i r) = rest r" for i and r :: "'a Table_scheme"
    by (simp add: add_missing_player_def split: option.split)
  then show ?thesis by (simp add: ensure_players_map_def Let_def rest_fold)
qed

lemma rest_dealing [same_rest]:
  "rest (deal_hole_cards cs r) = rest r" "rest (deal_community n r) = rest r"
  "rest (run_out_board r) = rest r" "rest (open_next_street r) = rest r"
proof -
  have one: "rest (deal_one i r) = rest r" for i and r :: "'a Table_scheme"
    by (simp add: deal_one_def rest_players)
  show "rest (deal_hole_cards cs r) = rest r"
    by (simp add: deal_hole_cards_def Let_def rest_fold one)
  show board: "rest (deal_community n r) = rest r" for n and r :: "'a Table_scheme"
    by (induction n r rule: deal_community.induct) simp_all
  show "rest (run_out_board r) = rest r" by (simp add: run_out_board_def board)
  show "rest (open_next_street r) = rest r"
    by (simp add: open_next_street_def Let_def board rest_players)
qed

lemma rest_pay_winners [same_rest]: "rest (fst (pay_winners n ws st)) = rest (fst st)"
proof -
  have "rest (fst (fold (pay_share m) xs st)) = rest (fst st)" for m xs and st :: "'a Table_scheme \<times> int list"
    by (induction xs arbitrary: st) (simp_all add: pay_share_def rest_players)
  then show ?thesis by (simp add: pay_winners_def Let_def)
qed

lemma rest_open_match [same_rest]: "rest (open_match req r) = rest r"
  by (simp add: open_match_def Let_def rest_ensure)

lemmas same_log_table [simp] = same_rest[THEN same_log_rest]

lemma same_log_seats [simp]: "same_log False r (set_seat i s r)"
  by (simp add: same_log_def set_seat_def)

end
