(* ===== verification/Evolving.thy ===== *)
theory Evolving
  imports Evolution
begin

section \<open>Every operation is made of the primitive moves\<close>

text \<open>
  \<open>evolving\<close> collects one rule per operation: what it makes of an evolution is an evolution. The
  handlers follow by applying the rules along their definitions.
\<close>

named_theorems evolving \<open>operations made of the primitive moves\<close>

subsection \<open>Control structure and primitive writes\<close>

lemma evolves_let [evolving]:
  "evolves q mute c x \<Longrightarrow> (\<And>y. evolves q mute c y \<Longrightarrow> evolves q mute c (f y)) \<Longrightarrow> evolves q mute c (Let x f)"
  "(\<And>y::int. evolves q mute c (fi y)) \<Longrightarrow> evolves q mute c (Let xi fi)"
  "(\<And>y::string. evolves q mute c (fs y)) \<Longrightarrow> evolves q mute c (Let xs fs)"
  "(\<And>y::bool. evolves q mute c (fb y)) \<Longrightarrow> evolves q mute c (Let xb fb)"
  "(\<And>y::Session. evolves q mute c (fe y)) \<Longrightarrow> evolves q mute c (Let xe fe)"
  "(\<And>y::Seat. evolves q mute c (ft y)) \<Longrightarrow> evolves q mute c (Let xt ft)"
  "(\<And>y::message. evolves q mute c (fm y)) \<Longrightarrow> evolves q mute c (Let xm fm)"
  "(\<And>y::Ctx \<Rightarrow> bool. evolves q mute c (fp y)) \<Longrightarrow> evolves q mute c (Let xp fp)"
  by simp_all

lemma evolves_if [evolving]:
  "(b \<Longrightarrow> evolves q mute c x) \<Longrightarrow> (\<not> b \<Longrightarrow> evolves q mute c y) \<Longrightarrow> evolves q mute c (if b then x else y)"
  by simp

lemma evolves_option [evolving]:
  "(x = None \<Longrightarrow> evolves q mute c a) \<Longrightarrow> (\<And>y. x = Some y \<Longrightarrow> evolves q mute c (b y)) \<Longrightarrow>
   evolves q mute c (case x of None \<Rightarrow> a | Some y \<Rightarrow> b y)"
  by (cases x) auto

lemma evolves_fold:
  "(\<And>x d. evolves q mute c d \<Longrightarrow> evolves q mute c (f x d)) \<Longrightarrow> evolves q mute c d \<Longrightarrow> evolves q mute c (fold f xs d)"
  by (induction xs arbitrary: d) simp_all

lemma evolves_on_room [evolving]:
  "evolves q mute c d \<Longrightarrow> same_log q (rm d) (f (rm d)) \<Longrightarrow> evolves q mute c (on_room f d)"
  by (simp add: on_room_def evolves.write_room)

lemmas evolves_writes [evolving] =
  evolves.write_gameplay evolves.write_timers evolves.write_users evolves.write_matches
  evolves.write_pending

lemma evolves_send [evolving]:
  "evolves q mute c d \<Longrightarrow> (mute \<Longrightarrow> cards_of (snd env) = None) \<Longrightarrow> evolves q mute c (send_envelope sid env d)"
  "evolves q mute c d \<Longrightarrow> (mute \<Longrightarrow> cards_of m = None) \<Longrightarrow> evolves q mute c (send_event sid n m d)"
  "evolves q mute c d \<Longrightarrow> evolves q mute c (send_error sid t d)"
  by (simp_all add: send_error_def send_event_def evolves.queue)

lemma evolves_with_gameplay [evolving]: "evolves q mute c d \<Longrightarrow> evolves q mute c (with_gameplay_session gid uid f d)"
  by (simp add: with_gameplay_session_def Let_def evolves.write_gameplay)

lemma evolves_get_gameplay: "evolves q mute c d \<Longrightarrow> evolves q mute c (snd (get_gameplay_session gid d))"
  by (simp add: get_gameplay_session_def evolves.write_gameplay split: option.split)

lemma same_sockets_upd:
  "ses_socket_id s' = (case m k of None \<Rightarrow> k | Some s \<Rightarrow> ses_socket_id s) \<Longrightarrow> same_sockets m (m(k \<mapsto> s'))"
  unfolding same_sockets_def by (auto split: option.splits)

lemma evolves_write_session [evolving]:
  assumes "evolves q mute c d" and "\<And>s. ses_socket_id (f s) = ses_socket_id s"
  shows "evolves q mute c (write_session sid f d)"
  unfolding write_session_def
  by (rule evolves.write_sessions[OF assms(1)], rule same_sockets_upd)
     (simp add: assms(2) ses_def new_session_def split: option.split)

lemma evolves_mark [evolving]: "evolves q mute c d \<Longrightarrow> evolves q mute c (mark_last_seen_for_socket sid n d)"
  by (cases "sessions d sid")
     (auto simp: mark_last_seen_for_socket_def Let_def
       intro!: evolves_with_gameplay evolves.write_sessions same_sockets_upd)

lemma evolves_touch [evolving]: "evolves q mute c d \<Longrightarrow> evolves q mute c (touch_room_snapshot d)"
proof -
  have t: "touch_room_snapshot d =
      (if snapshots_on d then on_room (\<lambda>r. r\<lparr>last_active_at := now d\<rparr>)
         (d\<lparr>snapshot_timers := insert (room_id (rm d)) (snapshot_timers d)\<rparr>) else d)"
    by (simp add: touch_room_snapshot_def on_room_def)
  show "evolves q mute c d \<Longrightarrow> evolves q mute c (touch_room_snapshot d)"
    unfolding t by (intro evolving) (simp_all add: same_log_def)
qed

subsection \<open>Events\<close>

lemma evolves_emit_room [evolving]:
  "evolves q mute c d \<Longrightarrow> cards_of m = None \<Longrightarrow> evolves q mute c (emit_room_event n m d)"
  unfolding emit_room_event_def Let_def
  by (intro evolves_touch evolves_fold evolves_mark evolves_send evolves.log_event) simp_all

lemma evolves_emit_seat [evolving]:
  "evolves q False c d \<Longrightarrow> (\<And>j. cards_of m = Some j \<Longrightarrow> i = j) \<Longrightarrow> evolves q False c (emit_seat_event i n m d)"
  unfolding emit_seat_event_def Let_def by (intro evolving evolves.log_event; simp)

lemma evolves_broadcast [evolving]:
  "evolves q mute c d \<Longrightarrow> evolves q mute c (broadcast_room d)" "evolves q mute c d \<Longrightarrow> evolves q mute c (broadcast_game d)"
  "evolves q mute c d \<Longrightarrow> evolves q mute c (broadcast_activity t d)"
  "evolves q mute c d \<Longrightarrow> evolves q mute c (broadcast_player_action i t d)"
  "evolves q mute c d \<Longrightarrow> evolves q mute c (broadcast_both d)" "evolves q mute c d \<Longrightarrow> evolves q mute c (announce_action i l b d)"
proof -
  show room: "evolves q mute c d \<Longrightarrow> evolves q mute c (broadcast_room d)" for d
    unfolding broadcast_room_def by (intro evolves_touch evolves_fold evolves_mark evolves_send) simp_all
  show game: "evolves q mute c d \<Longrightarrow> evolves q mute c (broadcast_game d)" for d
    unfolding broadcast_game_def by (intro evolving) simp_all
  show act: "evolves q mute c d \<Longrightarrow> evolves q mute c (broadcast_activity t d)" for t d
    unfolding broadcast_activity_def
    by (intro evolving) (auto simp: same_log_def push_activity_def Let_def)
  show pa: "evolves q mute c d \<Longrightarrow> evolves q mute c (broadcast_player_action i t d)" for i t d
    unfolding broadcast_player_action_def by (intro evolving) simp_all
  show "evolves q mute c d \<Longrightarrow> evolves q mute c (broadcast_both d)" by (simp add: broadcast_both_def room game)
  show "evolves q mute c d \<Longrightarrow> evolves q mute c (announce_action i l b d)" by (simp add: announce_action_def act pa)
qed

lemma evolves_cancel [evolving]: "evolves False mute c d \<Longrightarrow> evolves False mute c (cancel_ai_takeover i d)"
  unfolding cancel_ai_takeover_def by (intro evolving) (simp_all add: same_log_def set_seat_def)

lemma evolves_sync [evolving]:
  "evolves q mute c d \<Longrightarrow> evolves q mute c (emit_you_state s d)"
  "evolves q mute c d \<Longrightarrow> \<not> (mute \<and> b) \<Longrightarrow> evolves q mute c (send_full_state_sync s b d)"
proof -
  show you: "evolves q mute c d \<Longrightarrow> evolves q mute c (emit_you_state s d)" for d
    unfolding emit_you_state_def by (intro evolving) simp_all
  show "evolves q mute c d \<Longrightarrow> \<not> (mute \<and> b) \<Longrightarrow> evolves q mute c (send_full_state_sync s b d)"
    unfolding send_full_state_sync_def by (intro evolving you; simp)
qed

lemma evolves_replay [evolving]: "evolves q False c d \<Longrightarrow> evolves q False c (replay_missed_events sid d)"
proof (cases "sessions d sid")
  case None
  then show "evolves q False c d \<Longrightarrow> ?thesis" by (simp add: replay_missed_events_def)
next
  case (Some s)
  assume ev: "evolves q False c d"
  define gid where "gid = ses_gameplay_session_id s"
  define st where "st = (if gid = [] then (ses_last_seen_seq s, d)
      else case get_gameplay_session gid d of
             (None, c) \<Rightarrow> (ses_last_seen_seq s, c)
           | (Some g, c) \<Rightarrow> (max (ses_last_seen_seq s) (gp_last_seen_seq g), c))"
  have st: "evolves q False c (snd st)" "sessions (snd st) = sessions d"
    using ev evolves_get_gameplay[OF ev, of gid]
    by (auto simp: st_def get_gameplay_session_def split: option.split prod.split)
  define missed where "missed = missed_events (fst st) (ses_seat_idx s) (event_log (rm (snd st)))"
  define e where "e = fold (\<lambda>e. send_envelope (ses_socket_id s) (ev_envelope e)) missed (snd st)"
  have e: "evolves q False c e"
    unfolding e_def by (intro evolves_fold evolves_send st(1); simp)
  have "sessions e = sessions d"
    by (simp add: e_def fold_frame[of sessions] st(2))
  show ?thesis
    unfolding replay_missed_events_def Some option.case Let_def gid_def[symmetric] st_def[symmetric]
    apply (simp add: case_prod_beta missed_def[symmetric] e_def[symmetric])
    using e Some \<open>sessions e = sessions d\<close>
    by (intro conjI impI evolving evolves.write_sessions same_sockets_upd) simp_all
qed

subsection \<open>Hands, streets and turns\<close>

lemma evolves_settle_pot:
  assumes "evolves q mute c d"
  shows "evolves q mute c (fst (settle_pot sides evals ip (d, order, desc)))"
proof -
  have "evolves q mute c (broadcast_activity t (d\<lparr>rm := fst (pay_winners n ws (rm d, order))\<rparr>))" for t n ws
    using assms rest_pay_winners[of n ws "(rm d, order)"]
    by (intro evolving evolves.write_room same_log_rest) simp_all
  then show ?thesis
    using assms by (cases ip) (simp add: settle_pot_def Let_def case_prod_beta split: option.split)
qed

lemma evolves_settle_pots:
  "evolves q mute c (fst st) \<Longrightarrow> evolves q mute c (fst (fold (settle_pot sides evals) ips st))"
proof (induction ips arbitrary: st)
  case (Cons ip ips)
  then have "evolves q mute c (fst (settle_pot sides evals ip st))"
    using evolves_settle_pot[of q mute c "fst st" sides evals ip "fst (snd st)" "snd (snd st)"] by simp
  from Cons.IH[OF this] show ?case by simp
qed simp

lemma evolves_finish_hand [evolving]: "evolves q mute c d \<Longrightarrow> evolves q mute c (finish_hand d)"
proof -
  have close: "evolves q mute c d \<Longrightarrow> evolves q mute c (close_hand desc ws cards d)" for desc ws cards d
    unfolding close_hand_def send_hand_over_def
    by (simp add: Let_def, intro evolving) (simp_all add: same_log_def)
  have settle: "evolves q mute c d \<Longrightarrow> evolves q mute c (fst (settle_hand live pots d))" for live pots d
  proof (cases "length live = 1")
    case True
    assume "evolves q mute c d"
    then show ?thesis
      using True by (simp add: settle_hand_def Let_def) (intro evolving; simp)
  next
    case False
    assume ev: "evolves q mute c d"
    then have "evolves q mute c (fst (on_room run_out_board d, [] :: int list, ''All others folded''))"
      by (simp add: evolves_on_room)
    from evolves_settle_pots[OF this] show ?thesis
      using False by (simp add: settle_hand_def Let_def)
  qed
  have count: "evolves q mute c d \<Longrightarrow> evolves q mute c (count_pot d)" for d
    unfolding count_pot_def by (intro evolving) (simp_all add: same_log_def)
  have turns: "evolves q mute c d \<Longrightarrow> evolves q mute c (close_turns d)" for d
    unfolding close_turns_def by (intro evolving) (simp_all add: same_log_def)
  show "evolves q mute c d \<Longrightarrow> evolves q mute c (finish_hand d)"
    unfolding finish_hand_def by (simp add: Let_def case_prod_beta close settle count turns)
qed

lemma evolves_announce_turn: "evolves q mute c d \<Longrightarrow> evolves q mute c (announce_turn d)"
  unfolding announce_turn_def by (intro evolving) (simp_all add: same_log_def)

lemma evolves_turns [evolving]:
  "evolves q mute c d \<Longrightarrow> evolves q mute c (proceed_to_next_street d)" "evolves q mute c d \<Longrightarrow> evolves q mute c (request_turn d)"
proof (induction d and d rule: proceed_to_next_street_request_turn.induct)
  case (1 d)
  show ?case
    unfolding proceed_to_next_street.simps[of d] Let_def
    by (intro evolves_if evolves_finish_hand "1.IH"[OF refl _ refl refl refl] evolving)
      (simp_all add: 1)
next
  case (2 d)
  have timer: "evolves q mute c (on_room (\<lambda>r. r\<lparr>ai_timer := None\<rparr>) d)"
    using "2.prems" by (intro evolving) (simp_all add: same_log_def)
  have showdown: "evolves q mute c (finish_hand (on_room (\<lambda>r. r\<lparr>round_name := n\<rparr>)
      (on_room (\<lambda>r. r\<lparr>ai_timer := None\<rparr>) d)))" for n
    by (intro evolving timer) (simp add: same_log_def)
  show ?case
    unfolding request_turn.simps[of d] Let_def
    by (intro evolves_if evolves_finish_hand "2.IH"[OF refl _ _ refl] evolves_announce_turn
        evolves_on_room timer showdown) simp_all
qed

end
