(* ===== verification/Evolving_Handlers.thy ===== *)
theory Evolving_Handlers
  imports Evolving World_Invariant
begin

section \<open>Every request is made of the primitive moves\<close>

text \<open>
  One rule per handler for the collection \<open>evolving\<close>: each handler of a request, the timers and the end of a
  match only make the primitive moves of \<open>evolves\<close>.
\<close>

lemma evolves_advance [evolving]:
  "evolves q mute c d \<Longrightarrow> (\<And>b y. evolves q mute c y \<Longrightarrow> evolves q mute c (f b y)) \<Longrightarrow>
   evolves q mute c (let (b, r) = can_advance_street (rm d); y = d\<lparr>rm := r\<rparr> in f b y)"
proof -
  assume ev: "evolves q mute c d" and f: "\<And>b y. evolves q mute c y \<Longrightarrow> evolves q mute c (f b y)"
  have "evolves q mute c (d\<lparr>rm := snd (can_advance_street (rm d))\<rparr>)"
    by (intro evolves.write_room ev) simp
  from f[OF this] show ?thesis by (simp add: case_prod_beta)
qed

lemma same_log_room_fields [simp]:
  "same_log q r (r\<lparr>last_active_at := t\<rparr>)" "same_log q r (r\<lparr>voice_participants := v\<rparr>)"
  "same_log q r (r\<lparr>match_acks := ss\<rparr>)" "same_log q r (r\<lparr>expected_acks := ss\<rparr>)"
  "same_log q r (r\<lparr>expected_acks := ss, match_acks := ts\<rparr>)"
  "same_log q r (r\<lparr>socket_ids := ss, empty_since := e\<rparr>)" "same_log q r (r\<lparr>host_socket_id := h\<rparr>)"
  "same_log q r (r\<lparr>status := h, host_socket_id := h', socket_ids := ss, empty_since := e\<rparr>)"
  "same_log False r (set_seat i s (r\<lparr>players := ps\<rparr>))" "same_log q r (r\<lparr>ai_timer := a\<rparr>)"
  "same_log q r (r\<lparr>dealer_seat_idx := i\<rparr>)" "same_log False r (leave_seats sid r)"
  "same_log q r (r\<lparr>current_max_bet := i, min_raise := j\<rparr>)" "same_log q r (r\<lparr>last_actor_seat_idx := i\<rparr>)"
  "same_log q r (r\<lparr>sb_seat_idx := i, bb_seat_idx := j\<rparr>)" "same_log q r (r\<lparr>current_max_bet := i\<rparr>)"
  "same_log False r ((set_seat i s r)\<lparr>last_active_at := t\<rparr>)"
  by (simp_all add: same_log_def set_seat_def leave_seats_def)

lemma same_log_drop [simp]:
  "same_log q r (drop_pending i (upd_player j f r))"
  "same_log False r (ensure_players_map (set_seat i s r))"
  "same_log q r (reopen_betting cs i (r\<lparr>current_max_bet := b, min_raise := m\<rparr>))"
  "same_log q r (reopen_betting cs i (r\<lparr>min_raise := m\<rparr>))"
  "same_log q r (pass_turn i (drop_pending j r))"
  "same_log q r (open_match req (r\<lparr>started := b', status := h\<rparr>))"
proof -
  have "same_log q (r\<lparr>started := b', status := h\<rparr>) (open_match req (r\<lparr>started := b', status := h\<rparr>))" by simp
  then show "same_log q r (open_match req (r\<lparr>started := b', status := h\<rparr>))"
    by (rule same_log_trans[rotated]) (simp add: same_log_def)
  show "same_log False r (ensure_players_map (set_seat i s r))"
    by (rule same_log_trans[of _ _ "set_seat i s r"]) simp_all
qed (rule same_log_rest; simp add: same_rest)+

subsection \<open>Lobby\<close>

lemma evolves_resolve_disconnect [evolving]:
  "evolves q mute c d \<Longrightarrow> evolves q mute c (resolve_disconnect_for_current_hand i d)"
  unfolding resolve_disconnect_for_current_hand_def by (intro evolving; simp)

lemma evolves_lobby [evolving]:
  "evolves False mute c d \<Longrightarrow> evolves False mute c (link_gameplay i sid d)"
  "evolves q mute c d \<Longrightarrow> evolves q mute c (cache_profile p d)"
  unfolding link_gameplay_def cache_profile_def by (intro evolving; simp)+

lemma evolves_enter_room [evolving]: "evolves q mute c d \<Longrightarrow> evolves q mute c (enter_room req key sid d)"
  unfolding enter_room_def by (intro evolving; simp add: Let_def)

lemma evolves_reconnect [evolving]: "evolves False mute c d \<Longrightarrow> evolves False mute c (reconnect_to_seat i key sid d)"
  unfolding reconnect_to_seat_def by (intro evolving; simp)

lemma evolves_admit [evolving]: "evolves q False c d \<Longrightarrow> evolves q False c (admit sid d)"
  unfolding admit_def by (intro evolving; simp)

lemma evolves_join [evolving]: "evolves False False c d \<Longrightarrow> evolves False False c (handle_join_room key req sid d)"
  unfolding handle_join_room_def by (intro evolving; simp)

lemma evolves_reclaim [evolving]: "evolves False False c d \<Longrightarrow> evolves False False c (reclaim_seat i sid d)"
  unfolding reclaim_seat_def by (intro evolving; simp)

lemma evolves_sit_down [evolving]: "evolves False mute c d \<Longrightarrow> evolves False mute c (sit_down t1 t2 i sid d)"
  unfolding sit_down_def by (intro evolving; simp add: seat_session_msg_def)

lemma evolves_take_seat [evolving]: "evolves False False c d \<Longrightarrow> evolves False False c (handle_take_seat t1 t2 i tok sid d)"
  unfolding handle_take_seat_def by (intro evolving; simp)

lemma evolves_toggle_ai [evolving]: "evolves False mute c d \<Longrightarrow> evolves False mute c (handle_toggle_ai i sid d)"
  unfolding handle_toggle_ai_def by (intro evolving; simp)

lemma evolves_notify [evolving]: "evolves q mute c d \<Longrightarrow> cards_of m = None \<Longrightarrow> evolves q mute c (notify_seat i e m d)"
  unfolding notify_seat_def by (intro evolving; simp)

lemma evolves_kick_from_hand [evolving]: "evolves q mute c d \<Longrightarrow> evolves q mute c (kick_from_hand i d)"
  unfolding kick_from_hand_def by (intro evolving; simp)

lemma evolves_kick [evolving]: "evolves False mute c d \<Longrightarrow> evolves False mute c (handle_kick_seat i sid d)"
  unfolding handle_kick_seat_def by (intro evolving; simp)

subsection \<open>Handlers that may fault\<close>

definition evolves_res :: "bool \<Rightarrow> bool \<Rightarrow> Ctx \<Rightarrow> fault + Ctx \<Rightarrow> bool" where
  "evolves_res q mute c x = (case x of Inl e \<Rightarrow> True | Inr d \<Rightarrow> evolves q mute c d)"

named_theorems evolving_res \<open>operations that fault or are made of the primitive moves\<close>

lemma evolves_res_rules [evolving_res]:
  "evolves q mute c d \<Longrightarrow> evolves_res q mute c (Inr d)" "evolves_res q mute c (Inl e)"
  "(b \<Longrightarrow> evolves_res q mute c x) \<Longrightarrow> (\<not> b \<Longrightarrow> evolves_res q mute c y) \<Longrightarrow> evolves_res q mute c (if b then x else y)"
  "evolves q mute c z \<Longrightarrow> (\<And>d. evolves q mute c d \<Longrightarrow> evolves_res q mute c (f d)) \<Longrightarrow> evolves_res q mute c (Let z f)"
  "(\<And>i::int. evolves_res q mute c (fi i)) \<Longrightarrow> evolves_res q mute c (Let zi fi)"
  "(\<And>i::Session. evolves_res q mute c (fs i)) \<Longrightarrow> evolves_res q mute c (Let zs fs)"
  "(\<And>i::Seat. evolves_res q mute c (ft i)) \<Longrightarrow> evolves_res q mute c (Let zt ft)"
  "(\<And>i::int list. evolves_res q mute c (fl i)) \<Longrightarrow> evolves_res q mute c (Let zl fl)"
  "(opt = None \<Longrightarrow> evolves_res q mute c a) \<Longrightarrow> (\<And>p. opt = Some p \<Longrightarrow> evolves_res q mute c (g p)) \<Longrightarrow>
   evolves_res q mute c (case opt of None \<Rightarrow> a | Some p \<Rightarrow> g p)"
  by (simp_all add: evolves_res_def split: option.split)

lemma evolves_res_bind [evolving_res]:
  "evolves_res q mute c x \<Longrightarrow> (\<And>d. evolves q mute c d \<Longrightarrow> evolves_res q mute c (f d)) \<Longrightarrow>
   evolves_res q mute c (case x of Inl e \<Rightarrow> Inl e | Inr d \<Rightarrow> f d)"
  by (cases x) (simp_all add: evolves_res_def)

lemma evolves_actions [evolving]:
  "evolves q mute c d \<Longrightarrow> evolves q mute c (fold_action i d)" "evolves q mute c d \<Longrightarrow> evolves q mute c (check_action i d)"
  "evolves q mute c d \<Longrightarrow> evolves q mute c (raise_action i n m d)" "evolves q mute c d \<Longrightarrow> evolves q mute c (allin_action i n d)"
  "evolves q mute c d \<Longrightarrow> evolves q mute c (after_action i d)"
  unfolding fold_action_def check_action_def raise_action_def allin_action_def after_action_def
  by (intro evolving; simp add: same_rest)+

lemma evolves_call [evolving]: "evolves q mute c d \<Longrightarrow> evolves q mute c (call_action i p n d)"
proof -
  assume ev: "evolves q mute c d"
  have "evolves q mute c (d\<lparr>rm := snd (place_bet i (chips p) (rm d))\<rparr>)"
    by (intro evolves.write_room ev) simp
  then show ?thesis
    unfolding call_action_def case_prod_beta Let_def by (intro evolving ev; simp)
qed

lemma evolves_apply_action: "apply_action i p act d = Accepted e \<Longrightarrow> evolves q mute c d \<Longrightarrow> evolves q mute c e"
  by (auto simp: apply_action_def Let_def evolving split: if_splits)

lemma evolves_handle_action [evolving_res]:
  assumes "evolves q mute c d"
  shows "evolves_res q mute c (handle_action i act sid d)"
proof -
  have reject: "evolves q mute c d \<Longrightarrow> evolves_res q mute c (Inr (reject_illegal_action sid why d))" for why d
    unfolding reject_illegal_action_def by (intro evolving_res evolving)
  have accept: "evolves_res q mute c (case apply_action i p act e of Fault x \<Rightarrow> Inl x
      | Rejected why \<Rightarrow> Inr (reject_illegal_action sid why e) | Accepted z \<Rightarrow> Inr (after_action i z))"
    if "evolves q mute c e" for p e
    using that evolves_apply_action[of i p act e _ q mute c] reject[of e]
    by (cases "apply_action i p act e") (auto intro: evolving evolving_res)
  show ?thesis
    unfolding handle_action_def Let_def
    by (intro evolving_res reject accept evolving assms; simp)
qed

lemma evolves_ai_act [evolving_res]: "evolves q mute c d \<Longrightarrow> evolves_res q mute c (ai_act x i d)"
  unfolding ai_act_def Let_def by (intro evolving_res evolving; simp)

lemma evolves_ai_timer: "evolves q mute c d \<Longrightarrow> evolves_res q mute c (ai_timer_fires x d)"
  unfolding ai_timer_fires_def Let_def by (intro evolving_res evolving; simp)

lemma evolves_apply_rebuys: "evolves q mute c d \<Longrightarrow> evolves_res q mute c (apply_rebuys is d)"
proof (induction "is" arbitrary: d)
  case (Cons i "is")
  show ?case
    unfolding apply_rebuys.simps Let_def by (intro evolving_res evolving Cons; simp)
qed (simp add: evolves_res_def)

lemma evolves_emit_match_over [evolving]: "evolves q mute c d \<Longrightarrow> evolves q mute c (emit_match_over t d)"
proof -
  assume ev: "evolves q mute c d"
  have "evolves q mute c y \<Longrightarrow> evolves q mute c (y\<lparr>recorded_matches := m, cached_users := u\<rparr>)" for y m u
    using evolves.write_users[OF evolves.write_matches] by blast
  with ev show ?thesis
    unfolding emit_match_over_def Let_def
    by (intro evolving) (simp_all add: same_log_def)
qed

lemma evolves_start_parts [evolving]:
  "evolves q mute c d \<Longrightarrow> evolves q mute c (open_hand shuf d)" "evolves q mute c d \<Longrightarrow> evolves q mute c (post_blinds d)"
  unfolding open_hand_def post_blinds_def Let_def by (intro evolving; simp)+

lemma evolves_apply_pending_rebuys [evolving_res]:
  "evolves q mute c d \<Longrightarrow> evolves_res q mute c (apply_pending_rebuys d)"
  unfolding apply_pending_rebuys_def by (rule evolves_apply_rebuys)

lemma evolves_send_private_hand: "evolves q False c d \<Longrightarrow> evolves q False c (send_private_hand i d)"
  unfolding send_private_hand_def by (intro evolving) simp_all

lemma evolves_deal_hands [evolving]: "evolves q False c d \<Longrightarrow> evolves q False c (deal_hands d)"
  unfolding deal_hands_def by (intro evolves_fold evolves_send_private_hand evolving; simp)

lemma evolves_start_hand [evolving_res]: "evolves q False c d \<Longrightarrow> evolves_res q False c (start_hand shuf d)"
  unfolding start_hand_def by (intro evolving_res evolving; simp)

subsection \<open>The other handlers\<close>

lemma evolves_start_game [evolving_res]: "evolves q False c d \<Longrightarrow> evolves_res q False c (handle_start_game shuf req sid d)"
  unfolding handle_start_game_def by (intro evolving_res evolving; simp)

lemma evolves_player_action [evolving_res]: "evolves q mute c d \<Longrightarrow> evolves_res q mute c (handle_player_action act sid d)"
  unfolding handle_player_action_def by (intro evolving_res evolving; simp)

lemma evolves_prune [evolving]: "evolves False mute c d \<Longrightarrow> evolves False mute c (prune_departed_seats d)"
proof -
  have "evolves False mute c d \<Longrightarrow> evolves False mute c (prune_seat i d)" for i d
    unfolding prune_seat_def by (intro evolving; simp)
  then show "evolves False mute c d \<Longrightarrow> evolves False mute c (prune_departed_seats d)"
    unfolding prune_departed_seats_def by (rule evolves_fold)
qed

lemma evolves_next_hand [evolving_res]: "evolves False False c d \<Longrightarrow> evolves_res False False c (handle_next_hand shuf sid d)"
  unfolding handle_next_hand_def by (intro evolving_res evolving; simp)

lemma evolves_grant [evolving_res]: "evolves q mute c d \<Longrightarrow> evolves_res q mute c (grant_rebuy i n line d)"
  unfolding grant_rebuy_def by (intro evolving_res evolving; simp)

lemma evolves_rebuy [evolving_res]:
  "evolves q mute c d \<Longrightarrow> evolves_res q mute c (handle_rebuy n sid d)"
  "evolves q mute c d \<Longrightarrow> evolves_res q mute c (handle_rebuy_approve i n sid d)"
  "evolves q mute c d \<Longrightarrow> evolves_res q mute c (handle_rebuy_deny i sid d)"
  unfolding handle_rebuy_def handle_rebuy_approve_def handle_rebuy_deny_def
  by (intro evolving_res evolving; simp)+

lemma evolves_tell_voice [evolving]: "evolves q mute c d \<Longrightarrow> cards_of m = None \<Longrightarrow> evolves q mute c (tell_voice P e m d)"
  unfolding tell_voice_def by (intro evolves_fold evolving) simp_all

lemma evolves_set_decor [evolving]: "evolves False mute c d \<Longrightarrow> evolves False mute c (handle_set_decor dec sid d)"
  unfolding handle_set_decor_def Let_def by (intro evolving; simp)

lemma evolves_small [evolving]:
  "evolves q mute c d \<Longrightarrow> evolves q mute c (handle_rebuy_request n sid d)"
  "evolves q mute c d \<Longrightarrow> evolves q mute c (leave_voice sid d)"
  "evolves q mute c d \<Longrightarrow> evolves q mute c (handle_voice_signal t dt sid d)"
  unfolding handle_rebuy_request_def leave_voice_def handle_voice_signal_def Let_def
  by (intro evolving; simp)+

lemma evolves_voice [evolving]:
  "evolves q mute c d \<Longrightarrow> evolves q mute c (handle_voice_join sid d)"
  "evolves q mute c d \<Longrightarrow> evolves q mute c (handle_voice_leave sid d)"
  unfolding handle_voice_join_def handle_voice_leave_def Let_def
  by (intro evolving; simp)+

lemma evolves_ack: "evolves q mute c d \<Longrightarrow> evolves q mute c (snd (handle_ack_match_over sid d))"
proof -
  have "evolves q mute c y \<Longrightarrow> evolves q mute c (snd (release_room_if_done y))" for y
    by (auto simp: release_room_if_done_def Let_def intro!: evolving)
  moreover have "evolves q mute c d \<Longrightarrow> evolves q mute c (on_room (\<lambda>r. r\<lparr>match_acks := insert s (match_acks r)\<rparr>) d)" for s
    by (intro evolving; simp)
  ultimately show "evolves q mute c d \<Longrightarrow> evolves q mute c (snd (handle_ack_match_over sid d))"
    by (simp add: handle_ack_match_over_def)
qed

lemma evolves_disconnect: "evolves False mute c d \<Longrightarrow> evolves False mute c (snd (handle_disconnect sid d))"
proof -
  assume ev: "evolves False mute c d"
  have seat: "evolves False mute c y \<Longrightarrow> evolves False mute c (disconnect_seat sid i y)" for i y
    unfolding disconnect_seat_def Let_def by (intro evolving; simp)
  have host: "evolves False mute c y \<Longrightarrow> evolves False mute c (hand_over_host sid y)" for y
    unfolding hand_over_host_def by (intro evolving; simp)
  have drop: "evolves False mute c y \<Longrightarrow> evolves False mute c (drop_snapshot y)" for y
    unfolding drop_snapshot_def by (intro evolving)
  define P where "P x = evolves False mute c (snd x)" for x :: "bool \<times> Ctx"
  have P: "evolves False mute c y \<Longrightarrow> P (b, y)"
    "(b \<Longrightarrow> P p) \<Longrightarrow> (\<not> b \<Longrightarrow> P p') \<Longrightarrow> P (if b then p else p')"
    "evolves False mute c y \<Longrightarrow> (\<And>y. evolves False mute c y \<Longrightarrow> P (f y)) \<Longrightarrow> P (Let y f)"
    "(\<And>b::bool. P (g b)) \<Longrightarrow> P (Let b' g)" for b b' y p p' f g
    by (simp_all add: P_def)
  have "P (handle_disconnect sid d)"
    unfolding handle_disconnect_def
    by (intro P host drop evolves_fold seat evolving ev; simp add: Let_def)
  then show ?thesis by (simp add: P_def)
qed

lemma evolves_handle_request:
  assumes "handle_request ch req sid c = Inr res"
  shows "evolves False False c (snd res)"
proof -
  have keep: "evolves_res False False c x \<Longrightarrow> map_sum id (Pair False) x = Inr res \<Longrightarrow> evolves False False c (snd res)" for x
    by (cases x) (auto simp: evolves_res_def)
  note c = evolves.start[of False False c]
  show ?thesis
  proof (cases req)
    case AckMatchOver
    then show ?thesis using assms evolves_ack[OF c] by (auto simp: handle_request_def)
  qed (use assms in \<open>(auto simp: handle_request_def Let_def dest!: keep[rotated])?,
         (intro evolving evolving_res c)+\<close>)
qed

end
