(* ===== verification/Json.thy ===== *)
theory Json
  imports Std_Map "HOL-Library.Char_ord" "HOL-Library.List_Lexorder" "HOL-Library.Monad_Syntax"
begin

section \<open>JSON values as the program uses them\<close>

text \<open>
  The values of the JSON library the code builds and takes apart, without their text form. Objects are
  ordered maps. \<open>None\<close> is the exception the library throws on a value of the wrong type. Numbers are
  integers here; a fractional number is out of the model.
\<close>

datatype json =
    JNull
  | JBool bool
  | JInt int
  | JStr string
  | JArr "json list"
  | JObj "(string, json) smap"

text \<open>\<open>json j; j["a"] = x; j["b"] = y; ...\<close>\<close>

definition entries :: "(string \<times> json) list \<Rightarrow> (string, json) smap" where
  "entries kvs = fold (\<lambda>(k, v). smap_put k v) kvs []"

definition jobj :: "(string \<times> json) list \<Rightarrow> json" where
  "jobj kvs = JObj (entries kvs)"

text \<open>\<open>j.contains(k)\<close> with \<open>j[k]\<close>; \<open>is_object()\<close>, \<open>is_array()\<close>.\<close>

definition jfield :: "string \<Rightarrow> json \<Rightarrow> json option" where
  "jfield k j = (case j of JObj m \<Rightarrow> smap_get m k | _ \<Rightarrow> None)"

definition is_object :: "json \<Rightarrow> bool" where
  "is_object j = (case j of JObj m \<Rightarrow> True | _ \<Rightarrow> False)"

text \<open>The conversions \<open>get<T>()\<close>. A number is narrowed by \<open>static_cast\<close>; \<open>int\<close> also takes a boolean.\<close>

definition to_i32 :: "int \<Rightarrow> int" where
  "to_i32 n = (n + 2 ^ 31) mod 2 ^ 32 - 2 ^ 31"

definition to_i64 :: "int \<Rightarrow> int" where
  "to_i64 n = (n + 2 ^ 63) mod 2 ^ 64 - 2 ^ 63"

definition get_int :: "json \<Rightarrow> int option" where
  "get_int j = (case j of JInt n \<Rightarrow> Some (to_i32 n) | JBool b \<Rightarrow> Some (of_bool b) | _ \<Rightarrow> None)"

definition get_int64 :: "json \<Rightarrow> int option" where
  "get_int64 j = (case j of JInt n \<Rightarrow> Some (to_i64 n) | _ \<Rightarrow> None)"

definition get_bool :: "json \<Rightarrow> bool option" where
  "get_bool j = (case j of JBool b \<Rightarrow> Some b | _ \<Rightarrow> None)"

definition get_string :: "json \<Rightarrow> string option" where
  "get_string j = (case j of JStr s \<Rightarrow> Some s | _ \<Rightarrow> None)"

text \<open>\<open>j.value(k, default)\<close> throws unless \<open>j\<close> is an object.\<close>

definition jvalue :: "(json \<Rightarrow> 'a option) \<Rightarrow> string \<Rightarrow> 'a \<Rightarrow> json \<Rightarrow> 'a option" where
  "jvalue conv k d j =
     (case j of
        JObj m \<Rightarrow> (case smap_get m k of None \<Rightarrow> Some d | Some v \<Rightarrow> conv v)
      | _ \<Rightarrow> None)"

text \<open>\<open>if (j.contains(k) && j[k].is_number_integer()) x = j[k].get<T>(); else x = default;\<close>\<close>

definition jnumber :: "(int \<Rightarrow> int) \<Rightarrow> string \<Rightarrow> int \<Rightarrow> json \<Rightarrow> int" where
  "jnumber narrow k d j = (case jfield k j of Some (JInt n) \<Rightarrow> narrow n | _ \<Rightarrow> d)"

text \<open>\<open>if (j.contains(k) && j[k].is_array()) for (const auto& x : j[k]) ...\<close>: the elements, or none.\<close>

definition jarray :: "string \<Rightarrow> json \<Rightarrow> json list" where
  "jarray k j = (case jfield k j of Some (JArr xs) \<Rightarrow> xs | _ \<Rightarrow> [])"

text \<open>A loop over the elements whose body may throw.\<close>

fun json_each :: "(json \<Rightarrow> 'a option) \<Rightarrow> json list \<Rightarrow> 'a list option" where
  "json_each f [] = Some []"
| "json_each f (x # xs) = do { y \<leftarrow> f x; ys \<leftarrow> json_each f xs; Some (y # ys) }"

subsection \<open>Lookups in what was built\<close>

lemma smap_get_fold_put:
  "smap_get (fold (\<lambda>(k, v). smap_put k v) kvs m) k =
     (case map_of (rev kvs) k of None \<Rightarrow> smap_get m k | Some v \<Rightarrow> Some v)"
  by (induction kvs arbitrary: m) (auto simp: smap_get_put map_add_def split: option.split)

lemma smap_get_entries: "distinct (map fst kvs) \<Longrightarrow> smap_get (entries kvs) k = map_of kvs k"
  using map_of_inject_set[of "rev kvs" kvs]
  by (simp add: entries_def smap_get_fold_put rev_map[symmetric] split: option.split)

lemma jfield_jobj: "distinct (map fst kvs) \<Longrightarrow> jfield k (jobj kvs) = map_of kvs k"
  by (simp add: jfield_def jobj_def smap_get_entries)

lemma jvalue_jobj:
  "distinct (map fst kvs) \<Longrightarrow>
   jvalue conv k d (jobj kvs) = (case map_of kvs k of None \<Rightarrow> Some d | Some v \<Rightarrow> conv v)"
  by (simp add: jvalue_def jobj_def smap_get_entries)

lemma is_object_jobj [simp]: "is_object (jobj kvs)"
  by (simp add: is_object_def jobj_def)

lemma json_each_map: "(\<And>x. x \<in> set xs \<Longrightarrow> f (g x) = Some (h x)) \<Longrightarrow> json_each f (map g xs) = Some (map h xs)"
  by (induction xs) auto

definition in_i64 :: "int \<Rightarrow> bool" where
  "in_i64 n \<longleftrightarrow> - (2 ^ 63) \<le> n \<and> n < 2 ^ 63"

lemma to_i32_id: "in_i32 n \<Longrightarrow> to_i32 n = n"
  by (simp add: to_i32_def i32_defs)

lemma to_i64_id: "in_i64 n \<Longrightarrow> to_i64 n = n"
  by (simp add: to_i64_def in_i64_def)

lemma get_simps [simp]:
  "get_int (JInt n) = Some (to_i32 n)" "get_int64 (JInt n) = Some (to_i64 n)"
  "get_bool (JBool b) = Some b" "get_string (JStr s) = Some s"
  by (simp_all add: get_int_def get_int64_def get_bool_def get_string_def)

end
