(* ===== verification/Base64.thy ===== *)
theory Base64
  imports Text_Utils "HOL-Library.Word"
begin

section \<open>Base64 (main.cpp)\<close>

text \<open>
  Every envelope and every HTTP body crosses the connection to the gateway in base64. The two loops
  keep their bits in a 32-bit accumulator \<open>val\<close> that overflows after a few characters, and the number
  of bits not yet used in \<open>valb\<close>. \<open>unsigned\<close> and \<open>int\<close> are 32 bits; since C++20 \<open><<\<close> on an \<open>int\<close> drops the
  bits shifted out, and \<open>>>\<close> copies the sign bit.
\<close>

unbundle bit_operations_syntax

definition kBase64 :: string where
  "kBase64 = ''ABCDEFGHIJKLMNOPQRSTUVWXYZabcdefghijklmnopqrstuvwxyz0123456789+/''"

subsection \<open>Encoding\<close>

text \<open>\<open>while (valb >= 0) { out.push_back(table[(val >> valb) & 63]); valb -= 6; }\<close>: what it pushes, and \<open>valb\<close>.\<close>

function emit_sextets :: "32 word \<Rightarrow> int \<Rightarrow> string \<times> int" where
  "emit_sextets val valb =
     (if valb \<ge> 0 then
        let (out, valb') = emit_sextets val (valb - 6)
        in (kBase64 ! unat (drop_bit (nat valb) val AND 63) # out, valb')
      else ([], valb))"
  by pat_completeness auto
termination by (relation "measure (\<lambda>(val, valb). nat (valb + 1))") auto

declare emit_sextets.simps [simp del]

fun encode_bytes :: "string \<Rightarrow> 32 word \<Rightarrow> int \<Rightarrow> string \<times> 32 word \<times> int" where
  "encode_bytes [] val valb = ([], val, valb)"
| "encode_bytes (c # cs) val valb =
     (let val = push_bit 8 val + of_nat (byte c);
          (out, valb) = emit_sextets val (valb + 8);
          (rest, val, valb) = encode_bytes cs val valb
      in (out @ rest, val, valb))"

text \<open>\<open>while (out.size() % 4) out.push_back('=');\<close>\<close>

definition pad_base64 :: "string \<Rightarrow> string" where
  "pad_base64 out = out @ replicate ((4 - length out mod 4) mod 4) (CHR ''='')"

definition base64_encode :: "string \<Rightarrow> string" where
  "base64_encode s =
     (let (out, val, valb) = encode_bytes s 0 (- 6);
          out = (if valb > - 6
                 then out @ [kBase64 ! unat (drop_bit (nat (valb + 8)) (push_bit 8 val) AND 63)] else out)
      in pad_base64 out)"

subsection \<open>Decoding\<close>

text \<open>The table \<open>T\<close>: the value of each character of the alphabet, -1 elsewhere.\<close>

definition sextet_table :: "int list" where
  "sextet_table = fold (\<lambda>i T. T[byte (kBase64 ! i) := int i]) [0..<64] (replicate 256 (- 1))"

definition sextet :: "char \<Rightarrow> int" where
  "sextet c = sextet_table ! byte c"

fun decode_chars :: "string \<Rightarrow> 32 word \<Rightarrow> int \<Rightarrow> string" where
  "decode_chars [] val valb = []"
| "decode_chars (c # cs) val valb =
     (if c = CHR ''='' then []
      else if sextet c = - 1 then decode_chars cs val valb
      else
        let val = push_bit 6 val + of_int (sextet c); valb = valb + 6
        in if valb \<ge> 0
           then char_of (unat (signed_drop_bit (nat valb) val AND 255)) # decode_chars cs val (valb - 8)
           else decode_chars cs val valb)"

definition base64_decode :: "string \<Rightarrow> string" where
  "base64_decode s = decode_chars s 0 (- 8)"

subsection \<open>The standard's encoding, three bytes at a time\<close>

definition b64 :: "nat \<Rightarrow> char" where
  "b64 n = kBase64 ! n"

text \<open>RFC 4648: three bytes are four sextets; one or two bytes left over are padded with zero bits.\<close>

fun rfc4648 :: "string \<Rightarrow> string" where
  "rfc4648 [] = []"
| "rfc4648 [a] = [b64 (byte a div 4), b64 (byte a mod 4 * 16), CHR ''='', CHR ''='']"
| "rfc4648 [a, b] =
     [b64 (byte a div 4), b64 (byte a mod 4 * 16 + byte b div 16), b64 (byte b mod 16 * 4), CHR ''='']"
| "rfc4648 (a # b # c # cs) =
     [b64 (byte a div 4), b64 (byte a mod 4 * 16 + byte b div 16), b64 (byte b mod 16 * 4 + byte c div 64),
      b64 (byte c mod 64)] @ rfc4648 cs"

lemma byte_less [simp]: "byte c < 256"
  by (metis nat_of_char_less_256)

text \<open>The accumulator, read as a number. What overflows never reaches the bits that are still used.\<close>

lemma and_63: "w AND 63 = take_bit 6 (w :: 32 word)" and and_255: "w AND 255 = take_bit 8 w"
  by (simp_all add: take_bit_eq_mask mask_eq_exp_minus_1)

lemma unat_mask_63: "unat (drop_bit k (w :: 32 word) AND 63) = unat w div 2 ^ k mod 64"
  unfolding and_63 unsigned_take_bit_eq unat_drop_bit_eq by (simp add: take_bit_eq_mod drop_bit_eq_div)

lemma mod_div_mod:
  assumes "k + j \<le> 32"
  shows "(x mod 2 ^ 32) div 2 ^ k mod 2 ^ j = x div 2 ^ k mod (2 ^ j :: nat)"
proof -
  have "take_bit j (drop_bit k (take_bit 32 x)) = take_bit j (drop_bit k x)"
    using assms by (intro bit_eqI) (auto simp: bit_simps)
  then show ?thesis by (simp add: take_bit_eq_mod drop_bit_eq_div)
qed

lemma unat_push_byte: "unat (push_bit n (w :: 32 word) + of_nat m) = (unat w * 2 ^ n + m) mod 2 ^ 32"
proof -
  have "push_bit n w + of_nat m = of_nat (unat w * 2 ^ n + m)"
    by (simp add: push_bit_eq_mult)
  then have "unat (push_bit n w + of_nat m) = (unat w * 2 ^ n + m) mod 2 ^ LENGTH(32)"
    by (simp only: unat_of_nat)
  then show ?thesis by simp
qed

lemma sextet_bits:
  assumes "k + 6 \<le> 32"
  shows "unat (drop_bit k (push_bit n (w :: 32 word) + of_nat m) AND 63) = (unat w * 2 ^ n + m) div 2 ^ k mod 64"
  using mod_div_mod[of k 6 "unat w * 2 ^ n + m"] assms by (simp add: unat_mask_63 unat_push_byte)


lemma div_shifted: "0 < d \<Longrightarrow> (u * (d * e) + a) div d = u * e + a div (d :: nat)"
  using div_mult_self2[of d a "u * e"] by (simp add: ac_simps)

lemma mod_split:
  assumes "r < e" "0 < m"
  shows "(u * e + r) mod (m * e) = u mod m * e + (r :: nat)"
proof -
  have "u * e + r = (u mod m * e + r) + u div m * (m * e)"
    by (metis (no_types) ab_semigroup_add_class.add_ac(1) add.commute distrib_right div_mult_mod_eq mult.assoc)
  moreover have "u mod m * e + r < m * e"
  proof -
    have "(u mod m + 1) * e \<le> m * e" using assms(2) by (intro mult_le_mono) (simp_all add: Suc_le_eq)
    with assms(1) show ?thesis by simp
  qed
  ultimately show ?thesis by (simp only: mod_mult_self1 mod_less)
qed

lemma sextet_arith:
  fixes a u :: nat
  assumes "a < 256"
  shows "(u * 256 + a) div 4 mod 64 = a div 4" "(u * 256 + a) div 16 mod 64 = u mod 4 * 16 + a div 16"
    "(u * 256 + a) div 64 mod 64 = u mod 16 * 4 + a div 64" "(u * 256 + a) mod 64 = a mod 64"
proof -
  have "a div 4 < 64" "a div 16 < 16" "a div 64 < 4" using assms by simp_all
  then show "(u * 256 + a) div 4 mod 64 = a div 4" "(u * 256 + a) div 16 mod 64 = u mod 4 * 16 + a div 16"
    "(u * 256 + a) div 64 mod 64 = u mod 16 * 4 + a div 64"
    using div_shifted[of 4 u 64 a] div_shifted[of 16 u 16 a] div_shifted[of 64 u 4 a]
      mod_split[of "a div 4" 64 1 u] mod_split[of "a div 16" 16 4 u] mod_split[of "a div 64" 4 16 u]
    by simp_all
  show "(u * 256 + a) mod 64 = a mod 64"
    using mod_mult_self2[of a 64 "u * 4"] by (simp add: ac_simps)
qed

lemma flush_arith: "16 * u mod 64 = u mod 4 * (16::nat)" "4 * u mod 64 = u mod 16 * (4::nat)"
  using mod_split[of 0 16 4 u] mod_split[of 0 4 16 u] by (simp_all add: mult.commute)

lemma two_pads: "replicate 2 x = [x, x]"
  by (simp add: numeral_2_eq_2)

lemma low_bits:
  "(u * 256 + a) mod 2 ^ 32 mod 4 = a mod (4::nat)" "(u * 256 + a) mod 2 ^ 32 mod 16 = a mod (16::nat)"
  using mod_mult_self2[of a 4 "u * 64"] mod_mult_self2[of a 16 "u * 16"]
  by (simp_all add: mod_mod_cancel ac_simps)

lemma push_8:
  "unat (push_bit 8 (w :: 32 word) + of_nat m) mod 4 = m mod 4"
  "unat (push_bit 8 w + of_nat m) mod 16 = m mod 16"
  using low_bits[of "unat w" m] unat_push_byte[of 8 w m] by simp_all

lemma emit_sextet:
  "emit_sextets (push_bit 8 w + of_nat (byte a)) 2 = ([b64 (byte a div 4)], - 4)"
  "emit_sextets (push_bit 8 w + of_nat (byte a)) 4 = ([b64 (unat w mod 4 * 16 + byte a div 16)], - 2)"
  "emit_sextets (push_bit 8 w + of_nat (byte a)) 6 =
     ([b64 (unat w mod 16 * 4 + byte a div 64), b64 (byte a mod 64)], - 6)"
  using sextet_bits[of 2 8 w "byte a"] sextet_bits[of 4 8 w "byte a"] sextet_bits[of 6 8 w "byte a"]
    sextet_bits[of 0 8 w "byte a"]
  by (simp_all add: emit_sextets.simps b64_def sextet_arith[OF byte_less])

lemma encode_group:
  "\<exists>w'. encode_bytes (a # b # c # cs) w (- 6) =
     ([b64 (byte a div 4), b64 (byte a mod 4 * 16 + byte b div 16), b64 (byte b mod 16 * 4 + byte c div 64),
       b64 (byte c mod 64)] @ fst (encode_bytes cs w' (- 6)), snd (encode_bytes cs w' (- 6)))"
  by (intro exI[of _ "push_bit 8 (push_bit 8 (push_bit 8 w + of_nat (byte a)) + of_nat (byte b)) + of_nat (byte c)"])
    (simp add: emit_sextet push_8 Let_def case_prod_beta)

text \<open>The characters for the bits left over, from the accumulator as it stands.\<close>

definition flush_bits :: "string \<times> 32 word \<times> int \<Rightarrow> string" where
  "flush_bits st = (case st of (out, val, valb) \<Rightarrow>
     if valb > - 6
     then out @ [kBase64 ! unat (drop_bit (nat (valb + 8)) (push_bit 8 val) AND 63)] else out)"

lemma flush_append: "flush_bits (xs @ out, st) = xs @ flush_bits (out, st)"
  by (simp add: flush_bits_def split: prod.split)

lemma pad_append: "length xs mod 4 = 0 \<Longrightarrow> pad_base64 (xs @ ys) = xs @ pad_base64 ys"
  by (simp add: pad_base64_def mod_add_left_eq[symmetric])

lemma encode_rfc4648: "pad_base64 (flush_bits (encode_bytes s w (- 6))) = rfc4648 s"
proof (induction s arbitrary: w rule: rfc4648.induct)
  case 1
  then show ?case by (simp add: flush_bits_def pad_base64_def)
next
  case (2 a)
  show ?case
    using sextet_bits[of 4 8 "push_bit 8 w + of_nat (byte a)" 0] push_8(1)[of w "byte a"]
    by (simp add: emit_sextet flush_bits_def pad_base64_def b64_def flush_arith two_pads)
next
  case (3 a b)
  show ?case
    using sextet_bits[of 6 8 "push_bit 8 (push_bit 8 w + of_nat (byte a)) + of_nat (byte b)" 0]
      push_8(2)[of "push_bit 8 w + of_nat (byte a)" "byte b"]
    by (simp add: emit_sextet push_8 flush_bits_def pad_base64_def b64_def flush_arith)
next
  case (4 a b c cs)
  obtain w' where w': "encode_bytes (a # b # c # cs) w (- 6) =
     ([b64 (byte a div 4), b64 (byte a mod 4 * 16 + byte b div 16), b64 (byte b mod 16 * 4 + byte c div 64),
       b64 (byte c mod 64)] @ fst (encode_bytes cs w' (- 6)), snd (encode_bytes cs w' (- 6)))"
    using encode_group by blast
  have "pad_base64 (flush_bits (fst (encode_bytes cs w' (- 6)), snd (encode_bytes cs w' (- 6)))) = rfc4648 cs"
    using "4.IH"[of w'] by simp
  then show ?case
    unfolding w' flush_append by (subst pad_append) simp_all
qed

text \<open>The loop computes the standard's encoding.\<close>

lemma base64_encode_rfc4648: "base64_encode s = rfc4648 s"
  using encode_rfc4648[of s 0] by (simp add: base64_encode_def flush_bits_def Let_def case_prod_beta)

subsection \<open>Decoding what was encoded\<close>

lemma sextet_table_eq:
  "sextet_table = replicate 43 (- 1) @ [62] @ replicate 3 (- 1) @ [63] @ map int [52..<62] @ replicate 7 (- 1) @
     map int [0..<26] @ replicate 6 (- 1) @ map int [26..<52] @ replicate 133 (- 1)"
  by code_simp

lemma sextet_b64: "n < 64 \<Longrightarrow> sextet (b64 n) = int n"
proof -
  have "map (\<lambda>c. sextet_table ! byte c) kBase64 = map int [0..<64]"
    unfolding sextet_table_eq by code_simp
  then have "map (\<lambda>c. sextet_table ! byte c) kBase64 ! n = map int [0..<64] ! n" by (rule arg_cong)
  moreover have "length kBase64 = 64" by (simp add: kBase64_def)
  ultimately show "n < 64 \<Longrightarrow> ?thesis" by (simp add: sextet_def b64_def)
qed

lemma b64_not_pad: "n < 64 \<Longrightarrow> b64 n \<noteq> CHR ''=''"
proof -
  have "\<forall>n \<in> set [0..<64]. b64 n \<noteq> CHR ''=''" by code_simp
  then show "n < 64 \<Longrightarrow> ?thesis" by simp
qed

lemma decode_b64:
  "n < 64 \<Longrightarrow> decode_chars (b64 n # cs) w k =
     (if k + 6 \<ge> 0
      then char_of (unat (signed_drop_bit (nat (k + 6)) (push_bit 6 w + of_nat n) AND 255))
             # decode_chars cs (push_bit 6 w + of_nat n) (k - 2)
      else decode_chars cs (push_bit 6 w + of_nat n) (k + 6))"
  by (simp add: sextet_b64 b64_not_pad Let_def)

text \<open>Eight bits that lie low enough are the same whichever way the sign is treated.\<close>

lemma octet_bits:
  assumes "k + 8 \<le> 32"
  shows "unat (signed_drop_bit k (push_bit n (w :: 32 word) + of_nat m) AND 255) = (unat w * 2 ^ n + m) div 2 ^ k mod 256"
proof -
  have "signed_drop_bit k v AND 255 = take_bit 8 (drop_bit k v)" for v :: "32 word"
    unfolding and_255 using assms
    by (intro bit_eqI) (auto simp: bit_simps)
  then show ?thesis
    using mod_div_mod[of k 8 "unat w * 2 ^ n + m"] assms
    by (simp add: unsigned_take_bit_eq unat_drop_bit_eq take_bit_eq_mod[where 'a = nat]
        drop_bit_eq_div[where 'a = nat] unat_push_byte)
qed


lemma octet_arith:
  fixes t u :: nat
  assumes "t < 64"
  shows "(u * 64 + t) div 16 mod 256 = u mod 64 * 4 + t div 16" "(u * 64 + t) div 4 mod 256 = u mod 16 * 16 + t div 4"
    "(u * 64 + t) mod 256 = u mod 4 * 64 + t"
proof -
  have "t div 16 < 4" "t div 4 < 16" using assms by simp_all
  then show "(u * 64 + t) div 16 mod 256 = u mod 64 * 4 + t div 16" "(u * 64 + t) div 4 mod 256 = u mod 16 * 16 + t div 4"
    using div_shifted[of 16 u 4 t] div_shifted[of 4 u 16 t]
      mod_split[of "t div 16" 4 64 u] mod_split[of "t div 4" 16 16 u]
    by simp_all
  show "(u * 64 + t) mod 256 = u mod 4 * 64 + t" using mod_split[of t 64 4 u] assms by simp
qed

lemma push_6:
  "unat (push_bit 6 (w :: 32 word) + of_nat m) mod 64 = m mod 64"
  "unat (push_bit 6 w + of_nat m) mod 16 = m mod 16" "unat (push_bit 6 w + of_nat m) mod 4 = m mod 4"
  using unat_push_byte[of 6 w m] mod_mult_self2[of m 64 "unat w"] mod_mult_self2[of m 16 "unat w * 4"]
    mod_mult_self2[of m 4 "unat w * 16"]
  by (simp_all add: mod_mod_cancel ac_simps)

lemma decode_step:
  assumes "n < 64"
  shows "decode_chars (b64 n # cs) w (- 8) = decode_chars cs (push_bit 6 w + of_nat n) (- 2)"
    "decode_chars (b64 n # cs) w (- 2) =
       char_of (unat w mod 64 * 4 + n div 16) # decode_chars cs (push_bit 6 w + of_nat n) (- 4)"
    "decode_chars (b64 n # cs) w (- 4) =
       char_of (unat w mod 16 * 16 + n div 4) # decode_chars cs (push_bit 6 w + of_nat n) (- 6)"
    "decode_chars (b64 n # cs) w (- 6) =
       char_of (unat w mod 4 * 64 + n) # decode_chars cs (push_bit 6 w + of_nat n) (- 8)"
  using octet_bits[of 4 6 w n] octet_bits[of 2 6 w n] octet_bits[of 0 6 w n] assms
  by (simp_all add: decode_b64 octet_arith del: decode_chars.simps)

text \<open>Four characters give three bytes back, whatever the accumulator holds.\<close>

lemma decode_group:
  assumes "t1 < 64" "t2 < 64" "t3 < 64" "t4 < 64"
  shows "\<exists>w'. decode_chars (b64 t1 # b64 t2 # b64 t3 # b64 t4 # cs) w (- 8) =
    [char_of (t1 * 4 + t2 div 16), char_of (t2 mod 16 * 16 + t3 div 4), char_of (t3 mod 4 * 64 + t4)]
      @ decode_chars cs w' (- 8)"
  using assms by (simp add: decode_step push_6 del: decode_chars.simps) blast

lemma decode_rest:
  assumes "t1 < 64" "t2 < 64" "t3 < 64"
  shows "decode_chars [b64 t1, b64 t2, CHR ''='', c] w (- 8) = [char_of (t1 * 4 + t2 div 16)]"
    "decode_chars [b64 t1, b64 t2, b64 t3, CHR ''=''] w (- 8) =
       [char_of (t1 * 4 + t2 div 16), char_of (t2 mod 16 * 16 + t3 div 4)]"
  using assms by (simp_all add: decode_step push_6 del: decode_chars.simps(2)) simp_all

lemma group_bytes:
  fixes a b c :: nat
  assumes "b < 256" "c < 256"
  shows "a div 4 * 4 + (a mod 4 * 16 + b div 16) div 16 = a"
    "(a mod 4 * 16 + b div 16) mod 16 * 16 + (b mod 16 * 4 + c div 64) div 4 = b"
    "(b mod 16 * 4 + c div 64) mod 4 * 64 + c mod 64 = c"
proof -
  have digits: "(x * n + r) div n = x" "(x * n + r) mod n = r" if "r < n" for x n r :: nat
    using that by (simp_all add: div_mult_self3)
  have "b div 16 < 16" "c div 64 < 4" using assms by simp_all
  then show "a div 4 * 4 + (a mod 4 * 16 + b div 16) div 16 = a"
    "(a mod 4 * 16 + b div 16) mod 16 * 16 + (b mod 16 * 4 + c div 64) div 4 = b"
    "(b mod 16 * 4 + c div 64) mod 4 * 64 + c mod 64 = c"
    by (simp_all only: digits div_mult_mod_eq)
qed

lemma group_sextets:
  "byte a div 4 < 64" "byte a mod 4 * 16 + byte b div 16 < 64" "byte b mod 16 * 4 + byte c div 64 < 64"
  "byte c mod 64 < 64" "byte a mod 4 * 16 < 64" "byte b mod 16 * 4 < 64"
proof -
  have "byte b div 16 < 16" "byte c div 64 < 4" "byte a div 4 < 64"
    by (simp_all add: div_less_iff_less_mult)
  moreover have "byte a mod 4 < 4" "byte b mod 16 < 16" by simp_all
  ultimately show "byte a div 4 < 64" "byte a mod 4 * 16 + byte b div 16 < 64" "byte b mod 16 * 4 + byte c div 64 < 64"
    "byte c mod 64 < 64" "byte a mod 4 * 16 < 64" "byte b mod 16 * 4 < 64"
    by (linarith | simp)+
qed

lemma char_of_byte [simp]: "char_of (byte c) = c"
  by simp

lemma decode_rfc4648: "decode_chars (rfc4648 s) w (- 8) = s"
proof (induction s arbitrary: w rule: rfc4648.induct)
  case (2 a)
  show ?case
    using decode_rest(1)[of "byte a div 4" "byte a mod 4 * 16" 0]
      group_bytes(1)[of 0 0 "byte a"] group_sextets
    by simp
next
  case (3 a b)
  show ?case
    using decode_rest(2)[of "byte a div 4" "byte a mod 4 * 16 + byte b div 16" "byte b mod 16 * 4"]
      group_bytes(1,2)[of "byte b" 0 "byte a"] group_sextets byte_less[of b]
    by simp
next
  case (4 a b c cs)
  obtain w' where "decode_chars (rfc4648 (a # b # c # cs)) w (- 8) =
      [char_of (byte a), char_of (byte b), char_of (byte c)] @ decode_chars (rfc4648 cs) w' (- 8)"
    using decode_group[OF group_sextets(1)[of a] group_sextets(2)[of a b] group_sextets(3)[of b c] group_sextets(4)[of c],
        where w = w and cs = "rfc4648 cs"]
      group_bytes(1,2)[of "byte b" "byte c" "byte a"] group_bytes(3)[of "byte b" "byte c"] byte_less[of b] byte_less[of c]
    by fastforce
  then show ?case using "4.IH"[of w'] by simp
qed simp

lemma base64_inverse: "base64_decode (base64_encode s) = s"
  by (simp add: base64_encode_rfc4648 base64_decode_def decode_rfc4648)

text \<open>
  C40. The encoder computes the base64 of RFC 4648 and the decoder gives every string back, although
  both loops shift their 32-bit accumulator far beyond its width.
\<close>

theorem base64_roundtrip: "base64_encode s = rfc4648 s \<and> base64_decode (base64_encode s) = s"
  by (simp add: base64_encode_rfc4648 base64_inverse[unfolded base64_encode_rfc4648])

end
