(* ===== verification/Snapshots.thy ===== *)
theory Snapshots
  imports Json Base64 Room_State
begin

section \<open>Room snapshots (main.cpp)\<close>

text \<open>
  A room is written to disk as a JSON value and read back when the server starts. Envelopes are stored
  as the base64 of their bytes: \<open>ser\<close> and \<open>de\<close> stand for the protobuf library's serialisation of an
  envelope and its inverse. \<open>None\<close> is an exception; the caller skips the file.
\<close>

subsection \<open>Writing\<close>

definition card_to_json :: "Card \<Rightarrow> json" where
  "card_to_json c = jobj [(''s'', JStr (card_s c)), (''r'', JStr (card_r c)), (''v'', JInt (card_v c))]"

definition player_to_json :: "PlayerState \<Rightarrow> json" where
  "player_to_json p = jobj
     [(''seatIdx'', JInt (p_seat_idx p)), (''chips'', JInt (chips p)),
      (''currentBet'', JInt (current_bet p)), (''handContribution'', JInt (hand_contribution p)),
      (''isFolded'', JBool (is_folded p)), (''isBankrupt'', JBool (is_bankrupt p)),
      (''totalBuyIn'', JInt (total_buy_in p)), (''pendingRebuy'', JInt (pending_rebuy p)),
      (''sitOutUntilHand'', JInt (sit_out_until_hand p)), (''hand'', JArr (map card_to_json (hand p)))]"

definition str_or_null :: "string \<Rightarrow> json" where
  "str_or_null s = (if s \<noteq> [] then JStr s else JNull)"

definition int_or_null :: "bool \<Rightarrow> int \<Rightarrow> json" where
  "int_or_null c n = (if c then JInt n else JNull)"

definition seat_to_json :: "Seat \<Rightarrow> json" where
  "seat_to_json s =
     (case seat_type s of
        SeatEmpty \<Rightarrow> JNull
      | SeatAI \<Rightarrow> jobj [(''type'', JStr ''ai''), (''name'', JStr (seat_name s))]
      | SeatPlayer \<Rightarrow> jobj
          ([(''type'', JStr ''player''), (''socketId'', JNull), (''name'', JStr (seat_name s)),
            (''decor'', JStr (seat_decor s)), (''aiManaged'', JBool (seat_ai_managed s)),
            (''clientId'', str_or_null (seat_client_id s)),
            (''sessionId'', str_or_null (seat_gameplay_session_id s)),
            (''reconnectToken'', str_or_null (seat_reconnect_token s)),
            (''disconnectedAt'', int_or_null (seat_disconnected_at s \<noteq> 0) (seat_disconnected_at s)),
            (''aiTakeoverAt'', int_or_null (seat_ai_takeover_at s \<noteq> 0) (seat_ai_takeover_at s))] @
           (if seat_user_id s \<noteq> 0 then [(''userId'', JInt (seat_user_id s))] else [])))"

definition match_hand_to_json :: "MatchHandInfo \<Rightarrow> json" where
  "match_hand_to_json h = jobj
     [(''handNum'', JInt (mh_hand_num h)), (''desc'', JStr (mh_desc h)),
      (''winners'', JArr (map (\<lambda>w. jobj [(''seatIdx'', JInt (wi_seat_idx w)), (''name'', JStr (wi_name w))])
         (mh_winners h)))]"

definition event_to_json :: "(envelope \<Rightarrow> string) \<Rightarrow> RoomEventEntry \<Rightarrow> json" where
  "event_to_json ser e = jobj
     [(''seq'', JInt (ev_seq e)), (''seatIdx'', JInt (ev_seat_idx e)), (''createdAt'', JInt (ev_created_at e)),
      (''envelopeB64'', JStr (base64_encode (ser (ev_envelope e))))]"

text \<open>The assignments of \<open>room_to_json\<close>, in order.\<close>

definition room_entries :: "Room \<Rightarrow> (string \<times> json) list" where
  "room_entries r =
     [(''schemaVersion'', JInt 2), (''snapshotFormat'', JStr ''nebula-cpp-1''),
      (''roomId'', JStr (room_id r)), (''roomCode'', JStr (room_code r)), (''roomType'', JStr (room_type r)),
      (''ownerUserId'', JInt (owner_user_id r)), (''visibility'', JStr (visibility r)),
      (''status'', JStr (status r)), (''maxPlayers'', JInt (max_players r)),
      (''createdAt'', JInt (created_at r)), (''lastActiveAt'', JInt (last_active_at r)),
      (''emptySince'', (case empty_since r of Some t \<Rightarrow> JInt t | None \<Rightarrow> JNull)),
      (''hostSocketId'', JNull), (''host_socket_id'', JNull)]"

definition table_entries :: "Room \<Rightarrow> (string \<times> json) list" where
  "table_entries r =
     [(''seats'', JArr (map (\<lambda>i. seat_to_json (seat_at r i)) seat_indices)), (''started'', JBool (started r)),
      (''totalHands'', JInt (total_hands r)), (''initialChips'', JInt (initial_chips r)),
      (''smallBlind'', JInt (small_blind r)), (''bigBlind'', JInt (big_blind r)),
      (''handNum'', JInt (hand_num r)), (''dealerSeatIdx'', JInt (dealer_seat_idx r)),
      (''sbSeatIdx'', int_or_null (sb_seat_idx r \<ge> 0) (sb_seat_idx r)),
      (''bbSeatIdx'', int_or_null (bb_seat_idx r \<ge> 0) (bb_seat_idx r)),
      (''pot'', JInt (pot r)), (''round'', JStr (round_name r)),
      (''communityCards'', JArr (map card_to_json (community_cards r))),
      (''deck'', JArr (map card_to_json (deck r))),
      (''currentMaxBet'', JInt (current_max_bet r)), (''minRaise'', JInt (min_raise r)),
      (''activeSeatIdx'', int_or_null (active_seat_idx r \<ge> 0) (active_seat_idx r)),
      (''pendingActionSeats'', JArr (map JInt (sorted_list_of_set (pending_action_seats r)))),
      (''players'', JArr (map (\<lambda>(i, p). JArr [JInt i, player_to_json p]) (players r)))]"

definition history_entries :: "(envelope \<Rightarrow> string) \<Rightarrow> Room \<Rightarrow> (string \<times> json) list" where
  "history_entries ser r =
     [(''turnNonce'', JInt (turn_nonce r)),
      (''lastActorSeatIdx'', int_or_null (last_actor_seat_idx r \<ge> 0) (last_actor_seat_idx r)),
      (''handHistory'', JArr (map match_hand_to_json (hand_history r))),
      (''activityLog'', JArr (map JStr (activity_log r))), (''eventSeq'', JInt (event_seq r)),
      (''eventLog'', JArr (map (event_to_json ser) (event_log r))), (''closing'', JBool (closing r)),
      (''voiceParticipants'', JArr (map (\<lambda>(sid, vp). jobj [(''socketId'', JStr sid),
         (''seatIdx'', JInt (vp_seat_idx vp)), (''name'', JStr (vp_name vp))]) (voice_participants r)))]"

definition room_to_json :: "(envelope \<Rightarrow> string) \<Rightarrow> Room \<Rightarrow> json" where
  "room_to_json ser r = jobj (room_entries r @ table_entries r @ history_entries ser r)"

subsection \<open>Reading\<close>

definition card_from_json :: "json \<Rightarrow> Card option" where
  "card_from_json j =
     (if \<not> is_object j then Some \<lparr>card_s = [], card_r = [], card_v = 0\<rparr>
      else do {
        s \<leftarrow> jvalue get_string ''s'' [] j; r \<leftarrow> jvalue get_string ''r'' [] j; v \<leftarrow> jvalue get_int ''v'' 0 j;
        Some \<lparr>card_s = s, card_r = r, card_v = v\<rparr> })"

definition player_from_json :: "json \<Rightarrow> PlayerState option" where
  "player_from_json j = do {
     seat \<leftarrow> jvalue get_int ''seatIdx'' (- 1) j; ch \<leftarrow> jvalue get_int ''chips'' 1000 j;
     bet \<leftarrow> jvalue get_int ''currentBet'' 0 j; contrib \<leftarrow> jvalue get_int ''handContribution'' 0 j;
     folded \<leftarrow> jvalue get_bool ''isFolded'' False j; broke \<leftarrow> jvalue get_bool ''isBankrupt'' False j;
     buy_in \<leftarrow> jvalue get_int ''totalBuyIn'' 1000 j;
     let buy_in = jnumber to_i32 ''totalCommitted'' buy_in j;
     rebuy \<leftarrow> jvalue get_int ''pendingRebuy'' 0 j; sit_out \<leftarrow> jvalue get_int ''sitOutUntilHand'' 0 j;
     cards \<leftarrow> json_each card_from_json (jarray ''hand'' j);
     Some \<lparr>p_seat_idx = seat, chips = ch, current_bet = bet, hand_contribution = contrib,
           is_folded = folded, is_bankrupt = broke, hand = cards, total_buy_in = buy_in,
           pending_rebuy = rebuy, sit_out_until_hand = sit_out\<rparr> }"

text \<open>\<open>if (j.contains(k) && !j[k].is_null()) x = j[k].get<std::string>();\<close>, where \<open>x\<close> is empty before.\<close>

definition opt_string :: "string \<Rightarrow> json \<Rightarrow> string option" where
  "opt_string k j = (case jfield k j of None \<Rightarrow> Some [] | Some JNull \<Rightarrow> Some [] | Some v \<Rightarrow> get_string v)"

definition seat_from_json :: "json \<Rightarrow> Seat option" where
  "seat_from_json j =
     (if \<not> is_object j then Some empty_seat
      else do {
        type \<leftarrow> jvalue get_string ''type'' [] j;
        if type = ''ai'' then do {
          name \<leftarrow> jvalue get_string ''name'' ''AI'' j;
          Some (empty_seat\<lparr>seat_type := SeatAI, seat_name := name\<rparr>) }
        else if type = ''player'' then do {
          name \<leftarrow> jvalue get_string ''name'' ''Player'' j;
          client \<leftarrow> opt_string ''clientId'' j; session \<leftarrow> opt_string ''sessionId'' j;
          session \<leftarrow> (if session = [] then opt_string ''gameplaySessionId'' j else Some session);
          token \<leftarrow> opt_string ''reconnectToken'' j;
          decor \<leftarrow> jvalue get_string ''decor'' ''none'' j; managed \<leftarrow> jvalue get_bool ''aiManaged'' False j;
          Some \<lparr>seat_type = SeatPlayer, seat_socket_id = [], seat_name = name, seat_client_id = client,
                seat_decor = decor, seat_user_id = jnumber to_i64 ''userId'' 0 j,
                seat_gameplay_session_id = session, seat_reconnect_token = token,
                seat_ai_managed = managed, seat_ai_takeover_at = jnumber to_i64 ''aiTakeoverAt'' 0 j,
                seat_disconnected_at = jnumber to_i64 ''disconnectedAt'' 0 j\<rparr> }
        else Some empty_seat })"

definition winner_from_json :: "json \<Rightarrow> WinnerInfo option" where
  "winner_from_json j = do {
     i \<leftarrow> jvalue get_int ''seatIdx'' (- 1) j; name \<leftarrow> jvalue get_string ''name'' [] j;
     Some \<lparr>wi_seat_idx = i, wi_name = name\<rparr> }"

definition match_hand_from_json :: "json \<Rightarrow> MatchHandInfo option" where
  "match_hand_from_json j = do {
     n \<leftarrow> jvalue get_int ''handNum'' 0 j; desc \<leftarrow> jvalue get_string ''desc'' [] j;
     ws \<leftarrow> json_each winner_from_json (jarray ''winners'' j);
     Some \<lparr>mh_hand_num = n, mh_winners = ws, mh_desc = desc\<rparr> }"

text \<open>One entry of the event log; entries that are no objects or have no bytes are left out.\<close>

definition event_from_json :: "(string \<Rightarrow> envelope) \<Rightarrow> json \<Rightarrow> RoomEventEntry list option" where
  "event_from_json de j =
     (if \<not> is_object j then Some []
      else do {
        seq \<leftarrow> jvalue get_int64 ''seq'' 0 j; i \<leftarrow> jvalue get_int ''seatIdx'' (- 1) j;
        t \<leftarrow> jvalue get_int64 ''createdAt'' 0 j;
        let bytes = (case jfield ''envelopeB64'' j of Some (JStr s) \<Rightarrow> base64_decode s | _ \<Rightarrow> []);
        Some (if bytes = [] then []
              else [\<lparr>ev_seq = seq, ev_envelope = de bytes, ev_seat_idx = i, ev_created_at = t\<rparr>]) })"

text \<open>A row of \<open>players\<close>: skipped unless it is an array of at least two elements.\<close>

definition player_row_from_json :: "json \<Rightarrow> (int \<times> PlayerState) list option" where
  "player_row_from_json j =
     (case j of
        JArr (i # p # _) \<Rightarrow> do {
          seat \<leftarrow> get_int i; p \<leftarrow> player_from_json p;
          Some [(seat, p\<lparr>p_seat_idx := seat\<rparr>)] }
      | _ \<Rightarrow> Some [])"

definition read_meta :: "int \<Rightarrow> json \<Rightarrow> Room \<Rightarrow> Room option" where
  "read_meta t j r = do {
     rid \<leftarrow> jvalue get_string ''roomId'' [] j;
     rid \<leftarrow> (if rid = [] then jvalue get_string ''room_id'' [] j else Some rid);
     code \<leftarrow> jvalue get_string ''roomCode'' rid j; type \<leftarrow> jvalue get_string ''roomType'' ''friend'' j;
     owner \<leftarrow> jvalue get_int64 ''ownerUserId'' 0 j; vis \<leftarrow> jvalue get_string ''visibility'' ''private'' j;
     st \<leftarrow> jvalue get_string ''status'' ''waiting'' j; maxp \<leftarrow> jvalue get_int ''maxPlayers'' kSeats j;
     created \<leftarrow> jvalue get_int64 ''createdAt'' t j; active \<leftarrow> jvalue get_int64 ''lastActiveAt'' t j;
     Some (r\<lparr>room_id := rid, room_code := (if code = [] then rid else code),
             room_type := (if type = [] then ''friend'' else type), owner_user_id := owner,
             visibility := vis, status := st, max_players := maxp, created_at := created,
             last_active_at := active, empty_since := Some (jnumber to_i64 ''emptySince'' t j),
             socket_ids := {}, host_socket_id := []\<rparr>) }"

text \<open>The first ten elements of \<open>seats\<close>; what is missing stays empty.\<close>

definition read_seats :: "json \<Rightarrow> Seat list option" where
  "read_seats j = do {
     ss \<leftarrow> json_each seat_from_json (take 10 (jarray ''seats'' j));
     Some (ss @ replicate (10 - length ss) empty_seat) }"

definition read_settings :: "json \<Rightarrow> Room \<Rightarrow> Room option" where
  "read_settings j r = do {
     ss \<leftarrow> read_seats j; st \<leftarrow> jvalue get_bool ''started'' False j;
     hands \<leftarrow> jvalue get_int ''totalHands'' 5 j; stack \<leftarrow> jvalue get_int ''initialChips'' 1000 j;
     sb \<leftarrow> jvalue get_int ''smallBlind'' 50 j; bb \<leftarrow> jvalue get_int ''bigBlind'' 100 j;
     n \<leftarrow> jvalue get_int ''handNum'' 0 j; dealer \<leftarrow> jvalue get_int ''dealerSeatIdx'' 0 j;
     let sb = max 1 sb;
     Some (r\<lparr>seats := ss, started := st,
             total_hands := (if hands < 1 then 1 else if 50 < hands then 50 else hands),
             initial_chips := max 1000 stack, small_blind := sb, big_blind := max sb bb,
             hand_num := max 0 n, dealer_seat_idx := dealer,
             sb_seat_idx := jnumber to_i32 ''sbSeatIdx'' (- 1) j,
             bb_seat_idx := jnumber to_i32 ''bbSeatIdx'' (- 1) j\<rparr>) }"

definition read_game :: "json \<Rightarrow> Room \<Rightarrow> Room option" where
  "read_game j r = do {
     p \<leftarrow> jvalue get_int ''pot'' 0 j; rnd \<leftarrow> jvalue get_string ''round'' (phase_to_string Waiting) j;
     board \<leftarrow> json_each card_from_json (jarray ''communityCards'' j);
     cards \<leftarrow> json_each card_from_json (jarray ''deck'' j);
     bet \<leftarrow> jvalue get_int ''currentMaxBet'' 0 j; raise_by \<leftarrow> jvalue get_int ''minRaise'' (big_blind r) j;
     rows \<leftarrow> json_each player_row_from_json (jarray ''players'' j);
     Some (r\<lparr>pot := max 0 p, round_name := rnd, community_cards := board, deck := cards,
             current_max_bet := max 0 bet, min_raise := max 1 raise_by,
             active_seat_idx := jnumber to_i32 ''activeSeatIdx'' (- 1) j,
             pending_action_seats :=
               set (concat (map (\<lambda>x. case x of JInt n \<Rightarrow> [to_i32 n] | _ \<Rightarrow> []) (jarray ''pendingActionSeats'' j))),
             players := fold (\<lambda>(i, p). smap_put i p) (concat rows) []\<rparr>) }"

definition read_history :: "(string \<Rightarrow> envelope) \<Rightarrow> json \<Rightarrow> Room \<Rightarrow> Room option" where
  "read_history de j r = do {
     nonce \<leftarrow> jvalue get_int ''turnNonce'' 0 j;
     hands \<leftarrow> json_each match_hand_from_json (jarray ''handHistory'' j);
     seq \<leftarrow> jvalue get_int64 ''eventSeq'' 0 j;
     evs \<leftarrow> json_each (event_from_json de) (jarray ''eventLog'' j);
     cl \<leftarrow> jvalue get_bool ''closing'' False j;
     Some (r\<lparr>turn_nonce := max 0 nonce, last_actor_seat_idx := jnumber to_i32 ''lastActorSeatIdx'' (- 1) j,
             hand_history := hands,
             activity_log := concat (map (\<lambda>x. case x of JStr s \<Rightarrow> [s] | _ \<Rightarrow> []) (jarray ''activityLog'' j)),
             event_seq := seq,
             event_log := (let es = concat evs in drop (length es - kRoomEventLogLimit) es),
             closing := cl, voice_participants := [], expected_acks := {}, match_acks := {}\<rparr>) }"

definition room_from_json :: "(string \<Rightarrow> envelope) \<Rightarrow> int \<Rightarrow> json \<Rightarrow> Room option" where
  "room_from_json de t j = do {
     r \<leftarrow> read_meta t j (default_room t); r \<leftarrow> read_settings j r; r \<leftarrow> read_game j r; read_history de j r }"

text \<open>
  The body of the loop in \<open>restore_room_snapshots_from_disk\<close>, for a file whose text parses to \<open>j\<close>: the
  room is filed unless it has no id or a room with its id is there already.
\<close>

definition restore_room :: "(string \<Rightarrow> envelope) \<Rightarrow> int \<Rightarrow> json \<Rightarrow> (string \<rightharpoonup> Room) \<Rightarrow> (string \<rightharpoonup> Room)" where
  "restore_room de t j rs =
     (if \<not> is_object j then rs
      else case room_from_json de t j of
             None \<Rightarrow> rs
           | Some r \<Rightarrow>
               if room_id r = [] then rs
               else
                 let r = r\<lparr>socket_ids := {}, host_socket_id := [], voice_participants := [],
                           expected_acks := {}, match_acks := {}, empty_since := Some t,
                           room_code := (if room_code r = [] then room_id r else room_code r)\<rparr>
                 in if rs (room_id r) \<noteq> None then rs else rs(room_id r \<mapsto> r))"

end
