(* ===== verification/Snapshot_Facts.thy ===== *)
theory Snapshot_Facts
  imports Snapshots Table_Ops
begin

section \<open>A snapshot restores the room\<close>

text \<open>
  Reading a snapshot back gives the room that was saved, without the connections: the sockets, the
  timers and the voice chat are gone, everything the game depends on is there.
\<close>

subsection \<open>What a snapshot can hold\<close>

definition card_fits :: "Card \<Rightarrow> bool" where
  "card_fits c \<longleftrightarrow> in_i32 (card_v c)"

definition player_fits :: "PlayerState \<Rightarrow> bool" where
  "player_fits p \<longleftrightarrow>
     in_i32 (p_seat_idx p) \<and> in_i32 (chips p) \<and> in_i32 (current_bet p) \<and> in_i32 (hand_contribution p) \<and>
     in_i32 (total_buy_in p) \<and> in_i32 (pending_rebuy p) \<and> in_i32 (sit_out_until_hand p) \<and>
     (\<forall>c\<in>set (hand p). card_fits c)"

definition seat_fits :: "Seat \<Rightarrow> bool" where
  "seat_fits s \<longleftrightarrow> in_i64 (seat_user_id s) \<and> in_i64 (seat_ai_takeover_at s) \<and> in_i64 (seat_disconnected_at s)"

definition hand_info_fits :: "MatchHandInfo \<Rightarrow> bool" where
  "hand_info_fits h \<longleftrightarrow> in_i32 (mh_hand_num h) \<and> (\<forall>w\<in>set (mh_winners h). in_i32 (wi_seat_idx w))"

definition event_fits :: "RoomEventEntry \<Rightarrow> bool" where
  "event_fits e \<longleftrightarrow> in_i64 (ev_seq e) \<and> in_i32 (ev_seat_idx e) \<and> in_i64 (ev_created_at e)"

text \<open>The seat as it comes back: an AI keeps its name, a player everything but the socket.\<close>

definition offline_seat :: "Seat \<Rightarrow> Seat" where
  "offline_seat s =
     (case seat_type s of
        SeatEmpty \<Rightarrow> empty_seat
      | SeatAI \<Rightarrow> empty_seat\<lparr>seat_type := SeatAI, seat_name := seat_name s\<rparr>
      | SeatPlayer \<Rightarrow> s\<lparr>seat_socket_id := []\<rparr>)"

subsection \<open>The parts\<close>

lemma card_roundtrip: "card_fits c \<Longrightarrow> card_from_json (card_to_json c) = Some c"
  by (simp add: card_from_json_def card_to_json_def jvalue_jobj card_fits_def to_i32_id)

lemma cards_roundtrip: "\<forall>c\<in>set cs. card_fits c \<Longrightarrow> json_each card_from_json (map card_to_json cs) = Some cs"
  using json_each_map[of cs card_from_json card_to_json id] by (simp add: card_roundtrip)

lemma player_roundtrip: "player_fits p \<Longrightarrow> player_from_json (player_to_json p) = Some p"
  by (simp add: player_from_json_def player_to_json_def jvalue_jobj jfield_jobj jnumber_def jarray_def
      player_fits_def to_i32_id cards_roundtrip)

lemma opt_string_null: "map_of kvs k = Some (str_or_null s) \<Longrightarrow> distinct (map fst kvs) \<Longrightarrow> opt_string k (jobj kvs) = Some s"
  by (simp add: opt_string_def jfield_jobj str_or_null_def)

lemma jnumber_null:
  assumes "map_of kvs k = Some (int_or_null c n)" and "distinct (map fst kvs)" and "narrow n = n"
  shows "jnumber narrow k d (jobj kvs) = (if c then n else d)"
  using assms by (simp add: jnumber_def jfield_jobj int_or_null_def)

lemma seat_roundtrip:
  assumes "seat_fits s"
  shows "seat_from_json (seat_to_json s) = Some (offline_seat s)"
proof (cases "seat_type s")
  case SeatEmpty
  then show ?thesis by (simp add: seat_to_json_def seat_from_json_def offline_seat_def is_object_def)
next
  case SeatAI
  then show ?thesis
    by (simp add: seat_to_json_def seat_from_json_def offline_seat_def jvalue_jobj)
next
  case SeatPlayer
  have i: "in_i64 (seat_user_id s)" "in_i64 (seat_ai_takeover_at s)" "in_i64 (seat_disconnected_at s)"
    using assms by (simp_all add: seat_fits_def)
  define kvs where "kvs = [(''type'', JStr ''player''), (''socketId'', JNull), (''name'', JStr (seat_name s)),
      (''decor'', JStr (seat_decor s)), (''aiManaged'', JBool (seat_ai_managed s)),
      (''clientId'', str_or_null (seat_client_id s)),
      (''sessionId'', str_or_null (seat_gameplay_session_id s)),
      (''reconnectToken'', str_or_null (seat_reconnect_token s)),
      (''disconnectedAt'', int_or_null (seat_disconnected_at s \<noteq> 0) (seat_disconnected_at s)),
      (''aiTakeoverAt'', int_or_null (seat_ai_takeover_at s \<noteq> 0) (seat_ai_takeover_at s))] @
      (if seat_user_id s \<noteq> 0 then [(''userId'', JInt (seat_user_id s))] else [])"
  have d: "distinct (map fst kvs)" by (simp add: kvs_def)
  have v: "jvalue get_string ''type'' [] (jobj kvs) = Some ''player''"
    "jvalue get_string ''name'' ''Player'' (jobj kvs) = Some (seat_name s)"
    "jvalue get_string ''decor'' ''none'' (jobj kvs) = Some (seat_decor s)"
    "jvalue get_bool ''aiManaged'' False (jobj kvs) = Some (seat_ai_managed s)"
    by (simp_all add: jvalue_jobj d) (simp_all add: kvs_def)
  have o: "opt_string ''clientId'' (jobj kvs) = Some (seat_client_id s)"
    "opt_string ''sessionId'' (jobj kvs) = Some (seat_gameplay_session_id s)"
    "opt_string ''reconnectToken'' (jobj kvs) = Some (seat_reconnect_token s)"
    by (rule opt_string_null[OF _ d], simp add: kvs_def)+
  have g: "opt_string ''gameplaySessionId'' (jobj kvs) = Some []"
    by (simp add: opt_string_def jfield_jobj d) (simp add: kvs_def)
  have n: "jnumber to_i64 ''disconnectedAt'' 0 (jobj kvs) = seat_disconnected_at s"
    "jnumber to_i64 ''aiTakeoverAt'' 0 (jobj kvs) = seat_ai_takeover_at s"
    "jnumber to_i64 ''userId'' 0 (jobj kvs) = seat_user_id s"
    using i by (simp_all add: jnumber_def jfield_jobj d)
      (simp_all add: kvs_def int_or_null_def to_i64_id)
  have json: "seat_to_json s = jobj kvs" using SeatPlayer by (simp add: seat_to_json_def kvs_def)
  show ?thesis
    using SeatPlayer unfolding json by (simp add: seat_from_json_def v o g n offline_seat_def)
qed

lemma match_hand_roundtrip: "hand_info_fits h \<Longrightarrow> match_hand_from_json (match_hand_to_json h) = Some h"
  using json_each_map[of "mh_winners h" winner_from_json
      "\<lambda>w. jobj [(''seatIdx'', JInt (wi_seat_idx w)), (''name'', JStr (wi_name w))]" id]
  by (simp add: match_hand_from_json_def match_hand_to_json_def jvalue_jobj jfield_jobj jarray_def
      hand_info_fits_def to_i32_id winner_from_json_def)

lemma event_roundtrip:
  assumes "event_fits e" and "ser (ev_envelope e) \<noteq> []" and "de (ser (ev_envelope e)) = ev_envelope e"
  shows "event_from_json de (event_to_json ser e) = Some [e]"
  using assms
  by (simp add: event_from_json_def event_to_json_def jvalue_jobj jfield_jobj event_fits_def to_i32_id
      to_i64_id base64_inverse)


subsection \<open>The room\<close>

text \<open>
  The rooms a snapshot can hold: numbers in the range of their C++ types, and the values the reader
  clamps already in their bounds. The messages logged must survive serialisation.
\<close>

definition snapshot_ok :: "(envelope \<Rightarrow> string) \<Rightarrow> (string \<Rightarrow> envelope) \<Rightarrow> Room \<Rightarrow> bool" where
  "snapshot_ok ser de r \<longleftrightarrow>
     room_id r \<noteq> [] \<and> room_code r \<noteq> [] \<and> room_type r \<noteq> [] \<and>
     in_i64 (owner_user_id r) \<and> in_i32 (max_players r) \<and> in_i64 (created_at r) \<and> in_i64 (last_active_at r) \<and>
     (\<forall>t. empty_since r = Some t \<longrightarrow> in_i64 t) \<and>
     length (seats r) = 10 \<and> (\<forall>s\<in>set (seats r). seat_fits s) \<and>
     1 \<le> total_hands r \<and> total_hands r \<le> 50 \<and> in_i32 (initial_chips r) \<and> 1000 \<le> initial_chips r \<and>
     in_i32 (small_blind r) \<and> 1 \<le> small_blind r \<and> in_i32 (big_blind r) \<and> small_blind r \<le> big_blind r \<and>
     in_i32 (hand_num r) \<and> 0 \<le> hand_num r \<and> in_i32 (dealer_seat_idx r) \<and>
     in_i32 (sb_seat_idx r) \<and> - 1 \<le> sb_seat_idx r \<and> in_i32 (bb_seat_idx r) \<and> - 1 \<le> bb_seat_idx r \<and>
     in_i32 (pot r) \<and> 0 \<le> pot r \<and> (\<forall>c\<in>set (community_cards r). card_fits c) \<and> (\<forall>c\<in>set (deck r). card_fits c) \<and>
     in_i32 (current_max_bet r) \<and> 0 \<le> current_max_bet r \<and> in_i32 (min_raise r) \<and> 1 \<le> min_raise r \<and>
     in_i32 (active_seat_idx r) \<and> - 1 \<le> active_seat_idx r \<and>
     finite (pending_action_seats r) \<and> (\<forall>i\<in>pending_action_seats r. in_i32 i) \<and>
     smap_wf (players r) \<and> (\<forall>(i, p)\<in>set (players r). in_i32 i \<and> player_fits p) \<and>
     in_i32 (turn_nonce r) \<and> 0 \<le> turn_nonce r \<and> in_i32 (last_actor_seat_idx r) \<and> - 1 \<le> last_actor_seat_idx r \<and>
     (\<forall>h\<in>set (hand_history r). hand_info_fits h) \<and> in_i64 (event_seq r) \<and>
     length (event_log r) \<le> kRoomEventLogLimit \<and> (\<forall>e\<in>set (event_log r). event_fits e \<and>
       ser (ev_envelope e) \<noteq> [] \<and> de (ser (ev_envelope e)) = ev_envelope e)"

text \<open>The room a snapshot gives back at time \<open>t\<close>.\<close>

definition offline_room :: "int \<Rightarrow> Room \<Rightarrow> Room" where
  "offline_room t r =
     r\<lparr>seats := map offline_seat (seats r), players := smap_each (\<lambda>i p. p\<lparr>p_seat_idx := i\<rparr>) (players r),
       ai_timer := None, ai_takeover_timers := {}, socket_ids := {}, host_socket_id := [],
       voice_participants := [], expected_acks := {}, match_acks := {},
       empty_since := Some (case empty_since r of None \<Rightarrow> t | Some t' \<Rightarrow> t')\<rparr>"

lemma room_keys: "distinct (map fst (room_entries r @ table_entries r @ history_entries ser r))"
  by (simp add: room_entries_def table_entries_def history_entries_def)

lemma room_value:
  "jvalue conv k d (room_to_json ser r) =
     (case map_of (room_entries r @ table_entries r @ history_entries ser r) k of
        None \<Rightarrow> Some d | Some v \<Rightarrow> conv v)"
  unfolding room_to_json_def by (rule jvalue_jobj[OF room_keys])

lemma room_field:
  "jfield k (room_to_json ser r) = map_of (room_entries r @ table_entries r @ history_entries ser r) k"
  unfolding room_to_json_def by (rule jfield_jobj[OF room_keys])

lemmas room_lookups = room_value room_field jnumber_def jarray_def room_entries_def table_entries_def
  history_entries_def int_or_null_def

lemma read_meta_back:
  assumes "snapshot_ok ser de r"
  shows "read_meta t (room_to_json ser r) q = Some
    (q\<lparr>room_id := room_id r, room_code := room_code r, room_type := room_type r, owner_user_id := owner_user_id r,
       visibility := visibility r, status := status r, max_players := max_players r, created_at := created_at r,
       last_active_at := last_active_at r,
       empty_since := Some (case empty_since r of None \<Rightarrow> t | Some t' \<Rightarrow> t'), socket_ids := {}, host_socket_id := []\<rparr>)"
  using assms
  by (simp add: read_meta_def room_lookups to_i32_id to_i64_id snapshot_ok_def split: option.split)

lemma seats_listed: "length (seats r) = 10 \<Longrightarrow> map (seat_at r) seat_indices = seats r"
  by (rule nth_equalityI)
     (auto simp: seat_indices_def seat_at_def nth_Cons' less_Suc_eq numeral_eq_Suc)

lemma read_seats_back:
  assumes "length (seats r) = 10" and "\<forall>s\<in>set (seats r). seat_fits s"
  shows "read_seats (room_to_json ser r) = Some (map offline_seat (seats r))"
proof -
  have "jarray ''seats'' (room_to_json ser r) = map seat_to_json (seats r)"
    using arg_cong[OF seats_listed[OF assms(1)], of "map seat_to_json"] by (simp add: room_lookups comp_def)
  moreover have "json_each seat_from_json (map seat_to_json (seats r)) = Some (map offline_seat (seats r))"
    using assms(2) by (intro json_each_map seat_roundtrip) simp
  ultimately show ?thesis using assms(1) by (simp add: read_seats_def)
qed

lemma read_settings_back:
  assumes "snapshot_ok ser de r"
  shows "read_settings (room_to_json ser r) q = Some
    (q\<lparr>seats := map offline_seat (seats r), started := started r, total_hands := total_hands r,
       initial_chips := initial_chips r, small_blind := small_blind r, big_blind := big_blind r,
       hand_num := hand_num r, dealer_seat_idx := dealer_seat_idx r, sb_seat_idx := sb_seat_idx r,
       bb_seat_idx := bb_seat_idx r\<rparr>)"
proof -
  have "read_seats (room_to_json ser r) = Some (map offline_seat (seats r))"
    using assms by (intro read_seats_back) (simp_all add: snapshot_ok_def)
  moreover have "in_i32 (total_hands r)" using assms by (simp add: snapshot_ok_def i32_defs)
  ultimately show ?thesis
    using assms by (simp add: read_settings_def room_lookups to_i32_id snapshot_ok_def max_def Let_def)
qed


lemma smap_put_last: "\<forall>k\<in>set (map fst m). k < i \<Longrightarrow> smap_put i v m = m @ [(i, v)]"
  by (induction m) auto

lemma fold_put_players:
  fixes m :: "('k::linorder, 'v) smap"
  assumes "smap_wf m"
  shows "fold (\<lambda>(i, p). smap_put i p) (map (\<lambda>(i, p). (i, f i p)) m) [] = smap_each f m"
proof -
  have "fold (\<lambda>(i, p). smap_put i p) (map (\<lambda>(i, p). (i, f i p)) m) acc = acc @ smap_each f m"
    if "sorted_wrt (<) (map fst (acc @ m))" for acc
    using that
  proof (induction m arbitrary: acc)
    case Nil
    then show ?case by (simp add: smap_each_def)
  next
    case (Cons e m)
    obtain i p where e: "e = (i, p)" by fastforce
    have "smap_put i (f i p) acc = acc @ [(i, f i p)]"
      using Cons.prems e by (intro smap_put_last) (auto simp: sorted_wrt_append)
    moreover have "sorted_wrt (<) (map fst ((acc @ [(i, f i p)]) @ m))" using Cons.prems e by simp
    ultimately show ?case using Cons.IH[of "acc @ [(i, f i p)]"] e by (simp add: smap_each_def)
  qed
  from this[of "[]"] assms show ?thesis by (simp add: smap_wf_def)
qed

lemma player_rows_back:
  assumes "\<forall>(i, p)\<in>set m. in_i32 i \<and> player_fits p"
  shows "json_each player_row_from_json (map (\<lambda>(i, p). JArr [JInt i, player_to_json p]) m) =
    Some (map (\<lambda>(i, p). [(i, p\<lparr>p_seat_idx := i\<rparr>)]) m)"
  using assms
  by (intro json_each_map) (auto simp: player_row_from_json_def player_roundtrip to_i32_id)

lemma read_game_back:
  assumes "snapshot_ok ser de r"
  shows "read_game (room_to_json ser r) q = Some
    (q\<lparr>pot := pot r, round_name := round_name r, community_cards := community_cards r, deck := deck r,
       current_max_bet := current_max_bet r, min_raise := min_raise r, active_seat_idx := active_seat_idx r,
       pending_action_seats := pending_action_seats r,
       players := smap_each (\<lambda>i p. p\<lparr>p_seat_idx := i\<rparr>) (players r)\<rparr>)"
proof -
  have rows: "json_each player_row_from_json (jarray ''players'' (room_to_json ser r)) =
      Some (map (\<lambda>(i, p). [(i, p\<lparr>p_seat_idx := i\<rparr>)]) (players r))"
    using assms player_rows_back[of "players r"] by (simp add: room_lookups snapshot_ok_def)
  have flat: "concat (map (\<lambda>(i, p). [(i, p\<lparr>p_seat_idx := i\<rparr>)]) m) = map (\<lambda>(i, p). (i, p\<lparr>p_seat_idx := i\<rparr>)) m"
    for m :: "(int, PlayerState) smap" by (induction m) auto
  have "(\<lambda>x. case x of JInt n \<Rightarrow> [to_i32 n] | _ \<Rightarrow> []) \<circ> JInt = (\<lambda>n. [to_i32 n])" by (simp add: fun_eq_iff)
  then have pending: "set (concat (map (\<lambda>x. case x of JInt n \<Rightarrow> [to_i32 n] | _ \<Rightarrow> [])
      (jarray ''pendingActionSeats'' (room_to_json ser r)))) = pending_action_seats r"
    using assms by (simp add: room_lookups snapshot_ok_def to_i32_id)
  have cards: "json_each card_from_json (jarray ''communityCards'' (room_to_json ser r)) = Some (community_cards r)"
    "json_each card_from_json (jarray ''deck'' (room_to_json ser r)) = Some (deck r)"
    using assms by (simp_all add: room_lookups snapshot_ok_def cards_roundtrip)
  have nums: "jvalue get_int ''pot'' 0 (room_to_json ser r) = Some (pot r)"
    "jvalue get_string ''round'' (phase_to_string Waiting) (room_to_json ser r) = Some (round_name r)"
    "jvalue get_int ''currentMaxBet'' 0 (room_to_json ser r) = Some (current_max_bet r)"
    "jvalue get_int ''minRaise'' d (room_to_json ser r) = Some (min_raise r)"
    "jnumber to_i32 ''activeSeatIdx'' (- 1) (room_to_json ser r) = active_seat_idx r" for d
    using assms by (simp_all add: room_lookups snapshot_ok_def to_i32_id)
  have "0 \<le> pot r" "0 \<le> current_max_bet r" "1 \<le> min_raise r" "smap_wf (players r)"
    using assms by (simp_all add: snapshot_ok_def)
  then show ?thesis
    unfolding read_game_def nums cards rows pending Option.bind.bind_lunit flat
    by (simp add: fold_put_players max_def)
qed

lemma read_history_back:
  assumes "snapshot_ok ser de r"
  shows "read_history de (room_to_json ser r) q = Some
    (q\<lparr>turn_nonce := turn_nonce r, last_actor_seat_idx := last_actor_seat_idx r, hand_history := hand_history r,
       activity_log := activity_log r, event_seq := event_seq r, event_log := event_log r, closing := closing r,
       voice_participants := [], expected_acks := {}, match_acks := {}\<rparr>)"
proof -
  have hands: "json_each match_hand_from_json (jarray ''handHistory'' (room_to_json ser r)) = Some (hand_history r)"
    using assms json_each_map[of "hand_history r" match_hand_from_json match_hand_to_json id]
    by (simp add: room_lookups snapshot_ok_def match_hand_roundtrip)
  have events: "json_each (event_from_json de) (jarray ''eventLog'' (room_to_json ser r)) =
      Some (map (\<lambda>e. [e]) (event_log r))"
    using assms json_each_map[of "event_log r" "event_from_json de" "event_to_json ser" "\<lambda>e. [e]"]
    by (simp add: room_lookups snapshot_ok_def event_roundtrip)
  have "concat (map (\<lambda>x. case x of JStr s \<Rightarrow> [s] | _ \<Rightarrow> []) (map JStr ls)) = ls" for ls
    by (induction ls) simp_all
  then have lines: "concat (map (\<lambda>x. case x of JStr s \<Rightarrow> [s] | _ \<Rightarrow> []) (jarray ''activityLog'' (room_to_json ser r))) =
      activity_log r" by (simp add: room_lookups)
  have nums: "jvalue get_int ''turnNonce'' 0 (room_to_json ser r) = Some (turn_nonce r)"
    "jvalue get_int64 ''eventSeq'' 0 (room_to_json ser r) = Some (event_seq r)"
    "jvalue get_bool ''closing'' False (room_to_json ser r) = Some (closing r)"
    "jnumber to_i32 ''lastActorSeatIdx'' (- 1) (room_to_json ser r) = last_actor_seat_idx r"
    using assms by (simp_all add: room_lookups snapshot_ok_def to_i32_id to_i64_id)
  have "0 \<le> turn_nonce r" "length (event_log r) \<le> kRoomEventLogLimit" using assms by (simp_all add: snapshot_ok_def)
  then show ?thesis by (simp add: read_history_def nums hands events lines max_def)
qed

text \<open>
  C37. A snapshot restores the game. For every room a snapshot can hold, reading back what was written
  gives the same room, every card, bet, stack, turn and logged event included, with exactly the
  connections gone: no sockets, no host, no timers, no voice chat, no acknowledgements, and seats
  whose players are offline.
\<close>

theorem snapshot_roundtrip:
  assumes "snapshot_ok ser de r"
  shows "room_from_json de t (room_to_json ser r) = Some (offline_room t r)"
  by (simp add: room_from_json_def read_meta_back[OF assms] read_settings_back[OF assms] read_game_back[OF assms]
      read_history_back[OF assms]) (simp add: offline_room_def default_room_def)


definition restored_room :: "int \<Rightarrow> Room \<Rightarrow> Room" where
  "restored_room t r = (offline_room t r)\<lparr>empty_since := Some t\<rparr>"

lemma restore_saved:
  assumes "snapshot_ok ser de r" and "rs (room_id r) = None"
  shows "restore_room de t (room_to_json ser r) rs = rs(room_id r \<mapsto> restored_room t r)"
proof -
  have read: "room_from_json de t (room_to_json ser r) = Some (offline_room t r)"
    by (simp add: room_from_json_def read_meta_back[OF assms(1)] read_settings_back[OF assms(1)]
        read_game_back[OF assms(1)] read_history_back[OF assms(1)]) (simp add: offline_room_def default_room_def)
  have id: "room_id (offline_room t r) = room_id r" "room_code (offline_room t r) = room_code r"
    by (simp_all add: offline_room_def)
  have obj: "is_object (room_to_json ser r)" by (simp add: room_to_json_def)
  have "room_id r \<noteq> []" "room_code r \<noteq> []" using assms(1) by (simp_all add: snapshot_ok_def)
  then show ?thesis
    using assms(2) id obj by (simp add: restore_room_def read Let_def) (simp add: restored_room_def offline_room_def)
qed

lemma table_ok_restored: "table_ok r \<Longrightarrow> table_ok (restored_room t r)"
  by (auto simp: table_ok_def restored_room_def offline_room_def smap_vals_def smap_each_def player_ok_def
      smap_wf_each[unfolded smap_each_def] smap_keys_each[unfolded smap_each_def])

text \<open>A room with two players in the middle of a hand.\<close>

definition demo_saved_room :: Room where
  "demo_saved_room =
     (default_room 5)\<lparr>room_id := ''AAAAAA'', room_code := ''AAAAAA'',
        seats := (replicate 10 empty_seat)[2 := empty_seat\<lparr>seat_type := SeatPlayer, seat_name := ''ann'',
          seat_socket_id := ''s1'', seat_reconnect_token := ''t''\<rparr>, 4 := empty_seat\<lparr>seat_type := SeatAI, seat_name := ''AI-4''\<rparr>],
        started := True, pot := 150, active_seat_idx := 2, pending_action_seats := {2},
        players := [(2, default_player\<lparr>p_seat_idx := 2, hand := [\<lparr>card_s = ''h'', card_r = ''A'', card_v = 14\<rparr>]\<rparr>),
                    (4, default_player\<lparr>p_seat_idx := 4\<rparr>)],
        event_seq := 1, event_log := [\<lparr>ev_seq = 1, ev_envelope = (''activity'', TextMessage ''hi''), ev_seat_idx = -1, ev_created_at = 5\<rparr>]\<rparr>"

definition demo_ser :: "envelope \<Rightarrow> string" where
  "demo_ser e = ''x''"

definition demo_de :: "string \<Rightarrow> envelope" where
  "demo_de s = (''activity'', TextMessage ''hi'')"

lemma demo_saved_ok: "snapshot_ok demo_ser demo_de demo_saved_room"
  by (simp add: snapshot_ok_def demo_saved_room_def default_room_def default_player_def empty_seat_def seat_fits_def
      player_fits_def card_fits_def event_fits_def i32_defs in_i64_def kSeats_def smap_wf_def kRoomEventLogLimit_def
      demo_ser_def demo_de_def nth_Cons' list_update_def numeral_eq_Suc)

theorem snapshot_roundtrip_witness:
  "room_from_json demo_de 9 (room_to_json demo_ser demo_saved_room) = Some (offline_room 9 demo_saved_room) \<and>
   pot (offline_room 9 demo_saved_room) = 150"
  using snapshot_roundtrip[OF demo_saved_ok, of 9]
  by (simp add: offline_room_def demo_saved_room_def)

end
