(* ===== verification/Worlds.thy ===== *)
theory Worlds
  imports Evolving_Handlers Snapshot_Facts
begin

section \<open>The life of the server (main.cpp)\<close>

text \<open>
  Rooms are created, clients come and go, and everything else is a request or a timer. \<open>step\<close> is one
  event of the single worker thread; \<open>reachable\<close> worlds are those a run of the server can produce.
  An event that ends in a \<open>fault\<close> has no successor.

  \<^item> \<open>draws\<close> are the numbers \<open>dist(rng_)\<close> yields, from a uniform distribution over \<open>0 .. 31\<close>.
  \<^item> What a new session is bound to (\<open>bind_gateway_or_cookie_session\<close>) is a parameter here.
\<close>

subsection \<open>Creating rooms\<close>

definition kAlphabet :: string where
  "kAlphabet = ''ABCDEFGHJKLMNPQRSTUVWXYZ23456789''"

definition next_room_code :: "(nat \<Rightarrow> nat) \<Rightarrow> nat \<Rightarrow> string" where
  "next_room_code draws k = map (\<lambda>i. kAlphabet ! draws (k + i)) [0..<6]"

text \<open>\<open>do { code = next_room_code(); } while (rooms_.count(code) > 0);\<close>, from the \<open>k\<close>-th draw on.\<close>

partial_function (option) unused_room_code :: "(nat \<Rightarrow> nat) \<Rightarrow> (string \<rightharpoonup> Room) \<Rightarrow> nat \<Rightarrow> string option" where
  "unused_room_code draws rs k =
     (let code = next_room_code draws k
      in if rs code \<noteq> None then unused_room_code draws rs (k + 6) else Some code)"

declare unused_room_code.simps [code]

definition ensure_room :: "string \<Rightarrow> World \<Rightarrow> World" where
  "ensure_room key w =
     (case rooms w key of
        Some r \<Rightarrow> w
      | None \<Rightarrow> w\<lparr>rooms := (rooms w)(key \<mapsto> (default_room (now w))\<lparr>room_id := key, room_code := key\<rparr>)\<rparr>)"

definition set_up_room :: "int \<Rightarrow> string \<Rightarrow> int \<Rightarrow> string \<Rightarrow> int \<Rightarrow> int \<Rightarrow> string \<Rightarrow> Room \<Rightarrow> Room" where
  "set_up_room t code owner vis hands stack type r =
     (let type = (if type = [] then ''friend'' else type)
      in r\<lparr>owner_user_id := owner, room_code := code, room_type := type,
           visibility := (if vis = [] then ''private'' else vis),
           status := (if type = ''friend'' then ''waiting'' else ''matching''),
           total_hands := clamp hands 1 50, initial_chips := max 1000 stack,
           small_blind := 50, big_blind := 100, last_active_at := t\<rparr>)"

definition create_room_for_user ::
  "(nat \<Rightarrow> nat) \<Rightarrow> int \<Rightarrow> string \<Rightarrow> int \<Rightarrow> int \<Rightarrow> string \<Rightarrow> World \<Rightarrow> (string \<times> World) option" where
  "create_room_for_user draws owner vis hands stack type w =
     (case unused_room_code draws (rooms w) 0 of
        None \<Rightarrow> None
      | Some code \<Rightarrow>
          let w = ensure_room code w
          in case rooms w code of
               None \<Rightarrow> None
             | Some r \<Rightarrow>
                 Some (code, close_room code w (False, touch_room_snapshot
                   (open_room w (set_up_room (now w) code owner vis hands stack type r)))))"

subsection \<open>Clients\<close>

definition auth_state_msg :: "Session \<Rightarrow> message" where
  "auth_state_msg s =
     (let p = ses_profile s;
          name = (if ud_username p = [] then ud_login_username p else ud_username p)
      in AuthState (ses_authenticated s)
           (if ses_authenticated s then Some ((profile_msg p)\<lparr>up_username := name\<rparr>) else None))"

text \<open>\<open>client_register\<close>: \<open>s\<close> is the new session, bound to whoever logged in.\<close>

definition client_register :: "Session \<Rightarrow> World \<Rightarrow> World" where
  "client_register s w =
     (let sid = ses_socket_id s
      in if sid = [] then w
         else
           let w = (if sessions w sid \<noteq> None then remove_session sid w else w);
               w = w\<lparr>sessions := (sessions w)(sid \<mapsto> s), active_clients := insert sid (active_clients w)\<rparr>;
               w = send_event sid ''connect'' (TextMessage sid) w
           in send_event sid ''auth_state'' (auth_state_msg s) w)"

text \<open>
  A match was made elsewhere: the user \<open>uid\<close> is told on every socket it is logged in on, in the order of the
  hash map, and when it joins a room next.
\<close>

definition notify_session :: "string \<Rightarrow> int \<Rightarrow> int \<Rightarrow> string \<Rightarrow> 'a Server_scheme \<Rightarrow> 'a Server_scheme" where
  "notify_session code threshold uid sid w =
     (case sessions w sid of
        None \<Rightarrow> w
      | Some s \<Rightarrow>
          if \<not> ses_authenticated s \<or> ses_user_id s \<noteq> uid then w
          else send_event (ses_socket_id s) ''match_found'' (MatchFound code threshold)
                 (send_event (ses_socket_id s) ''matchmaking_status''
                    (MatchmakingStatus ''matched'' code threshold threshold) w))"

definition notify_match :: "string list \<Rightarrow> string \<Rightarrow> int \<Rightarrow> int \<Rightarrow> 'a Server_scheme \<Rightarrow> 'a Server_scheme" where
  "notify_match order code threshold uid w =
     fold (notify_session code threshold uid) order
       (w\<lparr>pending_match_rooms := (pending_match_rooms w)(uid \<mapsto> code)\<rparr>)"

text \<open>The gateway goes: \<open>ids\<close> lists the tracked sockets in the order of the hash set.\<close>

definition detach_gateway :: "string list \<Rightarrow> World \<Rightarrow> World" where
  "detach_gateway ids w =
     (if \<not> gateway_attached w then w
      else fold end_session ids (w\<lparr>gateway_attached := False, active_clients := {}\<rparr>))"

subsection \<open>Runs of the server\<close>

definition initial_world :: "int \<Rightarrow> bool \<Rightarrow> (int \<rightharpoonup> string) \<Rightarrow> World" where
  "initial_world t snapshots names =
     \<lparr>now = t, snapshots_on = snapshots, gateway_attached = False, active_clients = {}, sessions = Map.empty,
      gameplay_sessions = Map.empty, snapshot_timers = {}, auth_usernames = names, cached_users = Map.empty,
      recorded_matches = [], pending_match_rooms = Map.empty, outbox = [], rooms = Map.empty\<rparr>"

inductive step :: "World \<Rightarrow> World \<Rightarrow> bool" where
  clock: "now w \<le> t \<Longrightarrow> step w (w\<lparr>now := t\<rparr>)"
| attach: "step w (w\<lparr>gateway_attached := True\<rparr>)"
| detach: "step w (detach_gateway ids w)"
| register: "step w (client_register s w)"
| leave: "step w (remove_session sid w)"
| message: "on_ws_message ch req sid w = Inr w' \<Longrightarrow> step w w'"
| ai_timer: "fire_ai_timer ch key w = Inr w' \<Longrightarrow> step w w'"
| create: "create_room_for_user draws owner vis hands stack type w = Some (code, w') \<Longrightarrow> step w w'"
| profile: "step w (cache_profile p w)"
| notify: "step w (notify_match order code threshold uid w)"

text \<open>
  A server that starts with snapshots on restores rooms that were saved by an earlier run, each at some
  moment of it (\<open>restore_saved\<close> says what \<open>restore_room\<close> makes of such a file).
\<close>

inductive reachable :: "World \<Rightarrow> bool" where
  boot: "reachable (initial_world t snapshots names)"
| recover: "(\<And>key r. rs key = Some r \<Longrightarrow>
      \<exists>w r' ser de. reachable w \<and> rooms w key = Some r' \<and> snapshot_ok ser de r' \<and> r = restored_room t r') \<Longrightarrow>
    reachable ((initial_world t True names)\<lparr>rooms := rs\<rparr>)"
| run: "reachable w \<Longrightarrow> step w w' \<Longrightarrow> reachable w'"

subsection \<open>What every reachable world satisfies\<close>

definition room_ok :: "string \<Rightarrow> Room \<Rightarrow> bool" where
  "room_ok key r \<longleftrightarrow> room_id r = key \<and> table_ok r \<and> log_ok r \<and> log_private r \<and>
     length (activity_log r) \<le> 250"

definition world_ok :: "World \<Rightarrow> bool" where
  "world_ok w \<longleftrightarrow> (\<forall>key r. rooms w key = Some r \<longrightarrow> room_ok key r) \<and> sessions_filed w"

lemma world_okI:
  "(\<And>key r. rooms w key = Some r \<Longrightarrow> room_ok key r) \<Longrightarrow> sessions_filed w \<Longrightarrow> world_ok w"
  by (simp add: world_ok_def)

lemma world_okD:
  "world_ok w \<Longrightarrow> rooms w key = Some r \<Longrightarrow> room_ok key r" "world_ok w \<Longrightarrow> sessions_filed w"
  by (simp_all add: world_ok_def)

lemma room_ok_evolves: "evolves q mute c d \<Longrightarrow> table_ok (rm d) \<Longrightarrow> room_ok key (rm c) \<Longrightarrow> room_ok key (rm d)"
  unfolding room_ok_def using evolves_room_id evolves_log_ok evolves_activity evolves_log_private by simp

lemma open_room_fields [simp]:
  "rm (open_room w r) = r" "sessions (open_room w r) = sessions w" "now (open_room w r) = now w"
  "active_clients (open_room w r) = active_clients w" "outbox (open_room w r) = outbox w"
  by (simp_all add: open_room_def Server.extend_def Server.truncate_def Ctx.fields_def)

lemma close_room_fields [simp]:
  "rooms (close_room key w res) = (rooms w)(key := (if fst res then None else Some (rm (snd res))))"
  "sessions (close_room key w res) = sessions (snd res)" "outbox (close_room key w res) = outbox (snd res)"
  by (simp_all add: close_room_def Server.extend_def Server.truncate_def World.fields_def)

lemma rooms_send [simp]:
  "rooms (send_envelope sid env w) = rooms w" "rooms (send_event sid n m w) = rooms w"
  "rooms (send_error sid t w) = rooms w"
  by (simp_all add: send_error_def send_event_def send_envelope_def)

lemma sessions_filed_open [simp]: "sessions_filed (open_room w r) = sessions_filed w"
  by (simp add: sessions_filed_def)

text \<open>A room's handler, run and put back, keeps the world well formed.\<close>

lemma world_ok_close:
  assumes "world_ok w" and "rooms w key = Some r"
    and "evolves False False (open_room w r) (snd res)" and "table_ok (rm (snd res))"
  shows "world_ok (close_room key w res)"
proof (rule world_okI)
  have "room_ok key (rm (snd res))"
    using room_ok_evolves[OF assms(3,4)] world_okD(1)[OF assms(1,2)] by simp
  then show "room_ok k r'" if "rooms (close_room key w res) k = Some r'" for k r'
    using that world_okD(1)[OF assms(1)] by (auto split: if_splits)
  have "sessions_filed (snd res)"
    using evolves_sessions[OF assms(3)] world_okD(2)[OF assms(1)] by simp
  then show "sessions_filed (close_room key w res)"
    by (rule sessions_filed_cong[THEN iffD1, rotated]) simp
qed

lemma room_table_ok: "world_ok w \<Longrightarrow> rooms w key = Some r \<Longrightarrow> table_ok (rm (open_room w r))"
  using world_okD(1) by (simp add: room_ok_def)

lemma world_ok_same:
  assumes "world_ok w" and "rooms w' = rooms w" and "\<And>k s. sessions w' k = Some s \<Longrightarrow> sessions w k = Some s \<or> ses_socket_id s = k"
  shows "world_ok w'"
proof (rule world_okI)
  show "room_ok key r" if "rooms w' key = Some r" for key r
    using that world_okD(1)[OF assms(1)] assms(2) by simp
  show "sessions_filed w'"
    using assms(3) sessions_filedD[OF world_okD(2)[OF assms(1)]] by (intro sessions_filedI) blast
qed

lemma on_ws_message_cases:
  assumes "on_ws_message ch req sid w = Inr w'"
  obtains (same) "w' = w" | (refused) t where "w' = send_error sid t w"
    | (handled) s r res where "sessions w sid = Some s" "rooms w (target_room req s) = Some r"
        "handle_request ch req sid (open_room w r) = Inr res" "w' = close_room (target_room req s) w res"
proof (cases "sessions w sid")
  case None
  then show thesis using assms same by (simp add: on_ws_message_def)
next
  case (Some s)
  have no: "no_room req sid w = w \<or> (\<exists>t. no_room req sid w = send_error sid t w)"
    by (auto simp: no_room_def split: request.split)
  show thesis
  proof (cases "rooms w (target_room req s)")
    case None
    then show thesis
      using assms Some no same refused by (auto simp: on_ws_message_def Let_def split: if_splits)
  next
    case room: (Some r)
    show thesis
    proof (cases "handle_request ch req sid (open_room w r)")
      case (Inr res)
      then show thesis
        using assms Some room same refused handled[OF Some room Inr]
        by (auto simp: on_ws_message_def Let_def split: if_splits)
    qed (use assms Some room same refused in \<open>auto simp: on_ws_message_def Let_def split: if_splits\<close>)
  qed
qed

lemma on_ws_message_ok:
  assumes "world_ok w" and "on_ws_message ch req sid w = Inr w'"
  shows "world_ok w'"
  using assms(2)
proof (cases rule: on_ws_message_cases)
  case (refused t)
  show ?thesis unfolding refused by (rule world_ok_same[OF assms(1)]) simp_all
next
  case (handled s r res)
  show ?thesis
    unfolding handled(4)
    by (rule world_ok_close[OF assms(1) handled(2) evolves_handle_request[OF handled(3)]
          handle_request_ok[OF room_table_ok[OF assms(1) handled(2)] handled(3)]])
qed (use assms(1) in simp)

lemma end_session_ok: "world_ok w \<Longrightarrow> world_ok (end_session sid w)"
proof (cases "sessions w sid")
  case None
  then show "world_ok w \<Longrightarrow> ?thesis" by (simp add: end_session_def)
next
  case (Some s)
  assume ok: "world_ok w"
  define v where "v = (case rooms w (ses_room_id s) of None \<Rightarrow> w
    | Some r \<Rightarrow> close_room (ses_room_id s) w (handle_disconnect sid (open_room w r)))"
  have "world_ok v"
  proof (cases "rooms w (ses_room_id s)")
    case None
    then show ?thesis using ok by (simp add: v_def)
  next
    case (Some r)
    then show ?thesis
      unfolding v_def using ok
      by (simp add: world_ok_close evolves_disconnect evolves.start handle_disconnect_ok room_table_ok
          del: open_room_fields)
  qed
  then have "world_ok (v\<lparr>sessions := (sessions v)(sid := None)\<rparr>)"
    by (rule world_ok_same) (auto split: if_splits)
  then show ?thesis by (simp add: end_session_def Some v_def Let_def)
qed

lemma remove_session_ok: "world_ok w \<Longrightarrow> world_ok (remove_session sid w)"
proof -
  assume "world_ok w"
  then have "world_ok (w\<lparr>active_clients := active_clients w - {sid}\<rparr>)"
    by (rule world_ok_same) auto
  from end_session_ok[OF this] \<open>world_ok w\<close> show ?thesis by (simp add: remove_session_def)
qed

lemma client_register_ok: "world_ok w \<Longrightarrow> world_ok (client_register s w)"
proof -
  assume ok: "world_ok w"
  define v where "v = (if sessions w (ses_socket_id s) \<noteq> None then remove_session (ses_socket_id s) w else w)"
  define u where "u = v\<lparr>sessions := (sessions v)(ses_socket_id s \<mapsto> s),
      active_clients := insert (ses_socket_id s) (active_clients v)\<rparr>"
  have "world_ok v" using ok remove_session_ok by (simp add: v_def)
  then have "world_ok u" by (rule world_ok_same) (auto simp: u_def split: if_splits)
  then have "world_ok (send_event sid n m (send_event sid n' m' u))" for sid n m n' m'
    by (rule world_ok_same) simp_all
  then show ?thesis using ok by (simp add: client_register_def Let_def v_def u_def)
qed

lemma detach_gateway_ok: "world_ok w \<Longrightarrow> world_ok (detach_gateway ids w)"
proof -
  assume ok: "world_ok w"
  have all: "world_ok v \<Longrightarrow> world_ok (fold end_session ids v)" for v
    by (induction ids arbitrary: v) (simp_all add: end_session_ok)
  have "world_ok (w\<lparr>gateway_attached := False, active_clients := {}\<rparr>)"
    using ok by (rule world_ok_same) simp_all
  with all ok show ?thesis by (simp add: detach_gateway_def)
qed

lemma notify_session_keeps [simp]:
  "rooms (notify_session code threshold uid sid w) = rooms w"
  "sessions (notify_session code threshold uid sid w) = sessions w"
  by (simp_all add: notify_session_def send_event_def send_envelope_def split: option.split)

lemma notify_match_keeps [simp]:
  fixes w :: World
  shows "rooms (notify_match order code threshold uid w) = rooms w"
  "sessions (notify_match order code threshold uid w) = sessions w"
proof -
  have "rooms (fold (notify_session code threshold uid) order v) = rooms v \<and>
    sessions (fold (notify_session code threshold uid) order v) = sessions v" for v :: World
    by (induction order arbitrary: v) simp_all
  then show "rooms (notify_match order code threshold uid w) = rooms w"
    "sessions (notify_match order code threshold uid w) = sessions w"
    by (simp_all add: notify_match_def)
qed

lemma notify_match_ok: "world_ok w \<Longrightarrow> world_ok (notify_match order code threshold uid w)"
  by (erule world_ok_same) simp_all

lemma table_ok_default_room: "table_ok ((default_room t)\<lparr>room_id := a, room_code := b\<rparr>)"
  by (simp add: table_ok_def default_room_def smap_wf_def smap_keys_def smap_vals_def kSeats_def)

lemma room_ok_new: "room_ok key ((default_room t)\<lparr>room_id := key, room_code := key\<rparr>)"
  using table_ok_default_room[where t = t and a = key and b = key]
  by (simp add: room_ok_def log_ok_def log_private_def) (simp add: default_room_def)

lemma room_ok_restored: "room_ok key r \<Longrightarrow> room_ok key (restored_room t r)"
  using table_ok_restored[of r t]
  by (simp add: room_ok_def log_ok_def log_private_def) (simp add: restored_room_def offline_room_def)

lemma ensure_room_ok: "world_ok w \<Longrightarrow> world_ok (ensure_room key w)"
proof (cases "rooms w key")
  case None
  assume ok: "world_ok w"
  show ?thesis
  proof (rule world_okI)
    show "room_ok k r" if "rooms (ensure_room key w) k = Some r" for k r
      using that None world_okD(1)[OF ok] room_ok_new by (auto simp: ensure_room_def split: if_splits)
    show "sessions_filed (ensure_room key w)"
      using world_okD(2)[OF ok] by (rule sessions_filed_cong[THEN iffD1, rotated]) (simp add: ensure_room_def None)
  qed
qed (simp add: ensure_room_def)

lemma table_ok_set_up_room: "table_ok r \<Longrightarrow> table_ok (set_up_room t code owner vis hands stack type r)"
  by (simp add: set_up_room_def Let_def table_ok_def)

lemma open_room_set: "open_room w (f r) = on_room f (open_room w r)"
  by (simp add: open_room_def on_room_def Server.extend_def Ctx.fields_def)

lemma create_room_ok:
  assumes "world_ok w"
    and "create_room_for_user draws owner vis hands stack type w = Some (code, w')"
  shows "world_ok w'"
proof -
  define v where "v = ensure_room code w"
  have ok: "world_ok v" using assms(1) by (simp add: v_def ensure_room_ok)
  obtain r where r: "rooms v code = Some r" and w': "w' = close_room code v (False, touch_room_snapshot
      (open_room v (set_up_room (now v) code owner vis hands stack type r)))"
    using assms(2) by (auto simp: create_room_for_user_def Let_def v_def split: option.splits)
  have "same_log False r (set_up_room (now v) code owner vis hands stack type r)"
    by (simp add: same_log_def set_up_room_def Let_def)
  then have "evolves False False (open_room v r) (open_room v (set_up_room (now v) code owner vis hands stack type r))"
    unfolding open_room_set[of v _ r] by (intro evolving evolves.start) simp
  then have ev: "evolves False False (open_room v r)
      (touch_room_snapshot (open_room v (set_up_room (now v) code owner vis hands stack type r)))"
    by (rule evolves_touch)
  have "table_ok (rm (touch_room_snapshot (open_room v (set_up_room (now v) code owner vis hands stack type r))))"
    using room_table_ok[OF ok r] table_ok_set_up_room[of r]
    by (simp add: touch_room_snapshot_def)
  then show ?thesis unfolding w' using ok r ev by (intro world_ok_close) simp_all
qed

lemma step_ok: "step w w' \<Longrightarrow> world_ok w \<Longrightarrow> world_ok w'"
proof (induction rule: step.induct)
  case (ai_timer ch key w w')
  show ?case
  proof (cases "rooms w key")
    case (Some r)
    obtain d where d: "ai_timer_fires (uniform ch) (open_room w r) = Inr d" "w' = close_room key w (False, d)"
      using ai_timer.hyps Some by (cases "ai_timer_fires (uniform ch) (open_room w r)") (auto simp: fire_ai_timer_def)
    have "table_ok (rm d)" "evolves False False (open_room w r) d"
      using ai_timer_fires_ok_res[OF room_table_ok[OF ai_timer.prems Some], of "uniform ch"] d(1)
        evolves_ai_timer[OF evolves.start, of False False "open_room w r" "uniform ch"]
      by (simp_all add: ok_res_def evolves_res_def)
    then show ?thesis unfolding d(2) using ai_timer.prems Some by (intro world_ok_close) simp_all
  qed (use ai_timer in \<open>simp add: fire_ai_timer_def\<close>)
next
  case (clock w t)
  show ?case by (rule world_ok_same[OF clock.prems]) simp_all
next
  case (attach w)
  show ?case by (rule world_ok_same[OF attach.prems]) simp_all
next
  case (profile w p)
  show ?case by (rule world_ok_same[OF profile.prems]) (simp_all add: cache_profile_def)
qed (blast intro: detach_gateway_ok client_register_ok remove_session_ok on_ws_message_ok create_room_ok notify_match_ok)+

lemma reachable_ok: "reachable w \<Longrightarrow> world_ok w"
proof (induction rule: reachable.induct)
  case (boot t snapshots names)
  show ?case by (intro world_okI sessions_filedI) (simp_all add: initial_world_def)
next
  case (recover rs t names)
  have "room_ok key r" if "rs key = Some r" for key r
    using recover[OF that] world_okD(1) room_ok_restored by blast
  then show ?case by (intro world_okI sessions_filedI) (simp_all add: initial_world_def)
qed (rule step_ok)

text \<open>
  C1. Whatever clients send, in whatever order they come, go, act and time out, and also after the server
  was restarted from its snapshots: in every world it can reach, each room is filed under its own id, its table is well formed (ten seats, players
  sorted by seat and only on seats of the table, no stack, bet or contribution negative), its event
  log holds at most 600 entries numbered without a gap up to the last sequence number, a logged entry
  that shows somebody's cards is filed under that seat, the activity log holds at most 250 lines, and each session is filed under its own socket.
\<close>

theorem reachable_world_invariant:
  assumes "reachable w"
  shows "(\<forall>key r. rooms w key = Some r \<longrightarrow>
           room_id r = key \<and> table_ok r \<and>
           length (event_log r) \<le> 600 \<and>
           (\<forall>k<length (event_log r).
              ev_seq (event_log r ! k) = event_seq r - int (length (event_log r)) + int k + 1) \<and>
           (\<forall>e\<in>set (event_log r). \<forall>j. cards_of (snd (ev_envelope e)) = Some j \<longrightarrow> ev_seat_idx e = j \<and> 0 \<le> j) \<and>
           length (activity_log r) \<le> 250) \<and>
         (\<forall>sid s. sessions w sid = Some s \<longrightarrow> ses_socket_id s = sid)"
  using world_okD[OF reachable_ok[OF assms]] sessions_filedD
  unfolding room_ok_def log_ok_def log_private_def kRoomEventLogLimit_def by blast

definition first_room_world :: World where
  "first_room_world =
     snd (the (create_room_for_user (\<lambda>_. 0) 7 [] 9 2000 [] (initial_world 5 True Map.empty)))"

lemma first_room_world_reachable: "reachable first_room_world"
proof -
  let ?make = "create_room_for_user (\<lambda>_. 0) 7 [] 9 2000 [] (initial_world 5 True Map.empty)"
  have "?make \<noteq> None"
    by (simp add: create_room_for_user_def unused_room_code.simps[of _ _ 0] ensure_room_def initial_world_def
        Let_def)
  then have "?make = Some (fst (the ?make), first_room_world)" by (simp add: first_room_world_def)
  from run[OF boot step.create[OF this]] show ?thesis .
qed

lemma first_room_world_room:
  "map_option (\<lambda>r. (total_hands r, initial_chips r, status r)) (rooms first_room_world ''AAAAAA'') =
   Some (9, 2000, ''waiting'')"
  by (simp add: first_room_world_def create_room_for_user_def unused_room_code.simps[of _ _ 0]
      next_room_code_def kAlphabet_def ensure_room_def initial_world_def Let_def touch_room_snapshot_def
      set_up_room_def clamp_def upt_rec)

theorem reachable_world_invariant_witness:
  "\<exists>r. rooms first_room_world ''AAAAAA'' = Some r \<and> room_id r = ''AAAAAA'' \<and> table_ok r"
  using first_room_world_room reachable_world_invariant[OF first_room_world_reachable] by blast


definition two_room_world :: World where
  "two_room_world =
     (initial_world 5 False Map.empty)
       \<lparr>sessions := [''a'' \<mapsto> (new_session ''a'')\<lparr>ses_room_id := ''R''\<rparr>],
        rooms := [''R'' \<mapsto> (default_room 5)\<lparr>host_socket_id := ''a''\<rparr>, ''Q'' \<mapsto> default_room 5]\<rparr>"

definition demo_chance :: Chance where
  "demo_chance = \<lparr>shuffle = id, token1 = ''t1'', token2 = ''t2'', uniform = 0\<rparr>"


lemma unused_room_code_found:
  assumes "rs (next_room_code draws (k + 6 * n)) = None"
    and "\<And>m. m < n \<Longrightarrow> rs (next_room_code draws (k + 6 * m)) \<noteq> None"
  shows "unused_room_code draws rs k = Some (next_room_code draws (k + 6 * n))"
  using assms
proof (induction n arbitrary: k)
  case 0
  then show ?case by (simp add: unused_room_code.simps[of _ _ k])
next
  case (Suc n)
  have "unused_room_code draws rs (k + 6) = Some (next_room_code draws (k + 6 + 6 * n))"
  proof (rule Suc.IH)
    show "rs (next_room_code draws (k + 6 + 6 * n)) = None" using Suc.prems(1) by (simp add: algebra_simps)
    show "rs (next_room_code draws (k + 6 + 6 * m)) \<noteq> None" if "m < n" for m
      using Suc.prems(2)[of "Suc m"] that by (simp add: algebra_simps)
  qed
  then show ?case
    using Suc.prems(2)[of 0] by (simp add: unused_room_code.simps[of _ _ k] algebra_simps Let_def)
qed

lemma unused_room_code_some:
  assumes "unused_room_code draws rs k = Some code"
  shows "\<exists>n. code = next_room_code draws (k + 6 * n) \<and> rs code = None \<and>
    (\<forall>m<n. rs (next_room_code draws (k + 6 * m)) \<noteq> None)"
  using assms
proof (rule unused_room_code.raw_induct[rotated])
  fix f draws and rs :: "string \<rightharpoonup> Room" and k code
  assume IH: "\<And>draws rs k code. f draws rs k = Some code \<Longrightarrow> \<exists>n. code = next_room_code draws (k + 6 * n) \<and>
      rs code = None \<and> (\<forall>m<n. rs (next_room_code draws (k + 6 * m)) \<noteq> None)"
    and body: "(let code = next_room_code draws k in
      if rs code \<noteq> None then f draws rs (k + 6) else Some code) = Some code"
  show "\<exists>n. code = next_room_code draws (k + 6 * n) \<and> rs code = None \<and>
      (\<forall>m<n. rs (next_room_code draws (k + 6 * m)) \<noteq> None)"
  proof (cases "rs (next_room_code draws k)")
    case None
    with body have "code = next_room_code draws (k + 6 * 0)" by simp
    with None show ?thesis by (intro exI[of _ 0]) simp
  next
    case (Some r)
    with body have "f draws rs (k + 6) = Some code" by (simp add: Let_def)
    from IH[OF this] obtain n where n: "code = next_room_code draws (k + 6 + 6 * n)" "rs code = None"
        "\<And>m. m < n \<Longrightarrow> rs (next_room_code draws (k + 6 + 6 * m)) \<noteq> None"
      by blast
    have "rs (next_room_code draws (k + 6 * m)) \<noteq> None" if "m < Suc n" for m
      using n(3)[of "m - 1"] Some that by (cases m) (simp_all add: algebra_simps)
    with n(1,2) show ?thesis by (intro exI[of _ "Suc n"]) (simp add: algebra_simps)
  qed
qed

text \<open>
  C17. A room code is always fresh, and the search for one ends exactly if the generator ever yields
  an unused code: the result is the first six-letter code it yields under which no room is filed.
\<close>

theorem room_code_search:
  "unused_room_code draws rs 0 = Some code \<longleftrightarrow>
     (\<exists>n. code = next_room_code draws (6 * n) \<and> rs code = None \<and>
          (\<forall>m<n. rs (next_room_code draws (6 * m)) \<noteq> None))"
  using unused_room_code_some[of draws rs 0 code] unused_room_code_found[of rs draws 0]
  by (auto simp: next_room_code_def)

theorem room_code_search_witness:
  "unused_room_code (\<lambda>k. if k < 6 then 0 else 31) [''AAAAAA'' \<mapsto> default_room 0] 0 = Some ''999999''"
  unfolding room_code_search
  by (intro exI[of _ 1]) (simp add: next_room_code_def kAlphabet_def upt_rec)

end
