(* ===== verification/Privacy.thy ===== *)
theory Privacy
  imports Worlds
begin

section \<open>Nobody sees another player's cards\<close>

text \<open>
  Hole cards leave the server in \<open>private_hand\<close> envelopes only: the state messages do not depend on
  them, and every \<open>private_hand\<close> goes to the socket that holds the seat.
\<close>

definition discreet :: "Ctx \<Rightarrow> Ctx \<Rightarrow> bool" where
  "discreet c d \<longleftrightarrow>
     (\<exists>es. outbox d = outbox c @ es \<and>
       (\<forall>e\<in>set es. \<forall>j. cards_of (snd (snd e)) = Some j \<longrightarrow> seat_socket_id (seat_at (rm d) j) = fst e))"

lemma discreetI:
  assumes "outbox d = outbox c @ es"
    and "\<And>to env j. (to, env) \<in> set es \<Longrightarrow> cards_of (snd env) = Some j \<Longrightarrow> seat_socket_id (seat_at (rm d) j) = to"
  shows "discreet c d"
  using assms unfolding discreet_def by (intro exI[of _ es]) auto

lemma discreetE:
  assumes "discreet c d"
  obtains es where "outbox d = outbox c @ es"
    and "\<And>to env j. (to, env) \<in> set es \<Longrightarrow> cards_of (snd env) = Some j \<Longrightarrow> seat_socket_id (seat_at (rm d) j) = to"
  using assms unfolding discreet_def by fastforce

lemma discreet_mute: "evolves q True c d \<Longrightarrow> discreet c d"
  using evolves_mute[of q c d] unfolding discreet_def by fastforce

lemma discreet_then:
  assumes "discreet c m" and "evolves True True m d"
  shows "discreet c d"
proof -
  obtain es where es: "outbox m = outbox c @ es"
    "\<And>to env j. (to, env) \<in> set es \<Longrightarrow> cards_of (snd env) = Some j \<Longrightarrow> seat_socket_id (seat_at (rm m) j) = to"
    using discreetE[OF assms(1)] by blast
  obtain fs where fs: "outbox d = outbox m @ fs" "\<forall>e\<in>set fs. cards_of (snd (snd e)) = None"
    using evolves_mute[OF assms(2)] by blast
  have "seat_at (rm d) j = seat_at (rm m) j" for j
    using evolves_seats[OF assms(2)] by (simp add: seat_at_def)
  with es fs show ?thesis by (intro discreetI[where es = "es @ fs"]) fastforce+
qed

lemma discreet_after:
  assumes "evolves q True c m" and "discreet m d"
  shows "discreet c d"
proof -
  obtain es where es: "outbox m = outbox c @ es" "\<forall>e\<in>set es. cards_of (snd (snd e)) = None"
    using evolves_mute[OF assms(1)] by blast
  obtain fs where fs: "outbox d = outbox m @ fs"
    "\<And>to env j. (to, env) \<in> set fs \<Longrightarrow> cards_of (snd env) = Some j \<Longrightarrow> seat_socket_id (seat_at (rm d) j) = to"
    using discreetE[OF assms(2)] by blast
  from es fs show ?thesis by (intro discreetI[where es = "es @ fs"]) fastforce+
qed

lemma discreet_refl [simp]: "discreet c c"
  by (simp add: discreet_def)

subsection \<open>Dealing\<close>

lemma outbox_emit_seat:
  "\<exists>es. outbox (emit_seat_event i n m d) = outbox d @ es \<and> (\<forall>e\<in>set es. e = (seat_socket_id (seat_at (rm d) i), (n, m)))"
  by (auto simp: emit_seat_event_def Let_def touch_room_snapshot_def send_envelope_def)

lemma discreet_send_hand: "discreet c d \<Longrightarrow> discreet c (send_private_hand i d)"
proof -
  assume d: "discreet c d"
  have emit: "discreet c (emit_seat_event i n (PrivateHand i cs) d)" for n cs
  proof -
    let ?e = "emit_seat_event i n (PrivateHand i cs) d"
    obtain es where es: "outbox ?e = outbox d @ es"
        "\<forall>e\<in>set es. e = (seat_socket_id (seat_at (rm d) i), (n, PrivateHand i cs))"
      using outbox_emit_seat by blast
    obtain fs where fs: "outbox d = outbox c @ fs"
      "\<And>to env j. (to, env) \<in> set fs \<Longrightarrow> cards_of (snd env) = Some j \<Longrightarrow> seat_socket_id (seat_at (rm d) j) = to"
      using discreetE[OF d] by blast
    have "seat_at (rm ?e) j = seat_at (rm d) j" for j
      by (simp add: rm_emit_seat_event logged_def append_room_event_def seat_at_def Let_def)
    with es fs show ?thesis by (intro discreetI[where es = "fs @ es"]) auto
  qed
  show ?thesis using d emit by (simp add: send_private_hand_def split: option.split)
qed

lemma discreet_fold_send: "discreet c d \<Longrightarrow> discreet c (fold send_private_hand is d)"
  by (induction "is" arbitrary: d) (simp_all add: discreet_send_hand)

lemma discreet_start_hand:
  assumes "start_hand shuf c = Inr d"
  shows "discreet c d"
proof -
  obtain c1 where c1: "apply_pending_rebuys (on_room ensure_players_map c) = Inr c1"
    using assms by (auto simp: start_hand_def split: sum.splits)
  have ev1: "evolves True True c c1"
    using evolves_apply_pending_rebuys[of True True c "on_room ensure_players_map c"] c1
    by (simp add: evolves_res_def evolves_on_room evolves.start)
  show ?thesis
  proof (cases "length (filter (is_seat_eligible (clients_of c1) (rm c1)) seat_indices) < 2")
    case True
    then have d: "d = emit_match_over ''Not enough players with chips to continue.'' c1"
      using assms c1 by (simp add: start_hand_def Let_def)
    show ?thesis unfolding d by (rule discreet_mute[of True]) (intro evolving ev1)
  next
    case False
    define c2 where "c2 = on_room (deal_hole_cards (clients_of (post_blinds (open_hand shuf c1))))
      (post_blinds (open_hand shuf c1))"
    define c3 where "c3 = fold send_private_hand seat_indices c2"
    define c4 where "c4 = on_room (\<lambda>r. r\<lparr>current_max_bet := big_blind r, min_raise := big_blind r\<rparr>) c3"
    define utg where "utg = get_active_offset (clients_of (open_hand shuf c1)) (rm (open_hand shuf c1))
      (dealer_seat_idx (rm (open_hand shuf c1))) 3"
    have d: "d = request_turn (broadcast_game (on_room (init_pending_action (clients_of c3) utg) c4))"
      using assms c1 False
      by (simp add: start_hand_def Let_def deal_hands_def c2_def[symmetric] c3_def[symmetric]
          c4_def[symmetric] utg_def[symmetric])
    have "evolves True True c c2" unfolding c2_def by (intro evolving ev1) simp
    then have "discreet c c3" unfolding c3_def by (intro discreet_fold_send discreet_mute)
    moreover have "evolves True True c3 d" unfolding d c4_def by (intro evolving evolves.start) simp_all
    ultimately show ?thesis by (rule discreet_then)
  qed
qed

subsection \<open>Rejoining\<close>

text \<open>The session of socket \<open>sid\<close> sits where it says it does.\<close>

definition holds_seat :: "string \<Rightarrow> Ctx \<Rightarrow> bool" where
  "holds_seat sid c \<longleftrightarrow> seat_socket_id (seat_at (rm c) (ses_seat_idx (ses c sid))) = sid \<and> ses_socket_id (ses c sid) = sid"

lemma ses_mark [simp]:
  "ses_seat_idx (ses (mark_last_seen_for_socket k n c) sid) = ses_seat_idx (ses c sid)"
  "ses_socket_id (ses (mark_last_seen_for_socket k n c) sid) = ses_socket_id (ses c sid)"
  by (simp_all add: mark_last_seen_for_socket_def ses_def Let_def split: option.split)

lemma ses_send [simp]:
  "ses (send_envelope k env c) sid = ses c sid" "ses (send_event k n m c) sid = ses c sid"
  "ses (on_room f d) sid = ses d sid" "ses (touch_room_snapshot d) sid = ses d sid"
  by (simp_all add: ses_def touch_room_snapshot_def)

lemma ses_fold:
  assumes "\<And>k c. ses_seat_idx (ses (g k c) sid) = ses_seat_idx (ses c sid)"
    and "\<And>k c. ses_socket_id (ses (g k c) sid) = ses_socket_id (ses c sid)"
  shows "ses_seat_idx (ses (fold g ks c) sid) = ses_seat_idx (ses c sid)"
    "ses_socket_id (ses (fold g ks c) sid) = ses_socket_id (ses c sid)"
proof -
  show "ses_seat_idx (ses (fold g ks c) sid) = ses_seat_idx (ses c sid)"
    by (induction ks arbitrary: c) (simp_all add: assms(1))
  show "ses_socket_id (ses (fold g ks c) sid) = ses_socket_id (ses c sid)"
    by (induction ks arbitrary: c) (simp_all add: assms(2))
qed

lemma ses_broadcast [simp]:
  "ses_seat_idx (ses (emit_room_event n m c) sid) = ses_seat_idx (ses c sid)"
  "ses_socket_id (ses (emit_room_event n m c) sid) = ses_socket_id (ses c sid)"
  "ses_seat_idx (ses (broadcast_room c) sid) = ses_seat_idx (ses c sid)"
  "ses_socket_id (ses (broadcast_room c) sid) = ses_socket_id (ses c sid)"
  unfolding emit_room_event_def broadcast_room_def Let_def ses_send
  by (subst ses_fold; simp)+

lemma ses_let:
  "ses x sid = u \<Longrightarrow> (\<And>y. ses y sid = u \<Longrightarrow> ses (f y) sid = u) \<Longrightarrow> ses (Let x f) sid = u"
  by simp

lemma ses_sync [simp]: "ses (send_full_state_sync s b c) sid = ses c sid"
  unfolding send_full_state_sync_def
  by (subst Let_def, subst Let_def, (rule ses_let, simp add: emit_you_state_def)+) (simp split: option.split)

lemma rm_let: "rm x = u \<Longrightarrow> (\<And>y. rm y = u \<Longrightarrow> rm (f y) = u) \<Longrightarrow> rm (Let x f) = u"
  by simp

lemma rm_sync [simp]: "rm (send_full_state_sync s b c) = rm c"
  unfolding send_full_state_sync_def
  by (subst Let_def, subst Let_def, (rule rm_let, simp add: emit_you_state_def)+) (simp split: option.split)

lemma holds_seat_step:
  assumes "evolves True mute c d" and "ses_seat_idx (ses d sid) = ses_seat_idx (ses c sid)"
    and "ses_socket_id (ses d sid) = ses_socket_id (ses c sid)"
  shows "holds_seat sid d = holds_seat sid c"
  using evolves_seats[OF assms(1)] assms(2,3) by (simp add: holds_seat_def seat_at_def)

lemma holds_seat_broadcast [simp]:
  "holds_seat sid (broadcast_room c) = holds_seat sid c" "holds_seat sid (broadcast_game c) = holds_seat sid c"
  "holds_seat sid (send_full_state_sync s b c) = holds_seat sid c"
  by (rule holds_seat_step[of False], intro evolving evolves.start, simp_all add: broadcast_game_def)+

text \<open>The state sync is the one without cards, perhaps followed by the cards of the session's seat.\<close>

lemma sync_split:
  "send_full_state_sync s b c = send_full_state_sync s False c \<or>
   b \<and> (\<exists>cs. send_full_state_sync s b c =
      send_event (ses_socket_id s) ''private_hand'' (PrivateHand (ses_seat_idx s) cs) (send_full_state_sync s False c))"
proof -
  obtain y where y: "\<And>b. send_full_state_sync s b c =
      (if \<not> b \<or> \<not> (ses_seat_idx s \<ge> 0 \<and> ses_seat_idx s < kSeats) then y
       else case get_player (rm y) (ses_seat_idx s) of
              None \<Rightarrow> y
            | Some p \<Rightarrow> if length (hand p) < 2 then y
                        else send_event (ses_socket_id s) ''private_hand'' (PrivateHand (ses_seat_idx s) (hand p)) y)"
    unfolding send_full_state_sync_def by (simp only: Let_def)
  show ?thesis unfolding y by (auto split: option.split)
qed

lemma discreet_sync:
  assumes "discreet c d" and "b \<Longrightarrow> holds_seat sid d"
  shows "discreet c (send_full_state_sync (ses d sid) b d)"
proof -
  define s where "s = ses d sid"
  define plain where "plain = send_full_state_sync s False d"
  have ev: "evolves True True d plain"
    unfolding plain_def by (intro evolving evolves.start) simp
  have plain: "discreet c plain" by (rule discreet_then[OF assms(1) ev])
  obtain es where es: "outbox plain = outbox c @ es"
    "\<And>to env j. (to, env) \<in> set es \<Longrightarrow> cards_of (snd env) = Some j \<Longrightarrow> seat_socket_id (seat_at (rm plain) j) = to"
    using discreetE[OF plain] by blast
  have "discreet c (send_event (ses_socket_id s) ''private_hand'' (PrivateHand (ses_seat_idx s) cs) plain)"
    if "holds_seat sid d" for cs
    using that es evolves_seats[OF ev]
    by (intro discreetI[where es = "if gateway_attached plain
          then es @ [(ses_socket_id s, (''private_hand'', PrivateHand (ses_seat_idx s) cs))] else es"])
      (auto simp: send_event_def send_envelope_def holds_seat_def s_def seat_at_def split: if_splits)
  then show ?thesis
    using plain assms(2) sync_split[of s b d] unfolding s_def[symmetric] plain_def by auto
qed

lemma outbox_fold_send:
  "\<exists>es. outbox (fold (\<lambda>e. send_envelope sid (ev_envelope e)) ms c) = outbox c @ es \<and>
     set es \<subseteq> (\<lambda>e. (sid, ev_envelope e)) ` set ms"
proof (induction ms arbitrary: c)
  case (Cons e ms)
  obtain es where es: "outbox (fold (\<lambda>e. send_envelope sid (ev_envelope e)) ms (send_envelope sid (ev_envelope e) c)) =
      outbox (send_envelope sid (ev_envelope e) c) @ es" "set es \<subseteq> (\<lambda>e. (sid, ev_envelope e)) ` set ms"
    using Cons by blast
  moreover have "outbox (send_envelope sid (ev_envelope e) c) =
      outbox c @ (if gateway_attached c then [(sid, ev_envelope e)] else [])"
    by (simp add: send_envelope_def)
  ultimately show ?case
    by (intro exI[of _ "(if gateway_attached c then [(sid, ev_envelope e)] else []) @ es"]) auto
qed simp

lemma replay_outbox:
  assumes "sessions c sid = Some s"
  shows "\<exists>es last. outbox (replay_missed_events sid c) = outbox c @ es \<and>
    set es \<subseteq> (\<lambda>e. (ses_socket_id s, ev_envelope e)) ` set (missed_events last (ses_seat_idx s) (event_log (rm c)))"
proof -
  obtain n d where nd: "(if ses_gameplay_session_id s = [] then (ses_last_seen_seq s, c)
      else case get_gameplay_session (ses_gameplay_session_id s) c of
             (None, c) \<Rightarrow> (ses_last_seen_seq s, c)
           | (Some g, c) \<Rightarrow> (max (ses_last_seen_seq s) (gp_last_seen_seq g), c)) = (n, d)"
    by fastforce
  then have d: "rm d = rm c" "outbox d = outbox c" "gateway_attached d = gateway_attached c"
    by (auto simp: get_gameplay_session_def split: if_splits option.splits prod.splits)
  show ?thesis
    using outbox_fold_send[of "ses_socket_id s" "missed_events n (ses_seat_idx s) (event_log (rm d))" d]
    by (auto simp: replay_missed_events_def assms nd Let_def d)
qed

lemma discreet_replay:
  assumes "discreet c d" and "holds_seat sid d" and "log_private (rm d)"
  shows "discreet c (replay_missed_events sid d)"
proof (cases "sessions d sid")
  case None
  then show ?thesis using assms(1) by (simp add: replay_missed_events_def)
next
  case (Some s)
  then have s: "ses d sid = s" by (simp add: ses_def)
  obtain es last where es: "outbox (replay_missed_events sid d) = outbox d @ es"
    "set es \<subseteq> (\<lambda>e. (ses_socket_id s, ev_envelope e)) ` set (missed_events last (ses_seat_idx s) (event_log (rm d)))"
    using replay_outbox[OF Some] by blast
  obtain fs where fs: "outbox d = outbox c @ fs"
    "\<And>to env j. (to, env) \<in> set fs \<Longrightarrow> cards_of (snd env) = Some j \<Longrightarrow> seat_socket_id (seat_at (rm d) j) = to"
    using discreetE[OF assms(1)] by blast
  have new: "seat_socket_id (seat_at (rm d) j) = to" if mem: "(to, env) \<in> set es" and cards: "cards_of (snd env) = Some j" for to env j
  proof -
    obtain e where e: "e \<in> set (event_log (rm d))" "env = ev_envelope e" "to = ses_socket_id s"
        "\<not> (ev_seat_idx e \<ge> 0 \<and> ev_seat_idx e \<noteq> ses_seat_idx s)"
      using es(2) mem unfolding missed_events_def by fastforce
    have "ev_seat_idx e = j \<and> 0 \<le> j"
      by (rule log_privateD[OF assms(3) e(1)]) (use cards e(2) in simp)
    with e(4) have "j = ses_seat_idx s" by simp
    with assms(2) e(3) show ?thesis by (simp add: holds_seat_def s)
  qed
  have "evolves True False d (replay_missed_events sid d)" by (intro evolving evolves.start)
  from evolves_seats[OF this] have "seat_at (rm (replay_missed_events sid d)) j = seat_at (rm d) j" for j
    by (simp add: seat_at_def)
  with es(1) fs new show ?thesis by (intro discreetI[where es = "fs @ es"]) auto
qed

lemma started_frame [simp]:
  "started (rm (emit_room_event n m c)) = started (rm c)" "started (rm (broadcast_room c)) = started (rm c)"
  by (simp_all add: rm_emit_room_event logged_def append_room_event_def Let_def broadcast_room_def
      touch_room_snapshot_def fold_frame[of rm])

lemma discreet_admit:
  assumes "started (rm c) \<Longrightarrow> holds_seat sid c" and "log_private (rm c)"
  shows "discreet c (admit sid c)"
proof -
  define f where "f r = r\<lparr>status := (if started r then ''playing'' else ''waiting''),
      host_socket_id := (if host_socket_id r = [] \<or> \<not> is_online (active_clients c) (host_socket_id r)
                         then ses_socket_id (ses c sid) else host_socket_id r),
      socket_ids := insert (ses_socket_id (ses c sid)) (socket_ids r), empty_since := None\<rparr>" for r :: Room
  define c1 where "c1 = send_event sid ''user_profile'' (UserProfile (profile_msg (ses_profile (ses (on_room f c) sid)))) (on_room f c)"
  define b where "b = (started (rm c1) \<and> \<not> closing (rm c1) \<and> ses_seat_idx (ses c1 sid) \<ge> 0)"
  define c2 where "c2 = send_full_state_sync (ses c1 sid) b c1"
  define c3 where "c3 = broadcast_game (broadcast_room c2)"
  define c4 where "c4 = replay_missed_events sid c3"
  have f: "same_log q r (f r)" for q r by (simp add: f_def)
  have ev1: "evolves True True c c1" unfolding c1_def by (intro evolving evolves.start f) simp
  have st1: "started (rm c1) = started (rm c)" by (simp add: c1_def f_def)
  have own1: "holds_seat sid c1 = holds_seat sid c"
    by (rule holds_seat_step[OF ev1]) (simp_all add: c1_def)
  have d2: "discreet c c2" unfolding c2_def
    by (rule discreet_sync[OF discreet_mute[OF ev1]]) (simp add: b_def st1 own1 assms(1))
  have ev2: "evolves True False c c2"
    unfolding c2_def by (intro evolving) (simp_all add: c1_def, intro evolving evolves.start f, simp)
  have d3: "discreet c c3"
    unfolding c3_def by (rule discreet_then[OF d2]) (intro evolving evolves.start)
  have ev3: "evolves True False c c3" unfolding c3_def by (intro evolving ev2)
  have own3: "holds_seat sid c3 = holds_seat sid c"
    by (simp add: c3_def c2_def own1)
  have st3: "started (rm c3) = started (rm c)"
    using st1 by (simp add: c3_def c2_def broadcast_game_def)
  have priv3: "log_private (rm c3)" by (rule evolves_log_private[OF ev3 assms(2)])
  have d4: "started (rm c) \<Longrightarrow> discreet c c4"
    unfolding c4_def by (rule discreet_replay[OF d3 _ priv3]) (simp add: own3 assms(1))
  have d5: "discreet c c4 \<Longrightarrow> discreet c (request_turn c4)"
    by (erule discreet_then) (intro evolving evolves.start)
  have "admit sid c = (if started (rm c3) \<and> \<not> closing (rm c3) \<and> ses_seat_idx (ses c3 sid) \<ge> 0 then
      (if round_phase_from_string (round_name (rm c4)) \<noteq> HandOver then request_turn c4 else c4) else c3)"
    unfolding admit_def Let_def c4_def c3_def c2_def b_def c1_def f_def by (rule refl)
  then show ?thesis using d3 d4 d5 st3 by auto
qed

text \<open>Whoever takes a seat over holds it from then on.\<close>

lemma seat_at_set: "0 \<le> i \<Longrightarrow> i < int (length (seats r)) \<Longrightarrow> seat_at (set_seat i s r) i = s"
  by (simp add: seat_at_def set_seat_def)

lemma seats_set [simp]: "length (seats (set_seat i s r)) = length (seats r)"
  by (simp add: set_seat_def)

lemma ses_write [simp]: "ses (write_session sid f c) sid = f (ses c sid)"
  by (simp add: ses_def write_session_def)

lemma ses_others [simp]:
  "ses (with_gameplay_session g u f c) sid = ses c sid" "ses (cancel_ai_takeover i d) sid = ses d sid"
  by (simp_all add: ses_def cancel_ai_takeover_def Let_def)

lemma write_session_rm [simp]: "rm (write_session sid f c) = rm c"
  by (simp add: write_session_def)

lemma keep_socket:
  assumes "0 \<le> i" "i < int (length (seats (rm c)))"
  shows "seat_socket_id (seat_at (rm (link_gameplay i sid c)) i) = seat_socket_id (seat_at (rm c) i)"
    "seat_socket_id (seat_at (rm (cancel_ai_takeover i c)) i) = seat_socket_id (seat_at (rm c) i)"
    "length (seats (rm (link_gameplay i sid c))) = length (seats (rm c))"
    "length (seats (rm (cancel_ai_takeover i c))) = length (seats (rm c))"
    "ses_socket_id (ses (link_gameplay i sid c) sid) = ses_socket_id (ses c sid)"
  using assms
  by (simp_all add: link_gameplay_def cancel_ai_takeover_def Let_def seat_at_set)
    (simp_all add: seat_at_def set_seat_def)

lemma holds_reconnect:
  assumes "ses_socket_id (ses c sid) = sid" and "0 \<le> i" "i < int (length (seats (rm c)))"
  shows "holds_seat sid (reconnect_to_seat i key sid c)"
  using assms
  by (simp add: reconnect_to_seat_def Let_def holds_seat_def keep_socket seat_at_set)

lemma discreet_reclaim:
  assumes "ses_socket_id (ses c sid) = sid" and "0 \<le> i" "i < int (length (seats (rm c)))"
    and "log_private (rm c)"
  shows "discreet c (reclaim_seat i sid c)"
proof -
  define c1 where "c1 = write_session sid (\<lambda>s. s\<lparr>ses_seat_idx := i\<rparr>) (cancel_ai_takeover i
    (on_room (\<lambda>r. set_seat i ((seat_at r i)\<lparr>seat_disconnected_at := 0\<rparr>) r) (link_gameplay i sid
      (on_room (\<lambda>r. set_seat i ((seat_at r i)\<lparr>seat_socket_id := ses_socket_id (ses c sid),
          seat_user_id := ud_user_id (ses_profile (ses c sid))\<rparr>) r) c))))"
  define c2 where "c2 = send_event sid ''seat_session'' (seat_session_msg i (ses c1 sid) (rm c1)) c1"
  define c3 where "c3 = (if ses_gameplay_session_id (ses c2 sid) = [] then c2
    else with_gameplay_session (ses_gameplay_session_id (ses c2 sid)) (ses_user_id (ses c2 sid))
      (reconnected_gameplay (room_id (rm c2)) i (seat_reconnect_token (seat_at (rm c2) i))) c2)"
  define c4 where "c4 = broadcast_game (broadcast_room (send_full_state_sync (ses c3 sid) True c3))"
  have own1: "holds_seat sid c1"
    using assms by (simp add: c1_def holds_seat_def keep_socket seat_at_set)
  have ev1: "evolves False True c c1" unfolding c1_def by (intro evolving evolves.start) simp_all
  have ev3: "evolves True True c1 c3"
    unfolding c3_def c2_def by (intro evolving evolves.start) (simp_all add: seat_session_msg_def)
  have own3: "holds_seat sid c3"
    using holds_seat_step[OF ev3, of sid] own1 by (simp add: c3_def c2_def)
  have "discreet c1 (send_full_state_sync (ses c3 sid) True c3)"
    by (rule discreet_sync[OF discreet_mute[OF ev3]]) (rule own3)
  then have "discreet c1 c4"
    unfolding c4_def by (rule discreet_then) (intro evolving evolves.start)
  moreover have "holds_seat sid c4" using own3 by (simp add: c4_def)
  moreover have "evolves False False c c4"
    unfolding c4_def c3_def c2_def c1_def by (intro evolving evolves.start) simp_all
  ultimately have "discreet c1 (replay_missed_events sid c4)"
    using discreet_replay evolves_log_private assms(4) by blast
  moreover have "reclaim_seat i sid c = replay_missed_events sid c4"
    unfolding reclaim_seat_def Let_def c4_def c3_def c2_def c1_def by simp
  ultimately show ?thesis using discreet_after[OF ev1] by simp
qed


subsection \<open>Every request\<close>

lemma evolves_weaken: "evolves True mute c d \<Longrightarrow> evolves False mute c d"
  by (induction rule: evolves.induct) (auto intro: evolves.intros simp: same_log_def)

lemma ses_filed: "sessions_filed c \<Longrightarrow> ses_socket_id (ses c sid) = sid"
  using sessions_filedD[of c sid] by (simp add: ses_def new_session_def split: option.split)

lemma discreet_join:
  assumes "sessions_filed c" and "log_private (rm c)" and "length (seats (rm c)) = 10"
  shows "discreet c (handle_join_room key jr sid c)"
proof -
  define c0 where "c0 = on_room (\<lambda>r. r\<lparr>last_active_at := now c\<rparr>) c"
  define c1 where "c1 = enter_room jr key sid c0"
  have ev0: "evolves True True c c0" unfolding c0_def by (intro evolving evolves.start) simp
  have ev1: "evolves True True c c1" unfolding c1_def by (intro evolving ev0)
  have seats1: "seats (rm c1) = seats (rm c)" by (rule evolves_seats[OF ev1])
  have refuse: "evolves True True c d \<Longrightarrow> discreet c (send_error sid t d)" for t d
    by (rule discreet_mute[of True]) (intro evolving)
  have rejoin: "discreet c (admit sid (reconnect_to_seat i key sid c1))"
    if i: "0 \<le> i" "i < int (length (seats (rm c1)))" for i
  proof -
    have ev2: "evolves False True c (reconnect_to_seat i key sid c1)"
      by (intro evolving evolves_weaken[OF ev1])
    have "holds_seat sid (reconnect_to_seat i key sid c1)"
      by (rule holds_reconnect[OF ses_filed[OF evolves_sessions[OF ev1 assms(1)]] i])
    then have "discreet (reconnect_to_seat i key sid c1) (admit sid (reconnect_to_seat i key sid c1))"
      by (intro discreet_admit evolves_log_private[OF ev2 assms(2)])
    then show ?thesis by (rule discreet_after[OF ev2])
  qed
  have enter: "discreet c (admit sid c1)" if "\<not> started (rm c1)"
    by (rule discreet_after[OF ev1 discreet_admit]) (use that evolves_log_private[OF ev1 assms(2)] in simp_all)
  have found: "0 \<le> i \<and> i < int (length (seats (rm c1)))" if "reconnect_seat (rm c1) s t = Some i" for s t i
    using that assms(3) seats1
    by (auto simp: reconnect_seat_def player_seat_def find_Some_iff seat_indices_def split: option.splits if_splits)
  show ?thesis
    using rejoin enter found refuse ev0 ev1
    unfolding handle_join_room_def Let_def c0_def[symmetric] c1_def[symmetric]
    by (auto split: option.split)
qed

lemma discreet_take_seat:
  assumes "sessions_filed c" and "log_private (rm c)" and "length (seats (rm c)) = 10"
  shows "discreet c (handle_take_seat t1 t2 i tok sid c)"
proof -
  note ev = evolves.start[of False True c]
  have refuse: "discreet c (send_error sid t c)" for t
    by (rule discreet_mute[of False]) (intro evolving ev)
  have sit: "discreet c (sit_down t1 t2 i sid c)"
    by (rule discreet_mute[of False]) (intro evolving ev)
  have reclaim: "0 \<le> i \<Longrightarrow> i < kSeats \<Longrightarrow> discreet c (reclaim_seat i sid c)"
    using assms(3) by (intro discreet_reclaim ses_filed assms) (simp_all add: kSeats_def)
  show ?thesis using refuse sit reclaim by (simp add: handle_take_seat_def)
qed


lemma discreet_start_game:
  assumes "handle_start_game shuf sg sid c = Inr d"
  shows "discreet c d"
proof -
  let ?c = "broadcast_room (on_room (\<lambda>r. open_match sg (r\<lparr>started := True, status := ''playing''\<rparr>)) c)"
  have "evolves True True c (send_error sid t c)" for t by (intro evolving evolves.start)
  moreover have "evolves True True c ?c" by (intro evolving evolves.start) simp
  ultimately show ?thesis
    using assms discreet_start_hand[of shuf ?c d] discreet_after[of True c ?c d]
    by (auto simp: handle_start_game_def Let_def intro: discreet_mute split: if_splits)
qed

lemma discreet_next_hand:
  assumes "handle_next_hand shuf sid c = Inr d"
  shows "discreet c d"
proof -
  let ?c = "broadcast_room (prune_departed_seats (on_room (\<lambda>r. r\<lparr>dealer_seat_idx := (dealer_seat_idx r + 1) mod kSeats\<rparr>) c))"
  have "evolves True True c (emit_match_over t c)" for t by (intro evolving evolves.start)
  moreover have "evolves False True c ?c" by (intro evolving evolves.start) simp
  ultimately show ?thesis
    using assms discreet_start_hand[of shuf ?c d] discreet_after[of False c ?c d]
    by (auto simp: handle_next_hand_def Let_def intro: discreet_mute split: if_splits)
qed

lemma discreet_request:
  assumes "handle_request ch req sid c = Inr res"
    and "sessions_filed c" and "log_private (rm c)" and "length (seats (rm c)) = 10"
  shows "discreet c (snd res)"
proof -
  note ev = evolves.start[of False True c]
  have keep: "(\<And>d. x = Inr d \<Longrightarrow> discreet c d) \<Longrightarrow> map_sum id (Pair False) x = Inr res \<Longrightarrow> discreet c (snd res)" for x
    by (cases x) auto
  have mute: "evolves_res False True c x \<Longrightarrow> x = Inr d \<Longrightarrow> discreet c d" for x d
    by (auto simp: evolves_res_def intro: discreet_mute)
  show ?thesis
  proof (cases req)
    case (StartGame sg)
    then show ?thesis using assms(1) by (auto simp: handle_request_def Let_def intro: keep discreet_start_game)
  next
    case NextHand
    then show ?thesis using assms(1) by (auto simp: handle_request_def Let_def intro: keep discreet_next_hand)
  next
    case (JoinRoom jr)
    then show ?thesis using assms(1) discreet_join[OF assms(2-4)] by (auto simp: handle_request_def)
  next
    case (TakeSeat i tok)
    then show ?thesis using assms(1) discreet_take_seat[OF assms(2-4)] by (auto simp: handle_request_def)
  next
    case AckMatchOver
    then show ?thesis using assms(1) evolves_ack[OF ev] by (auto simp: handle_request_def intro: discreet_mute)
  next
    case (Act act)
    then have "map_sum id (Pair False) (handle_player_action act sid c) = Inr res"
      using assms(1) by (simp add: handle_request_def Let_def)
    then show ?thesis by (rule keep[rotated]) (rule mute[OF evolves_player_action[OF ev]])
  next
    case (Rebuy n)
    then have "map_sum id (Pair False) (handle_rebuy n sid c) = Inr res"
      using assms(1) by (simp add: handle_request_def Let_def)
    then show ?thesis by (rule keep[rotated]) (rule mute[OF evolves_rebuy(1)[OF ev]])
  next
    case (RebuyApprove i n)
    then have "map_sum id (Pair False) (handle_rebuy_approve i n sid c) = Inr res"
      using assms(1) by (simp add: handle_request_def Let_def)
    then show ?thesis by (rule keep[rotated]) (rule mute[OF evolves_rebuy(2)[OF ev]])
  next
    case (RebuyDeny i)
    then have "map_sum id (Pair False) (handle_rebuy_deny i sid c) = Inr res"
      using assms(1) by (simp add: handle_request_def Let_def)
    then show ?thesis by (rule keep[rotated]) (rule mute[OF evolves_rebuy(3)[OF ev]])
  qed (use assms(1) in \<open>auto simp: handle_request_def intro!: discreet_mute[of False] evolving ev\<close>)
qed


text \<open>A request that makes its room go away shows nobody's cards.\<close>

lemma closing_request_mute:
  assumes "handle_request ch req sid c = Inr (True, d)"
  shows "evolves False True c d"
  using assms evolves_ack[OF evolves.start, of False True c sid]
  by (cases req) (auto simp: handle_request_def Let_def map_sum_def split: sum.splits)


definition demo_join :: request where
  "demo_join = JoinRoom \<lparr>jr_room_id = ''aaaaaa'', jr_name = [], jr_client_id = [],
     jr_reconnect_token = [], jr_session_id = []\<rparr>"

definition demo_guest_world :: World where
  "demo_guest_world = client_register ((new_session ''a'')\<lparr>ses_authenticated := True\<rparr>) first_room_world"

lemma demo_guest_reachable: "reachable demo_guest_world"
  unfolding demo_guest_world_def by (rule run[OF first_room_world_reachable step.register])

lemma demo_guest_joins: "\<exists>w'. on_ws_message ch demo_join ''a'' demo_guest_world = Inr w'"
  by (simp add: on_ws_message_def demo_join_def handle_request_def Let_def split: option.split)


text \<open>
  C18. The state of the table a client sees does not depend on anybody's hole cards, nor on the deck:
  whatever hands are written into the players and whatever deck is left, \<open>build_game_state\<close> and
  \<open>build_room_state\<close> give the same message.
\<close>

theorem table_state_hides_cards:
  "let r' = r\<lparr>deck := cs, players := smap_each (\<lambda>i p. p\<lparr>hand := h i\<rparr>) (players r)\<rparr>
   in build_game_state r' = build_game_state r \<and> (\<forall>sid. build_room_state r' sid = build_room_state r sid)"
proof -
  let ?r = "r\<lparr>deck := cs, players := smap_each (\<lambda>i p. p\<lparr>hand := h i\<rparr>) (players r)\<rparr>"
  have reads: "seat_at ?r i = seat_at r i" "seats ?r = seats r" for i by (simp_all add: seat_at_def)
  have players: "get_player ?r i = map_option (\<lambda>p. p\<lparr>hand := h i\<rparr>) (get_player r i)" for i
    by (simp add: get_player_def smap_get_each)
  have msg: "player_msg ?r i (p\<lparr>hand := h i\<rparr>) = player_msg r i p" for i p
    by (simp add: player_msg_def reads)
  have "build_game_state ?r = build_game_state r"
    by (simp add: build_game_state_def reads players msg option.map_comp comp_def room_settings_def cong: if_cong)
  moreover have "build_room_state ?r sid = build_room_state r sid" for sid
    by (simp add: build_room_state_def reads find_host_seat_idx_def room_settings_def cong: if_cong)
  ultimately show ?thesis by simp
qed

end
