(* ===== verification/Replay.thy ===== *)
theory Replay
  imports Privacy
begin

section \<open>What a returning client is sent again\<close>

text \<open>
  The room numbers its events; a client that comes back is sent the entries of the log it has not seen.
  The lemmas say which ones those are, given the numbering \<open>log_ok\<close> every reachable room has.
\<close>

text \<open>The number up to which the server believes the session to have seen everything.\<close>

definition seen_position :: "string \<Rightarrow> Ctx \<Rightarrow> int" where
  "seen_position sid c =
     (let s = ses c sid in
      if ses_gameplay_session_id s = [] then ses_last_seen_seq s
      else case fst (get_gameplay_session (ses_gameplay_session_id s) c) of
             None \<Rightarrow> ses_last_seen_seq s
           | Some g \<Rightarrow> max (ses_last_seen_seq s) (gp_last_seen_seq g))"

lemma outbox_fold_send_eq:
  "outbox (fold (\<lambda>e. send_envelope sid (ev_envelope e)) ms c) =
     outbox c @ (if gateway_attached c then map (\<lambda>e. (sid, ev_envelope e)) ms else [])"
proof (induction ms arbitrary: c)
  case (Cons e ms)
  then show ?case by (simp add: send_envelope_def)
qed simp

lemma get_gameplay_frame:
  "rm (snd (get_gameplay_session gid c)) = rm c"
  "outbox (snd (get_gameplay_session gid c)) = outbox c"
  "gateway_attached (snd (get_gameplay_session gid c)) = gateway_attached c"
  "sessions (snd (get_gameplay_session gid c)) = sessions c"
  by (simp_all add: get_gameplay_session_def split: option.split)

lemma outbox_replay:
  assumes "sessions c sid = Some s"
  shows "outbox (replay_missed_events sid c) = outbox c @
    (if gateway_attached c
     then map (\<lambda>e. (ses_socket_id s, ev_envelope e))
            (missed_events (seen_position sid c) (ses_seat_idx s) (event_log (rm c)))
     else [])"
proof -
  have s: "ses c sid = s" using assms by (simp add: ses_def)
  let ?gid = "ses_gameplay_session_id s"
  obtain g d where g: "get_gameplay_session ?gid c = (g, d)" by fastforce
  have d: "rm d = rm c" "outbox d = outbox c" "gateway_attached d = gateway_attached c"
    using get_gameplay_frame[of ?gid c] g by simp_all
  show ?thesis
    by (cases "?gid = []"; cases g)
      (simp_all add: replay_missed_events_def assms Let_def seen_position_def s g d outbox_fold_send_eq)
qed

lemma log_ok_seq:
  assumes "log_ok r" and "e \<in> set (event_log r)"
  shows "ev_seq e \<le> event_seq r" "event_seq r - int (length (event_log r)) < ev_seq e"
  using assms by (auto simp: log_ok_def in_set_conv_nth)

lemma log_ok_distinct:
  assumes "log_ok r"
  shows "sorted_wrt (\<lambda>e e'. ev_seq e < ev_seq e') (event_log r)"
  using assms by (simp add: log_ok_def sorted_wrt_iff_nth_less)

lemma log_ok_entry:
  assumes "log_ok r" and "event_seq r - int (length (event_log r)) < n" "n \<le> event_seq r"
  shows "\<exists>e\<in>set (event_log r). ev_seq e = n"
proof -
  define k where "k = nat (n - 1 - (event_seq r - int (length (event_log r))))"
  have "k < length (event_log r)" "event_seq r - int (length (event_log r)) + int k + 1 = n"
    using assms(2,3) by (auto simp: k_def)
  then show ?thesis using assms(1) by (intro bexI[of _ "event_log r ! k"]) (simp_all add: log_ok_def)
qed


definition demo_replay_ctx :: Ctx where
  "demo_replay_ctx =
     on_room (\<lambda>r. append_room_event 5 (''b'', PlayerAction 2 ''FOLD'') 2
       (append_room_event 5 (''a'', TextMessage ''x'') (-1) r))
       (open_room ((initial_world 5 False Map.empty)
          \<lparr>gateway_attached := True, sessions := [''s'' \<mapsto> new_session ''s'']\<rparr>) (default_room 5))"


text \<open>A mark never moves a session back, and moves the marked one up to the number.\<close>

lemma seen_mark:
  "ses_last_seen_seq (ses c sid) \<le> ses_last_seen_seq (ses (mark_last_seen_for_socket k n c) sid)"
  "sessions c sid \<noteq> None \<Longrightarrow> n \<le> ses_last_seen_seq (ses (mark_last_seen_for_socket sid n c) sid)"
  "sessions (mark_last_seen_for_socket k n c) sid = None \<longleftrightarrow> sessions c sid = None"
  by (auto simp: mark_last_seen_for_socket_def ses_def Let_def split: option.split)

lemma seen_fold:
  assumes "sessions c sid \<noteq> None"
  shows "ses_last_seen_seq (ses c sid)
       \<le> ses_last_seen_seq (ses (fold (\<lambda>k c. mark_last_seen_for_socket k n (send_envelope k env c)) ks c) sid)"
    and "sid \<in> set ks \<Longrightarrow>
      n \<le> ses_last_seen_seq (ses (fold (\<lambda>k c. mark_last_seen_for_socket k n (send_envelope k env c)) ks c) sid)"
proof -
  let ?g = "\<lambda>k c. mark_last_seen_for_socket k n (send_envelope k env c)"
  have up: "sessions d sid \<noteq> None \<Longrightarrow> ses_last_seen_seq (ses d sid) \<le> ses_last_seen_seq (ses (fold ?g ks d) sid)"
    for d :: "'a Server_scheme" and ks
  proof (induction ks arbitrary: d)
    case (Cons k ks)
    have "ses_last_seen_seq (ses d sid) \<le> ses_last_seen_seq (ses (?g k d) sid)"
      using seen_mark(1)[of "send_envelope k env d" sid k n] by (simp add: ses_def)
    also have "\<dots> \<le> ses_last_seen_seq (ses (fold ?g ks (?g k d)) sid)"
      using Cons.prems by (intro Cons.IH) (simp add: seen_mark(3))
    finally show ?case by simp
  qed simp
  then show "ses_last_seen_seq (ses c sid) \<le> ses_last_seen_seq (ses (fold ?g ks c) sid)"
    using assms by blast
  show "sid \<in> set ks \<Longrightarrow> n \<le> ses_last_seen_seq (ses (fold ?g ks c) sid)"
    using assms
  proof (induction ks arbitrary: c)
    case (Cons k ks)
    have here: "sessions (?g k c) sid \<noteq> None" using Cons.prems(2) by (simp add: seen_mark(3))
    show ?case
    proof (cases "k = sid")
      case True
      have "n \<le> ses_last_seen_seq (ses (?g k c) sid)"
        using seen_mark(2)[of "send_envelope k env c" sid n] Cons.prems(2) True by simp
      also have "\<dots> \<le> ses_last_seen_seq (ses (fold ?g ks (?g k c)) sid)" by (rule up[OF here])
      finally show ?thesis by simp
    qed (use Cons.IH[OF _ here] Cons.prems(1) in simp)
  qed simp
qed

lemma emit_marks:
  assumes "finite (socket_ids (rm c))" and "sid \<in> socket_ids (rm c)" and "sessions c sid = Some s"
  shows "event_seq (rm (emit_room_event n m c)) \<le> ses_last_seen_seq (ses (emit_room_event n m c) sid)"
proof -
  let ?d = "on_room (append_room_event (now c) (n, m) (-1)) c"
  have sock: "sid \<in> set (room_sockets (rm ?d))"
    using assms(1,2) by (simp add: room_sockets_def append_room_event_def Let_def)
  have "sessions ?d sid \<noteq> None" using assms(3) by simp
  from seen_fold(2)[OF this sock, of "event_seq (rm ?d)" "(n, m)"]
  show ?thesis by (simp add: emit_room_event_def Let_def touch_room_snapshot_def fold_frame ses_def)
qed


definition demo_missed_ctx :: Ctx where
  "demo_missed_ctx = on_room (\<lambda>r. r\<lparr>socket_ids := {''s''}\<rparr>) demo_replay_ctx"


end
