(* ===== verification/Stores.thy ===== *)
theory Stores
  imports Complex_Main Match_End Text_Utils
begin

section \<open>The in-memory stores (main.cpp)\<close>

text \<open>
  Accounts, players' profiles and the leaderboard, in the implementations that are used when neither
  MySQL nor Redis is compiled in. \<open>account_store\<close> is the contract of the class \<open>AuthStore\<close>, \<open>profile_store\<close>
  that of \<open>UserStore\<close>; the interpretations show that the memory stores keep them.
\<close>

subsection \<open>Accounts\<close>

record Account =
  ac_user_id :: int
  ac_username :: string
  ac_password_hash :: string
  ac_created_at :: int
  ac_last_login_at :: int

record AccountTable =
  accounts_by_username :: "string \<rightharpoonup> Account"
  usernames_by_user_id :: "int \<rightharpoonup> string"

definition no_accounts :: AccountTable where
  "no_accounts = \<lparr>accounts_by_username = Map.empty, usernames_by_user_id = Map.empty\<rparr>"

text \<open>\<open>Inl\<close> is the message left in \<open>error\<close>.\<close>

definition register_account ::
  "int \<Rightarrow> int \<Rightarrow> string \<Rightarrow> string \<Rightarrow> AccountTable \<Rightarrow> (string + Account) \<times> AccountTable" where
  "register_account t uid name hash s =
     (if accounts_by_username s name \<noteq> None then (Inl ''Username already exists.'', s)
      else
        let a = \<lparr>ac_user_id = uid, ac_username = name, ac_password_hash = hash, ac_created_at = t,
                 ac_last_login_at = t\<rparr>
        in (Inr a, s\<lparr>accounts_by_username := (accounts_by_username s)(name \<mapsto> a),
                     usernames_by_user_id := (usernames_by_user_id s)(uid \<mapsto> name)\<rparr>))"

definition find_by_username :: "string \<Rightarrow> AccountTable \<Rightarrow> Account option" where
  "find_by_username name s = accounts_by_username s name"

definition find_by_user_id :: "int \<Rightarrow> AccountTable \<Rightarrow> Account option" where
  "find_by_user_id uid s =
     (case usernames_by_user_id s uid of None \<Rightarrow> None | Some name \<Rightarrow> find_by_username name s)"

definition update_last_login :: "int \<Rightarrow> int \<Rightarrow> AccountTable \<Rightarrow> AccountTable" where
  "update_last_login uid ts s =
     (case usernames_by_user_id s uid of
        None \<Rightarrow> s
      | Some name \<Rightarrow>
          s\<lparr>accounts_by_username := (accounts_by_username s)(name :=
              map_option (\<lambda>a. a\<lparr>ac_last_login_at := ts\<rparr>) (accounts_by_username s name))\<rparr>)"

text \<open>
  The contract of an account store: names are never given twice, an account is found under its name
  and its id from then on, and a login touches nothing but the time of the last login.
\<close>

locale account_store =
  fixes register :: "int \<Rightarrow> int \<Rightarrow> string \<Rightarrow> string \<Rightarrow> 's \<Rightarrow> (string + Account) \<times> 's"
    and by_name :: "string \<Rightarrow> 's \<Rightarrow> Account option"
    and by_id :: "int \<Rightarrow> 's \<Rightarrow> Account option"
    and login :: "int \<Rightarrow> int \<Rightarrow> 's \<Rightarrow> 's"
    and ok :: "'s \<Rightarrow> bool"
  assumes register_taken: "by_name name s \<noteq> None \<Longrightarrow> \<exists>e. register t uid name hash s = (Inl e, s)"
    and register_new: "by_name name s = None \<Longrightarrow>
      \<exists>a s'. register t uid name hash s = (Inr a, s') \<and> ac_username a = name \<and> ac_user_id a = uid \<and>
        ac_password_hash a = hash \<and> by_id uid s' = Some a \<and>
        (\<forall>n. by_name n s' = (if n = name then Some a else by_name n s))"
    and register_ok: "ok s \<Longrightarrow> ok (snd (register t uid name hash s))"
    and by_name_ok: "ok s \<Longrightarrow> by_name name s = Some a \<Longrightarrow> ac_username a = name"
    and login_names: "by_name name (login uid ts s) =
        map_option (\<lambda>a. a\<lparr>ac_last_login_at := (if map_option ac_username (by_id uid s) = Some name \<and> ok s
            then ts else ac_last_login_at a)\<rparr>) (by_name name s) \<or> \<not> ok s"
    and login_ok: "ok s \<Longrightarrow> ok (login uid ts s)"
begin

text \<open>Whatever is registered later, an account stays what it was.\<close>

lemma register_keeps:
  assumes "by_name n s = Some b"
  shows "by_name n (snd (register t uid name hash s)) = Some b"
proof (cases "by_name name s")
  case None
  then obtain a s' where "register t uid name hash s = (Inr a, s')"
      "\<And>n. by_name n s' = (if n = name then Some a else by_name n s)"
    using register_new[of name s t uid hash] by blast
  then show ?thesis using assms None by auto
next
  case (Some a)
  then obtain e where "register t uid name hash s = (Inl e, s)" using register_taken by blast
  then show ?thesis using assms by simp
qed

lemma register_finds:
  assumes "register t uid name hash s = (Inr a, s')"
  shows "by_name name s' = Some a \<and> by_id uid s' = Some a \<and> ac_password_hash a = hash"
proof (cases "by_name name s")
  case None
  then show ?thesis using register_new[of name s t uid hash] assms by auto
next
  case (Some b)
  then show ?thesis using register_taken[of name s t uid hash] assms by auto
qed

end

definition accounts_ok :: "AccountTable \<Rightarrow> bool" where
  "accounts_ok s \<longleftrightarrow> (\<forall>name a. accounts_by_username s name = Some a \<longrightarrow> ac_username a = name)"

lemma accounts_okD: "accounts_ok s \<Longrightarrow> accounts_by_username s name = Some a \<Longrightarrow> ac_username a = name"
  by (simp add: accounts_ok_def)

lemmas account_defs = register_account_def find_by_username_def find_by_user_id_def update_last_login_def Let_def

interpretation accounts: account_store register_account find_by_username find_by_user_id update_last_login accounts_ok
proof
  fix name hash :: string and uid t ts :: int and s a
  show "find_by_username name s \<noteq> None \<Longrightarrow> \<exists>e. register_account t uid name hash s = (Inl e, s)"
    by (simp add: account_defs)
  show "find_by_username name s = None \<Longrightarrow>
      \<exists>a s'. register_account t uid name hash s = (Inr a, s') \<and> ac_username a = name \<and> ac_user_id a = uid \<and>
        ac_password_hash a = hash \<and> find_by_user_id uid s' = Some a \<and>
        (\<forall>n. find_by_username n s' = (if n = name then Some a else find_by_username n s))"
    by (simp add: account_defs)
  show "accounts_ok s \<Longrightarrow> accounts_ok (snd (register_account t uid name hash s))"
    by (simp add: account_defs accounts_ok_def)
  show "accounts_ok s \<Longrightarrow> find_by_username name s = Some a \<Longrightarrow> ac_username a = name"
    by (simp add: account_defs accounts_okD)
  show "accounts_ok s \<Longrightarrow> accounts_ok (update_last_login uid ts s)"
    by (auto simp: account_defs accounts_ok_def split: option.split)
  show "find_by_username name (update_last_login uid ts s) =
        map_option (\<lambda>a. a\<lparr>ac_last_login_at := (if map_option ac_username (find_by_user_id uid s) = Some name \<and>
            accounts_ok s then ts else ac_last_login_at a)\<rparr>) (find_by_username name s) \<or> \<not> accounts_ok s"
  proof (cases "usernames_by_user_id s uid")
    case None
    then show ?thesis by (cases "accounts_by_username s name") (simp_all add: account_defs)
  next
    case (Some n)
    show ?thesis
    proof (cases "accounts_ok s")
      case True
      then show ?thesis
        using Some accounts_okD[OF True, of n]
        by (cases "accounts_by_username s n"; cases "n = name"; cases "accounts_by_username s name")
          (simp_all add: account_defs)
    qed simp
  qed
qed

subsection \<open>Profiles\<close>

record UserTable =
  last_id :: int
  users :: "string \<rightharpoonup> UserProfileData"

definition no_users :: UserTable where
  "no_users = \<lparr>last_id = 0, users = Map.empty\<rparr>"

definition new_user :: "int \<Rightarrow> string \<Rightarrow> string \<Rightarrow> UserProfileData" where
  "new_user uid key name =
     \<lparr>ud_user_id = uid, ud_external_id = key, ud_login_username = key,
      ud_username = (if name = [] then key else name), ud_avatar = [], ud_gold = 10000,
      ud_games_played = 0, ud_games_won = 0\<rparr>"

definition load_or_create :: "string \<Rightarrow> string \<Rightarrow> UserTable \<Rightarrow> UserProfileData \<times> UserTable" where
  "load_or_create external_id name s =
     (let key = (if external_id = [] then name else external_id);
          (u, s) = (case users s key of
                      None \<Rightarrow> (new_user (last_id s + 1) key name, s\<lparr>last_id := last_id s + 1\<rparr>)
                    | Some u \<Rightarrow> (if name \<noteq> [] then u\<lparr>ud_username := name\<rparr> else u, s));
          u = (if ud_login_username u = [] then u\<lparr>ud_login_username := key\<rparr> else u)
      in (u, s\<lparr>users := (users s)(key \<mapsto> u)\<rparr>))"

text \<open>One statistic: played, won, and the gold, which never goes below zero.\<close>

definition settle_user :: "MatchStat \<Rightarrow> UserProfileData \<Rightarrow> UserProfileData" where
  "settle_user stat u =
     u\<lparr>ud_games_played := ud_games_played u + 1,
       ud_games_won := (if ms_winner stat then ud_games_won u + 1 else ud_games_won u),
       ud_gold := max 0 (ud_gold u + ms_gold_delta stat)\<rparr>"

definition record_match :: "MatchStat list \<Rightarrow> UserTable \<Rightarrow> UserTable" where
  "record_match stats s =
     s\<lparr>users := fold (\<lambda>stat us. us(stat_key stat := map_option (settle_user stat) (us (stat_key stat)))) stats (users s)\<rparr>"

text \<open>The contract of a profile store: a profile once created is found again, ids are never reused.\<close>

locale profile_store =
  fixes load :: "string \<Rightarrow> string \<Rightarrow> 's \<Rightarrow> UserProfileData \<times> 's"
    and settle :: "MatchStat list \<Rightarrow> 's \<Rightarrow> 's"
    and lookup :: "'s \<Rightarrow> string \<Rightarrow> UserProfileData option"
    and ok :: "'s \<Rightarrow> bool"
  assumes load_stores: "ext \<noteq> [] \<Longrightarrow> lookup (snd (load ext name s)) ext = Some (fst (load ext name s))"
    and load_others: "ext \<noteq> [] \<Longrightarrow> key \<noteq> ext \<Longrightarrow> lookup (snd (load ext name s)) key = lookup s key"
    and load_same_id: "lookup s ext = Some u \<Longrightarrow> ext \<noteq> [] \<Longrightarrow> ud_user_id (fst (load ext name s)) = ud_user_id u"
    and load_fresh_id: "ok s \<Longrightarrow> lookup s ext = None \<Longrightarrow> ext \<noteq> [] \<Longrightarrow> lookup s key = Some u \<Longrightarrow>
        ud_user_id u \<noteq> ud_user_id (fst (load ext name s))"
    and load_ok: "ok s \<Longrightarrow> ok (snd (load ext name s))"
    and settle_id: "map_option ud_user_id (lookup (settle stats s) key) = map_option ud_user_id (lookup s key)"
    and settle_ok: "ok s \<Longrightarrow> ok (settle stats s)"
begin

text \<open>Two keys never share an id, whatever is loaded and settled.\<close>

definition ids_distinct :: "'s \<Rightarrow> bool" where
  "ids_distinct s \<longleftrightarrow> (\<forall>k k' u u'. lookup s k = Some u \<longrightarrow> lookup s k' = Some u' \<longrightarrow>
     ud_user_id u = ud_user_id u' \<longrightarrow> k = k')"

lemma ids_distinct_load:
  assumes "ok s" "ids_distinct s" "ext \<noteq> []"
  shows "ids_distinct (snd (load ext name s))"
proof -
  have id: "ud_user_id u \<noteq> ud_user_id (fst (load ext name s))"
    if "lookup s k = Some u" "k \<noteq> ext" for k u
  proof (cases "lookup s ext")
    case None
    then show ?thesis using load_fresh_id[OF assms(1) None assms(3) that(1)] by simp
  next
    case (Some u')
    then show ?thesis
      using load_same_id[OF Some assms(3)] assms(2) that Some unfolding ids_distinct_def by metis
  qed
  have "k = k'" if "lookup (snd (load ext name s)) k = Some u" "lookup (snd (load ext name s)) k' = Some u'"
    "ud_user_id u = ud_user_id u'" for k k' u u'
    using that id load_stores[OF assms(3), of name s] load_others[OF assms(3), of _ name s] assms(2)
    unfolding ids_distinct_def by (metis option.inject)
  then show ?thesis unfolding ids_distinct_def by blast
qed

lemma ids_distinct_settle: "ids_distinct s \<Longrightarrow> ids_distinct (settle stats s)"
proof -
  assume ids: "ids_distinct s"
  have from_s: "\<exists>v. lookup s k = Some v \<and> ud_user_id v = ud_user_id u" if u: "lookup (settle stats s) k = Some u" for k u
    using settle_id[of stats s k] u by (cases "lookup s k") auto
  have "k = k'" if "lookup (settle stats s) k = Some u" "lookup (settle stats s) k' = Some u'"
    "ud_user_id u = ud_user_id u'" for k k' u u'
    using from_s[OF that(1)] from_s[OF that(2)] that(3) ids unfolding ids_distinct_def by metis
  then show ?thesis unfolding ids_distinct_def by blast
qed

end

definition users_ok :: "UserTable \<Rightarrow> bool" where
  "users_ok s \<longleftrightarrow> (\<forall>key u. users s key = Some u \<longrightarrow> ud_user_id u \<le> last_id s)"

lemma settle_fold_id:
  "map_option ud_user_id (fold (\<lambda>stat us. us(stat_key stat := map_option (settle_user stat) (us (stat_key stat)))) stats us key) =
   map_option ud_user_id (us key)"
  by (induction stats arbitrary: us) (auto simp: settle_user_def option.map_comp comp_def split: option.split)

lemma users_ok_settle: "users_ok s \<Longrightarrow> users_ok (record_match stats s)"
proof -
  assume ok: "users_ok s"
  have "ud_user_id u \<le> last_id s" if u: "users (record_match stats s) key = Some u" for key u
  proof -
    obtain v where "users s key = Some v" "ud_user_id v = ud_user_id u"
      using settle_fold_id[of stats "users s" key] u by (cases "users s key") (auto simp: record_match_def)
    with ok show ?thesis unfolding users_ok_def by metis
  qed
  then show ?thesis by (simp add: users_ok_def record_match_def)
qed

lemma load_cases:
  obtains (new) u where "users s (if ext = [] then name else ext) = None" "ud_user_id u = last_id s + 1"
      "load_or_create ext name s =
         (u, s\<lparr>last_id := last_id s + 1, users := (users s)((if ext = [] then name else ext) \<mapsto> u)\<rparr>)"
  | (old) u v where "users s (if ext = [] then name else ext) = Some v" "ud_user_id u = ud_user_id v"
      "load_or_create ext name s = (u, s\<lparr>users := (users s)((if ext = [] then name else ext) \<mapsto> u)\<rparr>)"
proof (cases "users s (if ext = [] then name else ext)")
  case None
  then show ?thesis using new by (simp add: load_or_create_def Let_def new_user_def)
next
  case (Some v)
  then show ?thesis using old[OF Some] by (simp add: load_or_create_def Let_def)
qed

interpretation profiles: profile_store load_or_create record_match users users_ok
proof
  fix ext name key :: string and s u
  show "ext \<noteq> [] \<Longrightarrow> users (snd (load_or_create ext name s)) ext = Some (fst (load_or_create ext name s))"
    by (cases rule: load_cases[of s ext name]) simp_all
  show "ext \<noteq> [] \<Longrightarrow> key \<noteq> ext \<Longrightarrow> users (snd (load_or_create ext name s)) key = users s key"
    by (cases rule: load_cases[of s ext name]) simp_all
  show "users s ext = Some u \<Longrightarrow> ext \<noteq> [] \<Longrightarrow> ud_user_id (fst (load_or_create ext name s)) = ud_user_id u"
    by (cases rule: load_cases[of s ext name]) simp_all
  show "users_ok s \<Longrightarrow> users s ext = None \<Longrightarrow> ext \<noteq> [] \<Longrightarrow> users s key = Some u \<Longrightarrow>
      ud_user_id u \<noteq> ud_user_id (fst (load_or_create ext name s))"
    by (cases rule: load_cases[of s ext name]) (auto simp: users_ok_def dest!: spec)
  show "users_ok s \<Longrightarrow> users_ok (snd (load_or_create ext name s))"
  proof (cases rule: load_cases[of s ext name])
    case (new u)
    assume "users_ok s"
    then show ?thesis using new(2) unfolding new(3) by (auto simp: users_ok_def intro: order_trans[of _ "last_id s"])
  next
    case (old u v)
    assume "users_ok s"
    then show ?thesis using old(1,2) unfolding old(3) by (auto simp: users_ok_def)
  qed
qed (simp_all add: record_match_def settle_fold_id users_ok_settle[unfolded record_match_def])

subsection \<open>The leaderboard\<close>

record LeaderRow =
  lr_username :: string
  lr_gold :: int
  lr_win_rate :: rat
  lr_weekly :: int

text \<open>A quotient of two small integers; the program rounds it to a \<open>double\<close>.\<close>

definition win_rate :: "UserProfileData \<Rightarrow> rat" where
  "win_rate u = (if ud_games_played u > 0 then of_int (ud_games_won u) / of_int (ud_games_played u) else 0)"

definition rank_user :: "(string \<rightharpoonup> UserProfileData) \<Rightarrow> MatchStat \<Rightarrow> (string \<rightharpoonup> LeaderRow) \<Rightarrow> (string \<rightharpoonup> LeaderRow)" where
  "rank_user us stat rows =
     (case us (stat_key stat) of
        None \<Rightarrow> rows
      | Some u \<Rightarrow>
          rows(stat_key stat \<mapsto>
            \<lparr>lr_username = ud_username u, lr_gold = ud_gold u, lr_win_rate = win_rate u,
             lr_weekly = (case rows (stat_key stat) of None \<Rightarrow> 0 | Some row \<Rightarrow> lr_weekly row) +
               (if ms_winner stat then 3 else 1)\<rparr>))"

definition update_leaderboard ::
  "MatchStat list \<Rightarrow> (string \<rightharpoonup> UserProfileData) \<Rightarrow> (string \<rightharpoonup> LeaderRow) \<Rightarrow> (string \<rightharpoonup> LeaderRow)" where
  "update_leaderboard stats us rows = fold (rank_user us) stats rows"

text \<open>
  The rows in the order of the hash map (\<open>keys\<close>), sorted, at most \<open>limit\<close> of them. \<open>std::sort\<close> may
  order equal rows either way: it is some order of the keys.
\<close>

definition leader_rows :: "string list \<Rightarrow> string \<Rightarrow> int \<Rightarrow> (string \<rightharpoonup> LeaderRow) \<Rightarrow> LeaderRow list" where
  "leader_rows keys type limit rows =
     (let rs = List.map_filter rows keys;
          rs = (if type = ''winrate'' then sort_key (\<lambda>r. - lr_win_rate r) rs
                else if type = ''weekly'' then sort_key (\<lambda>r. - lr_weekly r) rs
                else sort_key (\<lambda>r. - lr_gold r) rs)
      in if limit > 0 \<and> int (length rs) > limit then take (nat limit) rs else rs)"

end
