(* ===== verification/Engine_Api.thy ===== *)
theory Engine_Api
  imports Json Hand_Flow Accounting
begin

section \<open>The engine's HTTP endpoints (main.cpp)\<close>

text \<open>
  \<open>/api/engine/best-hand\<close> and \<open>/api/engine/showdown\<close> evaluate hands a client describes in JSON. \<open>None\<close> is
  an exception of the JSON library, which the handler answers with "Bad JSON".
\<close>

text \<open>The inner option is the \<open>std::optional\<close> of the code.\<close>

definition api_card_from_json :: "json \<Rightarrow> Card option option" where
  "api_card_from_json j =
     (if \<not> is_object j then Some None
      else do {
        s \<leftarrow> jvalue get_string ''s'' [] j; r \<leftarrow> jvalue get_string ''r'' [] j; v \<leftarrow> jvalue get_int ''v'' 0 j;
        Some (if s = [] \<or> r = [] \<or> v \<le> 0 then None else Some \<lparr>card_s = s, card_r = r, card_v = v\<rparr>) })"

definition hand_eval_to_json :: "HandEval \<Rightarrow> json" where
  "hand_eval_to_json e = jobj
     [(''rank'', JInt (eval_rank e)), (''value'', JArr (map JInt (eval_value e))), (''desc'', JStr (eval_desc e))]"

text \<open>The loop over the cards returns at the first one that is none.\<close>

fun api_cards :: "json list \<Rightarrow> (string + Card list) option" where
  "api_cards [] = Some (Inr [])"
| "api_cards (j # js) = do {
     c \<leftarrow> api_card_from_json j;
     (case c of
        None \<Rightarrow> Some (Inl ''invalid card object'')
      | Some c \<Rightarrow> do { rest \<leftarrow> api_cards js; Some (map_sum id (Cons c) rest) }) }"

definition parse_cards :: "json \<Rightarrow> int \<Rightarrow> int \<Rightarrow> (string + Card list) option" where
  "parse_cards j min_cards max_cards =
     (case j of
        JArr cards \<Rightarrow>
          if int (length cards) < min_cards \<or> int (length cards) > max_cards
          then Some (Inl ''cards size out of range'')
          else api_cards cards
      | _ \<Rightarrow> Some (Inl ''cards must be array''))"

definition failure_json :: "string \<Rightarrow> json" where
  "failure_json message = jobj [(''ok'', JBool False), (''message'', JStr message)]"

definition compute_best_hand_json :: "json \<Rightarrow> json option" where
  "compute_best_hand_json body = do {
     cs \<leftarrow> jvalue Some ''cards'' (JArr []) body;
     cards \<leftarrow> parse_cards cs 5 7;
     Some (case cards of
             Inl message \<Rightarrow> failure_json message
           | Inr cards \<Rightarrow> jobj [(''ok'', JBool True), (''hand'', hand_eval_to_json (best_hand cards))]) }"

text \<open>The loop over the players: a player is skipped, gives a row, or ends the request with a message.\<close>

definition showdown_row :: "Card list \<Rightarrow> json \<Rightarrow> (string + EvalRow option) option" where
  "showdown_row board p =
     (if \<not> is_object p then Some (Inr None)
      else do {
        folded \<leftarrow> jvalue get_bool ''folded'' False p;
        i \<leftarrow> jvalue get_int ''seatIdx'' (- 1) p;
        if folded \<or> i < 0 then Some (Inr None)
        else do {
          hs \<leftarrow> jvalue Some ''holeCards'' (JArr []) p;
          hole \<leftarrow> parse_cards hs 2 2;
          Some (case hole of
             Inl message \<Rightarrow> Inl (''invalid holeCards for one player: '' @ message)
           | Inr hole \<Rightarrow>
               let cards = hole @ board
               in if length cards < 5 \<or> length cards > 7 then Inl ''combined cards must be 5-7 per player''
                  else Inr (Some (i, best_hand cards))) } })"

fun showdown_rows :: "Card list \<Rightarrow> json list \<Rightarrow> (string + EvalRow list) option" where
  "showdown_rows board [] = Some (Inr [])"
| "showdown_rows board (p # ps) = do {
     row \<leftarrow> showdown_row board p;
     (case row of
        Inl message \<Rightarrow> Some (Inl message)
      | Inr None \<Rightarrow> showdown_rows board ps
      | Inr (Some row) \<Rightarrow> do { rest \<leftarrow> showdown_rows board ps; Some (map_sum id (Cons row) rest) }) }"

text \<open>\<open>best\<close> starts at the first row and moves on a strictly better one.\<close>

definition best_showdown :: "EvalRow \<Rightarrow> EvalRow list \<Rightarrow> EvalRow" where
  "best_showdown first rows =
     fold (\<lambda>row best. if compare_hands (snd row) (snd best) > 0 then row else best) rows first"

definition row_to_json :: "EvalRow \<Rightarrow> json" where
  "row_to_json row = jobj [(''seatIdx'', JInt (fst row)), (''hand'', hand_eval_to_json (snd row))]"

definition showdown_result :: "EvalRow list \<Rightarrow> json" where
  "showdown_result rows =
     (case rows of
        [] \<Rightarrow> jobj [(''players'', JArr []), (''winners'', JArr []), (''ok'', JBool True),
                   (''message'', JStr ''no eligible players'')]
      | first # _ \<Rightarrow>
          let best = best_showdown first rows;
              winners = filter (\<lambda>row. compare_hands (snd row) (snd best) = 0) rows
          in jobj [(''players'', JArr (map row_to_json rows)),
                   (''winners'', JArr (map (\<lambda>row. JInt (fst row)) winners)), (''ok'', JBool True)])"

definition compute_showdown_json :: "json \<Rightarrow> json option" where
  "compute_showdown_json body =
     (case jfield ''players'' body of
        Some (JArr ps) \<Rightarrow> do {
          cc \<leftarrow> jvalue Some ''communityCards'' (JArr []) body;
          board \<leftarrow> parse_cards cc 0 5;
          (case board of
             Inl message \<Rightarrow> Some (failure_json (''invalid communityCards: '' @ message))
           | Inr board \<Rightarrow> do {
               rows \<leftarrow> showdown_rows board ps;
               Some (case rows of Inl message \<Rightarrow> failure_json message | Inr rows \<Rightarrow> showdown_result rows) }) }
      | _ \<Rightarrow> Some (failure_json ''players must be array''))"

subsection \<open>Who wins\<close>

lemma showdown_row_shaped: "showdown_row board p = Some (Inr (Some row)) \<Longrightarrow> shaped (snd row)"
  using best_hand_max(3)
  by (fastforce simp: showdown_row_def Let_def split: if_splits bind_splits sum.splits)

lemma map_sum_InrE:
  assumes "map_sum id f x = Inr y"
  obtains z where "x = Inr z" "y = f z"
  using assms by (cases x) auto

text \<open>What the loop returns: the rows of the players, none left out, or the first message.\<close>

lemma showdown_rows_step:
  assumes "showdown_rows board (p # ps) = Some (Inr rows)"
  obtains "showdown_row board p = Some (Inr None)" "showdown_rows board ps = Some (Inr rows)"
  | row rest where "showdown_row board p = Some (Inr (Some row))" "showdown_rows board ps = Some (Inr rest)"
      "rows = row # rest"
  using assms by (auto split: bind_splits sum.splits option.splits elim: map_sum_InrE)

lemma showdown_rows_shaped:
  "showdown_rows board ps = Some (Inr rows) \<Longrightarrow> \<forall>row\<in>set rows. shaped (snd row)"
proof (induction ps arbitrary: rows)
  case (Cons p ps)
  from Cons.prems show ?case
    by (cases rule: showdown_rows_step) (use Cons.IH showdown_row_shaped in auto)
qed simp

lemma best_showdown_max:
  assumes "\<forall>row\<in>set rows. shaped (snd row)" and "shaped (snd b)"
  shows "best_showdown b rows \<in> insert b (set rows) \<and>
    (\<forall>row\<in>insert b (set rows). strength (snd row) \<le> strength (snd (best_showdown b rows)))"
  using assms
proof (induction rows arbitrary: b)
  case (Cons row rows)
  define b' where "b' = (if compare_hands (snd row) (snd b) > 0 then row else b)"
  have b': "b' \<in> {row, b}" "shaped (snd b')" "strength (snd row) \<le> strength (snd b')" "strength (snd b) \<le> strength (snd b')"
    using Cons.prems compare_hands_less[of "snd row" "snd b"] by (auto simp: b'_def not_less)
  have "best_showdown b (row # rows) = best_showdown b' rows" by (simp add: best_showdown_def b'_def)
  then show ?case using Cons.IH[of b'] Cons.prems b' by (auto intro: order_trans)
qed (simp add: best_showdown_def)

text \<open>
  C38. The showdown endpoint names the right winners. When it evaluates a request, its winners are, in
  the order of the request, exactly the seats of the players whose best hand no other player's beats,
  and there is at least one unless nobody shows down.
\<close>

theorem showdown_endpoint_winners:
  assumes "jfield ''players'' body = Some (JArr ps)" and "jvalue Some ''communityCards'' (JArr []) body = Some cc"
    and "parse_cards cc 0 5 = Some (Inr board)" and "showdown_rows board ps = Some (Inr rows)"
  shows "\<exists>j. compute_showdown_json body = Some j \<and> jfield ''ok'' j = Some (JBool True) \<and>
    jfield ''winners'' j = Some (JArr (map (\<lambda>row. JInt (fst row))
      (filter (\<lambda>row. \<forall>other\<in>set rows. compare_hands (snd other) (snd row) \<le> 0) rows))) \<and>
    (rows \<noteq> [] \<longrightarrow> jfield ''winners'' j \<noteq> Some (JArr []))"
proof -
  have body: "compute_showdown_json body = Some (showdown_result rows)"
    using assms by (simp add: compute_showdown_json_def)
  show ?thesis
  proof (cases rows)
    case Nil
    then show ?thesis using body by (simp add: showdown_result_def jfield_jobj)
  next
    case (Cons first rest)
    have shaped: "\<forall>row\<in>set rows. shaped (snd row)" by (rule showdown_rows_shaped[OF assms(4)])
    define b where "b = best_showdown first rows"
    have b: "b \<in> set rows" "\<forall>row\<in>set rows. strength (snd row) \<le> strength (snd b)"
      using best_showdown_max[OF shaped, of first] shaped Cons by (auto simp: b_def)
    have eq: "compare_hands (snd row) (snd b) = 0 \<longleftrightarrow> (\<forall>other\<in>set rows. compare_hands (snd other) (snd row) \<le> 0)"
      if "row \<in> set rows" for row
      using that shaped b by (auto simp: compare_hands_zero compare_hands_le intro: antisym)
    then have "filter (\<lambda>row. compare_hands (snd row) (snd b) = 0) rows =
        filter (\<lambda>row. \<forall>other\<in>set rows. compare_hands (snd other) (snd row) \<le> 0) rows"
      by (intro filter_cong) auto
    moreover have "filter (\<lambda>row. compare_hands (snd row) (snd b) = 0) rows \<noteq> []"
      using b(1) shaped by (auto simp: filter_empty_conv compare_hands_zero)
    ultimately show ?thesis
      using body Cons by (auto simp: showdown_result_def jfield_jobj Let_def b_def)
  qed
qed


definition demo_cards :: "(string \<times> string \<times> int) list \<Rightarrow> json" where
  "demo_cards cs = JArr (map (\<lambda>(s, r, v). jobj [(''s'', JStr s), (''r'', JStr r), (''v'', JInt v)]) cs)"

definition demo_board :: json where
  "demo_board = demo_cards [(''h'', ''K'', 13), (''s'', ''K'', 13), (''d'', ''4'', 4)]"

definition demo_showdown :: json where
  "demo_showdown = jobj
     [(''communityCards'', demo_board),
      (''players'', JArr
        [jobj [(''seatIdx'', JInt 1), (''holeCards'', demo_cards [(''h'', ''2'', 2), (''c'', ''7'', 7)])],
         jobj [(''seatIdx'', JInt 4), (''holeCards'', demo_cards [(''d'', ''K'', 13), (''c'', ''9'', 9)])],
         jobj [(''seatIdx'', JInt 6), (''folded'', JBool True)]])]"

theorem showdown_endpoint_winners_witness:
  "\<exists>j. compute_showdown_json demo_showdown = Some j \<and> jfield ''ok'' j = Some (JBool True) \<and>
       jfield ''winners'' j = Some (JArr [JInt 4])"
proof -
  obtain ps where ps: "jfield ''players'' demo_showdown = Some (JArr ps)"
    by (simp add: demo_showdown_def jfield_jobj)
  have cc: "jvalue Some ''communityCards'' (JArr []) demo_showdown = Some demo_board"
    by (simp add: demo_showdown_def jvalue_jobj)
  obtain board where board: "parse_cards demo_board 0 5 = Some (Inr board)" and b: "board =
      [\<lparr>card_s = ''h'', card_r = ''K'', card_v = 13\<rparr>, \<lparr>card_s = ''s'', card_r = ''K'', card_v = 13\<rparr>,
       \<lparr>card_s = ''d'', card_r = ''4'', card_v = 4\<rparr>]"
    by (simp add: demo_board_def demo_cards_def parse_cards_def api_card_from_json_def jvalue_jobj to_i32_id i32_defs)
  let ?low = "best_hand ([\<lparr>card_s = ''h'', card_r = ''2'', card_v = 2\<rparr>, \<lparr>card_s = ''c'', card_r = ''7'', card_v = 7\<rparr>] @ board)"
  let ?high = "best_hand ([\<lparr>card_s = ''d'', card_r = ''K'', card_v = 13\<rparr>, \<lparr>card_s = ''c'', card_r = ''9'', card_v = 9\<rparr>] @ board)"
  have rows: "showdown_rows board ps = Some (Inr [(1, ?low), (4, ?high)])"
    using ps unfolding demo_showdown_def
    by (auto simp: jfield_jobj showdown_row_def jvalue_jobj demo_cards_def parse_cards_def api_card_from_json_def
        to_i32_id i32_defs b)
  have cmp: "compare_hands ?low ?high < 0" "compare_hands ?high ?low > 0" "compare_hands ?high ?high = 0"
    "compare_hands ?low ?low = 0"
    unfolding b by code_simp+
  show ?thesis
    using showdown_endpoint_winners[OF ps cc board rows] cmp by (auto simp: not_le)
qed

end
