(* ===== verification/Http.thy ===== *)
theory Http
  imports Worlds Stores Engine_Api
begin

section \<open>The HTTP interface (main.cpp)\<close>

text \<open>
  \<open>handle_http_request\<close> serves the requests the gateway forwards. The replies are the texts the code
  assembles, byte for byte. The rest of the server state is the record \<open>Backend\<close>.

  \<^item> Maps that are only read through \<open>operator[]\<close> are total functions, 0 or empty where nothing was written.
  \<^item> \<open>HttpEnv\<close> holds what a request finds outside the program: the JSON library's \<open>parse\<close> and \<open>dump\<close>, an
    environment variable, the files it may serve, the draws of the generator, the iteration orders of
    hash maps and the text of a \<open>double\<close>.
  \<^item> \<open>None\<close> as the result of a request means that the search for a room code never ends.
\<close>

record HttpRequest =
  rq_method :: string
  rq_uri :: string
  rq_clean_uri :: string
  rq_body :: string
  rq_cookie_header :: string
  rq_gateway_user_id :: "int option"
  rq_gateway_login_username :: string
  rq_gateway_profile_b64 :: string

record HttpReply =
  rp_status :: int
  rp_content_type :: string
  rp_body :: string

record AuthSession =
  as_session_id :: string
  as_user_id :: int
  as_username :: string
  as_expires_at :: int

record Tournament =
  to_id :: string
  to_title :: string
  to_status :: string
  to_signup_opens_at :: int
  to_starts_at :: int
  to_reward_beans :: int
  to_reward_skin :: string
  to_max_players :: int
  to_registered :: "int set"

record Backend = World +
  java_profiles :: "int \<rightharpoonup> UserProfileData"
  user_store :: UserTable
  leaderboard :: "string \<rightharpoonup> LeaderRow"
  auth_sessions :: "string \<rightharpoonup> AuthSession"
  daily_claim_day :: "int \<Rightarrow> int"
  ad_reward_day :: "int \<Rightarrow> int"
  ad_reward_count :: "int \<Rightarrow> int"
  inventories :: "int \<rightharpoonup> string list"
  equipped_table_theme :: "int \<Rightarrow> string"
  user_mmr :: "int \<rightharpoonup> int"
  tournaments :: "Tournament list"
  match_rooms :: "string \<rightharpoonup> string"

record HttpEnv =
  parse_json :: "string \<Rightarrow> json option"
  dump_json :: "json \<Rightarrow> string"
  bridge_secret :: string
  file_at :: "string \<Rightarrow> string"
  code_draws :: "nat \<Rightarrow> nat"
  session_order :: "string list"
  entry_order :: "string list"
  show_double :: "rat \<Rightarrow> string"

text \<open>A step of the rest of the server, on the backend.\<close>

definition with_world :: "World \<Rightarrow> Backend \<Rightarrow> Backend" where
  "with_world w b = World.extend w (World.more b)"

subsection \<open>Assembling JSON text\<close>

definition quoted :: "string \<Rightarrow> string" where
  "quoted s = CHR 0x22 # s @ [CHR 0x22]"

fun join_commas :: "string list \<Rightarrow> string" where
  "join_commas [] = []"
| "join_commas [x] = x"
| "join_commas (x # xs) = x @ '','' @ join_commas xs"

definition object_text :: "(string \<times> string) list \<Rightarrow> string" where
  "object_text kvs = ''{'' @ join_commas (map (\<lambda>(k, v). quoted k @ '':'' @ v) kvs) @ ''}''"

definition list_text :: "string list \<Rightarrow> string" where
  "list_text xs = ''['' @ join_commas xs @ '']''"

definition escaped :: "string \<Rightarrow> string" where
  "escaped s = quoted (escape_json s)"

definition bool_text :: "bool \<Rightarrow> string" where
  "bool_text b = (if b then ''true'' else ''false'')"

definition json_type :: string where
  "json_type = ''application/json; charset=utf-8''"

definition send_json :: "int \<Rightarrow> string \<Rightarrow> HttpReply" where
  "send_json code body = \<lparr>rp_status = code, rp_content_type = json_type, rp_body = body\<rparr>"

definition failure :: "int \<Rightarrow> string \<Rightarrow> HttpReply" where
  "failure code message = send_json code (object_text [(''ok'', ''false''), (''message'', quoted message)])"

definition success :: "(string \<times> string) list \<Rightarrow> HttpReply" where
  "success kvs = send_json 200 (object_text ((''ok'', ''true'') # kvs))"

subsection \<open>What the replies are made of\<close>

definition user_profile_json :: "UserProfileData \<Rightarrow> Backend \<Rightarrow> string" where
  "user_profile_json p b =
     (let mmr = (case user_mmr b (ud_user_id p) of Some m \<Rightarrow> m | None \<Rightarrow> 1000);
          login = (if ud_login_username p = [] then ud_external_id p else ud_login_username p);
          display = (if ud_username p = [] then login else ud_username p)
      in object_text
           [(''userId'', to_string (ud_user_id p)), (''externalId'', escaped (ud_external_id p)),
            (''loginUsername'', escaped login), (''displayName'', escaped display),
            (''username'', escaped display), (''avatar'', escaped (ud_avatar p)),
            (''gold'', to_string (ud_gold p)), (''beanBalance'', to_string (ud_gold p)),
            (''mmrScore'', to_string mmr), (''gamesPlayed'', to_string (ud_games_played p)),
            (''gamesWon'', to_string (ud_games_won p))])"

definition room_summary_json :: "Room \<Rightarrow> string" where
  "room_summary_json r =
     object_text
       [(''roomCode'', escaped (if room_code r = [] then room_id r else room_code r)),
        (''status'', escaped (status r)), (''roomType'', escaped (room_type r)),
        (''visibility'', escaped (visibility r)),
        (''playerCount'', to_string (int (length (filter (\<lambda>s. seat_type s \<noteq> SeatEmpty) (seats r))))),
        (''maxPlayers'', to_string (max_players r)), (''ownerUserId'', to_string (owner_user_id r))]"

text \<open>Division truncates towards zero; the clock never is negative.\<close>

definition current_day_bucket :: "Backend \<Rightarrow> int" where
  "current_day_bucket b = now b div (1000 * 60 * 60 * 24)"

definition bean_mmr :: "int \<Rightarrow> Backend \<Rightarrow> int \<times> Backend" where
  "bean_mmr uid b =
     (case user_mmr b uid of
        Some m \<Rightarrow> (m, b)
      | None \<Rightarrow> (1000, b\<lparr>user_mmr := (user_mmr b)(uid \<mapsto> 1000)\<rparr>))"

definition user_inventory :: "int \<Rightarrow> Backend \<Rightarrow> string list \<times> Backend" where
  "user_inventory uid b =
     (case inventories b uid of
        Some items \<Rightarrow> (items, b)
      | None \<Rightarrow>
          let items = [''rose-table'', ''starlight-frame'', ''soft-heart-emote'']
          in (items, b\<lparr>inventories := (inventories b)(uid \<mapsto> items)\<rparr>))"

definition bean_tier_for_balance :: "int \<Rightarrow> string" where
  "bean_tier_for_balance beans =
     (if beans < 5000 then ''novice'' else if beans < 20000 then ''advanced'' else ''expert'')"

definition bean_profile_json :: "UserProfileData \<Rightarrow> Backend \<Rightarrow> string \<times> Backend" where
  "bean_profile_json p b =
     (let (mmr, b) = bean_mmr (ud_user_id p) b
      in (object_text
            [(''beanBalance'', to_string (ud_gold p)), (''mmrScore'', to_string mmr),
             (''tier'', escaped (bean_tier_for_balance (ud_gold p))),
             (''dailyClaimAvailable'', bool_text (daily_claim_day b (ud_user_id p) \<noteq> current_day_bucket b)),
             (''adRewardCount'', to_string (ad_reward_count b (ud_user_id p)))], b))"

definition inventory_json :: "int \<Rightarrow> Backend \<Rightarrow> string \<times> Backend" where
  "inventory_json uid b =
     (let (items, b) = user_inventory uid b;
          theme = (if equipped_table_theme b uid = [] then ''rose-table'' else equipped_table_theme b uid)
      in (object_text
            [(''ok'', ''true''),
             (''items'', list_text (map (\<lambda>i. object_text [(''itemId'', escaped i), (''category'', quoted ''cosmetic'')]) items)),
             (''equippedTable'', escaped theme)], b))"

definition seeded_tournaments :: "int \<Rightarrow> Tournament list" where
  "seeded_tournaments t =
     [\<lparr>to_id = ''daily-rose-cup'', to_title = ''Daily Rose Cup'', to_status = ''signup'',
       to_signup_opens_at = t - 30 * 60 * 1000, to_starts_at = t + 60 * 60 * 1000, to_reward_beans = 2500,
       to_reward_skin = ''rose-frame'', to_max_players = 27, to_registered = {}\<rparr>,
      \<lparr>to_id = ''night-heart-open'', to_title = ''Night Heart Open'', to_status = ''scheduled'',
       to_signup_opens_at = t + 2 * 60 * 60 * 1000, to_starts_at = t + 4 * 60 * 60 * 1000, to_reward_beans = 4000,
       to_reward_skin = ''moon-table'', to_max_players = 54, to_registered = {}\<rparr>]"

definition ensure_tournaments_seeded :: "Backend \<Rightarrow> Backend" where
  "ensure_tournaments_seeded b =
     (if tournaments b \<noteq> [] then b else b\<lparr>tournaments := seeded_tournaments (now b)\<rparr>)"

definition tournament_text :: "int \<Rightarrow> Tournament \<Rightarrow> string" where
  "tournament_text uid t =
     object_text
       [(''id'', escaped (to_id t)), (''title'', escaped (to_title t)), (''status'', escaped (to_status t)),
        (''signupOpensAt'', to_string (to_signup_opens_at t)), (''startsAt'', to_string (to_starts_at t)),
        (''rewardBeans'', to_string (to_reward_beans t)), (''rewardSkin'', escaped (to_reward_skin t)),
        (''registeredPlayers'', to_string (int (card (to_registered t)))),
        (''maxPlayers'', to_string (to_max_players t)), (''registered'', bool_text (uid \<in> to_registered t))]"

definition tournaments_json :: "int \<Rightarrow> Backend \<Rightarrow> string \<times> Backend" where
  "tournaments_json uid b =
     (let b = ensure_tournaments_seeded b
      in (object_text [(''ok'', ''true''), (''items'', list_text (map (tournament_text uid) (tournaments b)))], b))"

text \<open>The text between a fixed prefix and the last character.\<close>

definition tournaments_items_json :: "int \<Rightarrow> Backend \<Rightarrow> string \<times> Backend" where
  "tournaments_items_json uid b =
     (let (raw, b) = tournaments_json uid b;
          prefix = ''{'' @ quoted ''ok'' @ '':true,'' @ quoted ''items'' @ '':''
      in (if take (length prefix) raw = prefix \<and> raw \<noteq> [] \<and> last raw = CHR ''}''
          then take (length raw - length prefix - 1) (drop (length prefix) raw) else ''[]'', b))"

definition home_overview_json :: "UserProfileData \<Rightarrow> Backend \<Rightarrow> string \<times> Backend" where
  "home_overview_json p b =
     (let b = ensure_tournaments_seeded b;
          profile = user_profile_json p b;
          (bean, b) = bean_profile_json p b;
          claimed = (daily_claim_day b (ud_user_id p) = current_day_bucket b);
          tasks = list_text
            [object_text [(''id'', quoted ''daily-login''), (''title'', quoted ''Daily Login''),
               (''rewardBeans'', ''600''), (''status'', quoted (if claimed then ''claimed'' else ''available''))],
             object_text [(''id'', quoted ''watch-ad''), (''title'', quoted ''Watch Ad For Beans''),
               (''rewardBeans'', ''400''), (''status'', quoted ''available'')]];
          (items, b) = tournaments_items_json (ud_user_id p) b;
          (inventory, b) = inventory_json (ud_user_id p) b
      in (object_text
            [(''ok'', ''true''), (''profile'', profile), (''beanProfile'', bean), (''dailyTasks'', tasks),
             (''tournaments'', items), (''inventoryPreview'', inventory)], b))"

definition leaderboard_json :: "HttpEnv \<Rightarrow> string \<Rightarrow> int \<Rightarrow> (string \<rightharpoonup> LeaderRow) \<Rightarrow> string" where
  "leaderboard_json env type limit rows =
     object_text
       [(''type'', escaped type),
        (''entries'', list_text (map (\<lambda>r. object_text
           [(''username'', escaped (lr_username r)), (''gold'', to_string (lr_gold r)),
            (''winRate'', show_double env (lr_win_rate r)), (''weeklyScore'', to_string (lr_weekly r))])
           (leader_rows (entry_order env) type limit rows)))]"

definition history_text :: "MatchHandInfo \<Rightarrow> string" where
  "history_text h =
     object_text
       [(''handNum'', to_string (mh_hand_num h)), (''desc'', escaped (mh_desc h)),
        (''winners'', list_text (map (\<lambda>w. object_text
           [(''seatIdx'', to_string (wi_seat_idx w)), (''name'', escaped (wi_name w))]) (mh_winners h)))]"

end
