(* ===== verification/Http_Auth.thy ===== *)
theory Http_Auth
  imports Http
begin

section \<open>Who sends a request, and static files (main.cpp)\<close>

text \<open>
  The session of a request, the profile behind a user id, what the gateway says about a user, the
  numbers of a form, and the files the server gives out. A result pairs what is returned with the
  state after it.
\<close>

subsection \<open>Sessions and profiles\<close>

definition kSessionCookieName :: string where
  "kSessionCookieName = ''nebula_session''"

definition find_http_session :: "string \<Rightarrow> Backend \<Rightarrow> AuthSession option \<times> Backend" where
  "find_http_session cookie_header b =
     (case parse_cookie_header cookie_header kSessionCookieName of
        None \<Rightarrow> (None, b)
      | Some cookie \<Rightarrow>
          if cookie = [] then (None, b)
          else (case auth_sessions b cookie of
                  None \<Rightarrow> (None, b)
                | Some s \<Rightarrow>
                    if as_expires_at s < now b
                    then (None, b\<lparr>auth_sessions := (auth_sessions b)(cookie := None)\<rparr>)
                    else (Some s, b)))"

definition get_profile_by_user_id :: "int \<Rightarrow> Backend \<Rightarrow> UserProfileData option \<times> Backend" where
  "get_profile_by_user_id uid b =
     (case java_profiles b uid of
        Some p \<Rightarrow> (Some p, b)
      | None \<Rightarrow>
          (case auth_usernames b uid of
             None \<Rightarrow> (None, b)
           | Some name \<Rightarrow>
               (case cached_users b name of
                  Some p \<Rightarrow> (Some p, b)
                | None \<Rightarrow>
                    let (p, store) = load_or_create name [] (user_store b);
                        p = p\<lparr>ud_login_username := name\<rparr>;
                        p = (if ud_username p = [] then p\<lparr>ud_username := name\<rparr> else p)
                    in (Some p, cache_profile p (b\<lparr>user_store := store\<rparr>)))))"

text \<open>
  The profile in the gateway's JSON. \<open>None\<close> is an exception, which the caller swallows, or a user id
  that is not positive.
\<close>

definition gateway_username :: "json \<Rightarrow> string \<Rightarrow> string \<Rightarrow> string option" where
  "gateway_username pj external login =
     do {
       name \<leftarrow> (case jfield ''displayName'' pj of
                  Some (JStr s) \<Rightarrow> Some s
                | _ \<Rightarrow> jvalue get_string ''username'' [] pj);
       Some (if name = [] then (if login = [] then external else login) else name)
     }"

definition gateway_profile :: "json \<Rightarrow> UserProfileData option" where
  "gateway_profile pj =
     do {
       uid \<leftarrow> jvalue get_int64 ''userId'' 0 pj;
       if uid \<le> 0 then None
       else do {
         external \<leftarrow> jvalue get_string ''externalId'' [] pj;
         login \<leftarrow> jvalue get_string ''loginUsername'' [] pj;
         name \<leftarrow> gateway_username pj external login;
         avatar \<leftarrow> jvalue get_string ''avatar'' [] pj;
         gold \<leftarrow> jvalue get_int64 ''gold'' 10000 pj;
         played \<leftarrow> jvalue get_int ''gamesPlayed'' 0 pj;
         won \<leftarrow> jvalue get_int ''gamesWon'' 0 pj;
         Some \<lparr>ud_user_id = uid, ud_external_id = external, ud_login_username = login, ud_username = name,
               ud_avatar = avatar, ud_gold = gold, ud_games_played = played, ud_games_won = won\<rparr>
       }
     }"

definition keep_profile :: "UserProfileData \<Rightarrow> Backend \<Rightarrow> Backend" where
  "keep_profile p b = cache_profile p (b\<lparr>java_profiles := (java_profiles b)(ud_user_id p \<mapsto> p)\<rparr>)"

definition apply_gateway_profile_b64 :: "HttpEnv \<Rightarrow> string \<Rightarrow> Backend \<Rightarrow> Backend" where
  "apply_gateway_profile_b64 env encoded b =
     (if encoded = [] then b
      else case Option.bind (parse_json env (base64_decode encoded)) gateway_profile of
             None \<Rightarrow> b
           | Some p \<Rightarrow> keep_profile p b)"

definition kForever :: int where
  "kForever = 2 ^ 63 - 1"

definition resolve_auth_http :: "HttpEnv \<Rightarrow> HttpRequest \<Rightarrow> Backend \<Rightarrow> AuthSession option \<times> Backend" where
  "resolve_auth_http env req b =
     (case rq_gateway_user_id req of
        Some uid \<Rightarrow>
          if uid > 0
          then (Some \<lparr>as_session_id = ''gateway'', as_user_id = uid,
                      as_username = rq_gateway_login_username req, as_expires_at = kForever\<rparr>,
                apply_gateway_profile_b64 env (rq_gateway_profile_b64 req) b)
          else find_http_session (rq_cookie_header req) b
      | None \<Rightarrow> find_http_session (rq_cookie_header req) b)"

subsection \<open>The session of a new socket\<close>

definition bind_http_session_to_socket :: "string \<Rightarrow> Session \<Rightarrow> Backend \<Rightarrow> Session \<times> Backend" where
  "bind_http_session_to_socket cookie_header s b =
     (case find_http_session cookie_header b of
        (None, b) \<Rightarrow> (s, b)
      | (Some a, b) \<Rightarrow>
          (case get_profile_by_user_id (as_user_id a) b of
             (None, b) \<Rightarrow> (s, b)
           | (Some p, b) \<Rightarrow>
               (s\<lparr>ses_session_id := as_session_id a, ses_user_id := as_user_id a, ses_authenticated := True,
                  ses_name := as_username a, ses_profile := p\<rparr>, b)))"

text \<open>A number of a gateway frame that may be absent, null, or of another type.\<close>

definition gateway_id :: "json \<Rightarrow> int option" where
  "gateway_id j = (case jfield ''gateway_user_id'' j of Some (JInt n) \<Rightarrow> Some (to_i64 n) | _ \<Rightarrow> None)"

text \<open>\<open>Inl\<close> is the state an exception leaves behind.\<close>

definition bind_gateway_or_cookie_session ::
  "HttpEnv \<Rightarrow> json \<Rightarrow> Session \<Rightarrow> Backend \<Rightarrow> Backend + Session \<times> Backend" where
  "bind_gateway_or_cookie_session env j s b =
     (case gateway_id j of
        Some gid \<Rightarrow>
          if gid > 0 then
            (case jvalue get_string ''gateway_profile_b64'' [] j of
               None \<Rightarrow> Inl b
             | Some encoded \<Rightarrow>
                 let b = apply_gateway_profile_b64 env encoded b
                 in (case jvalue get_string ''gateway_login_username'' [] j of
                       None \<Rightarrow> Inl b
                     | Some login \<Rightarrow>
                         let s = s\<lparr>ses_user_id := gid, ses_authenticated := True, ses_name := login\<rparr>
                         in Inr (case get_profile_by_user_id gid b of
                                   (None, b) \<Rightarrow> (s, b)
                                 | (Some p, b) \<Rightarrow> (s\<lparr>ses_profile := p\<rparr>, b))))
          else (case jvalue get_string ''cookie_header'' [] j of
                  None \<Rightarrow> Inl b
                | Some cookies \<Rightarrow> Inr (bind_http_session_to_socket cookies s b))
      | None \<Rightarrow>
          (case jvalue get_string ''cookie_header'' [] j of
             None \<Rightarrow> Inl b
           | Some cookies \<Rightarrow> Inr (bind_http_session_to_socket cookies s b)))"

subsection \<open>Numbers of a form\<close>

text \<open>
  \<open>std::atoi\<close>, where C leaves the result open as glibc has it: \<open>strtol\<close> saturates at the 64 bits of a
  \<open>long\<close> and the result is narrowed to an \<open>int\<close>.
\<close>

definition digits_value :: "string \<Rightarrow> int" where
  "digits_value ds = foldl (\<lambda>v c. v * 10 + (int (byte c) - 48)) 0 ds"

definition atoi :: "string \<Rightarrow> int" where
  "atoi s =
     (let t = dropWhile isspace (c_str s);
          neg = (t \<noteq> [] \<and> hd t = CHR ''-'');
          t = (if t \<noteq> [] \<and> (hd t = CHR ''-'' \<or> hd t = CHR ''+'') then tl t else t);
          v = digits_value (takeWhile is_digit t)
      in to_i32 (if neg then max (- (2 ^ 63)) (- v) else min (2 ^ 63 - 1) v))"

definition form_value :: "string \<Rightarrow> string \<Rightarrow> (string \<rightharpoonup> string) \<Rightarrow> string" where
  "form_value k d form = (case form k of Some v \<Rightarrow> v | None \<Rightarrow> d)"

definition form_hands :: "(string \<rightharpoonup> string) \<Rightarrow> int" where
  "form_hands form = (case form ''totalHands'' of Some v \<Rightarrow> max 1 (atoi v) | None \<Rightarrow> 5)"

definition form_chips :: "(string \<rightharpoonup> string) \<Rightarrow> int" where
  "form_chips form = (case form ''initialChips'' of Some v \<Rightarrow> max 1000 (atoi v) | None \<Rightarrow> 1000)"

subsection \<open>Static files\<close>

definition starts_with :: "string \<Rightarrow> string \<Rightarrow> bool" where
  "starts_with s t \<longleftrightarrow> take (length t) s = t"

definition before_query :: "string \<Rightarrow> string" where
  "before_query uri = takeWhile (\<lambda>c. c \<noteq> CHR ''?'') uri"

definition static_path :: "string \<Rightarrow> string" where
  "static_path uri =
     (if uri = ''/'' \<or> uri = ''/index.html'' then ''index.html''
      else if uri = ''/proto-socket.js'' then ''proto-socket.js''
      else if uri = ''/proto/poker.proto'' then ''backend-cpp/proto/poker.proto''
      else if starts_with uri ''/assets/'' then tl uri
      else [])"

text \<open>\<open>file_at\<close> is what the search through the directories reads for a relative path, empty if it finds nothing.\<close>

definition serve_static_file :: "HttpEnv \<Rightarrow> string \<Rightarrow> HttpReply option" where
  "serve_static_file env raw_uri =
     (let path = static_path (before_query raw_uri)
      in if path = [] \<or> file_at env path = [] then None
         else Some \<lparr>rp_status = 200, rp_content_type = mime_for_path path, rp_body = file_at env path\<rparr>)"

end
