(* ===== verification/Http_Handlers.thy ===== *)
theory Http_Handlers
  imports Http_Auth
begin

section \<open>The requests (main.cpp)\<close>

text \<open>
  One definition per endpoint and \<open>handle_http_request\<close>, which tries them in the code's order. Printing
  to the log is left out. A sum of beans is a number without a bound.
\<close>

subsection \<open>Endpoints without a login\<close>

definition bad_json :: HttpReply where
  "bad_json = failure 400 ''Bad JSON''"

definition engine_reply :: "HttpEnv \<Rightarrow> (json \<Rightarrow> json option) \<Rightarrow> string \<Rightarrow> HttpReply" where
  "engine_reply env compute body =
     (let result = do {
            j \<leftarrow> parse_json env (if body = [] then ''{}'' else body);
            r \<leftarrow> compute j;
            ok \<leftarrow> jvalue get_bool ''ok'' False r;
            Some (ok, r)
          }
      in case result of
           None \<Rightarrow> bad_json
         | Some (ok, r) \<Rightarrow> send_json (if ok then 200 else 400) (dump_json env r))"

text \<open>The positive numbers of \<open>userIds\<close>.\<close>

definition notified_ids :: "json list \<Rightarrow> int list" where
  "notified_ids els = filter (\<lambda>uid. uid > 0) (List.map_filter (\<lambda>el. case el of JInt n \<Rightarrow> Some (to_i64 n) | _ \<Rightarrow> None) els)"

definition match_notify :: "HttpEnv \<Rightarrow> string \<Rightarrow> Backend \<Rightarrow> HttpReply \<times> Backend" where
  "match_notify env body b =
     (let parsed = do {
            j \<leftarrow> parse_json env body;
            secret \<leftarrow> jvalue get_string ''secret'' [] j;
            Some (j, secret)
          }
      in case parsed of
           None \<Rightarrow> (bad_json, b)
         | Some (j, secret) \<Rightarrow>
             if secret \<noteq> bridge_secret env then (failure 403 ''Forbidden'', b)
             else (case (jvalue get_string ''roomCode'' [] j, jvalue get_int ''threshold'' 6 j) of
                    (Some code, Some threshold) \<Rightarrow>
                      (case jfield ''userIds'' j of
                         Some (JArr els) \<Rightarrow>
                           (success [], fold (notify_match (session_order env) (to_upper_room_code code) threshold)
                                          (notified_ids els) b)
                       | _ \<Rightarrow> (failure 400 ''userIds required'', b))
                  | _ \<Rightarrow> (bad_json, b)))"

text \<open>\<open>uri.substr(uri.find(t) + t.size())\<close>, if the text occurs.\<close>

fun after_text :: "string \<Rightarrow> string \<Rightarrow> string option" where
  "after_text t [] = (if t = [] then Some [] else None)"
| "after_text t (c # s) = (if starts_with (c # s) t then Some (drop (length t) (c # s)) else after_text t s)"

definition leaderboard_reply :: "HttpEnv \<Rightarrow> HttpRequest \<Rightarrow> Backend \<Rightarrow> HttpReply" where
  "leaderboard_reply env req b =
     (let type = (case after_text ''type='' (rq_uri req) of Some t \<Rightarrow> t | None \<Rightarrow> ''coins'')
      in send_json 200 (leaderboard_json env type 20 (leaderboard b)))"

subsection \<open>Logging in\<close>

type_synonym served = "(HttpReply \<times> Backend) option"

definition with_login :: "AuthSession option \<Rightarrow> (AuthSession \<Rightarrow> Backend \<Rightarrow> served) \<Rightarrow> Backend \<Rightarrow> served" where
  "with_login auth k b =
     (case auth of None \<Rightarrow> Some (failure 401 ''Login required.'', b) | Some a \<Rightarrow> k a b)"

definition with_profile :: "AuthSession option \<Rightarrow> (UserProfileData \<Rightarrow> Backend \<Rightarrow> served) \<Rightarrow> Backend \<Rightarrow> served" where
  "with_profile auth k b =
     with_login auth (\<lambda>a b. case get_profile_by_user_id (as_user_id a) b of
         (None, b) \<Rightarrow> Some (failure 401 ''Session expired.'', b)
       | (Some p, b) \<Rightarrow> k p b) b"

subsection \<open>Profiles and beans\<close>

definition home_overview :: "UserProfileData \<Rightarrow> Backend \<Rightarrow> HttpReply \<times> Backend" where
  "home_overview p b = (let (body, b) = home_overview_json p b in (send_json 200 body, b))"

definition profile_me :: "UserProfileData \<Rightarrow> Backend \<Rightarrow> HttpReply \<times> Backend" where
  "profile_me p b =
     (success [(''profile'', user_profile_json p b), (''favoriteMode'', quoted ''friend-room'')], b)"

definition beans_profile :: "UserProfileData \<Rightarrow> Backend \<Rightarrow> HttpReply \<times> Backend" where
  "beans_profile p b = (let (bean, b) = bean_profile_json p b in (success [(''beanProfile'', bean)], b))"

definition add_gold :: "int \<Rightarrow> UserProfileData \<Rightarrow> UserProfileData" where
  "add_gold n p = p\<lparr>ud_gold := ud_gold p + n\<rparr>"

definition claim_daily :: "UserProfileData \<Rightarrow> Backend \<Rightarrow> HttpReply \<times> Backend" where
  "claim_daily p b =
     (let uid = ud_user_id p; day = current_day_bucket b
      in if daily_claim_day b uid = day then (failure 409 ''Daily beans already claimed.'', b)
         else
           let b = b\<lparr>daily_claim_day := (daily_claim_day b)(uid := day)\<rparr>;
               p = add_gold 600 p;
               b = cache_profile p b;
               (bean, b) = bean_profile_json p b
           in (success [(''rewardBeans'', ''600''), (''beanProfile'', bean)], b))"

definition new_ad_day :: "int \<Rightarrow> Backend \<Rightarrow> Backend" where
  "new_ad_day uid b =
     (let day = current_day_bucket b
      in if ad_reward_day b uid = day then b
         else b\<lparr>ad_reward_day := (ad_reward_day b)(uid := day), ad_reward_count := (ad_reward_count b)(uid := 0)\<rparr>)"

definition ad_reward :: "UserProfileData \<Rightarrow> Backend \<Rightarrow> HttpReply \<times> Backend" where
  "ad_reward p b =
     (let uid = ud_user_id p; b = new_ad_day uid b
      in if ad_reward_count b uid \<ge> 3 then (failure 409 ''Ad rewards capped for today.'', b)
         else
           let b = b\<lparr>ad_reward_count := (ad_reward_count b)(uid := ad_reward_count b uid + 1)\<rparr>;
               p = add_gold 400 p;
               b = cache_profile p b;
               left = 3 - ad_reward_count b uid;
               (bean, b) = bean_profile_json p b
           in (success [(''rewardBeans'', ''400''), (''remaining'', to_string left), (''beanProfile'', bean)], b))"

subsection \<open>Inventory and tournaments\<close>

definition inventory_of :: "AuthSession \<Rightarrow> Backend \<Rightarrow> HttpReply \<times> Backend" where
  "inventory_of a b = (let (body, b) = inventory_json (as_user_id a) b in (send_json 200 body, b))"

definition equip :: "(string \<rightharpoonup> string) \<Rightarrow> AuthSession \<Rightarrow> Backend \<Rightarrow> HttpReply \<times> Backend" where
  "equip form a b =
     (let item = form_value ''itemId'' [] form;
          (items, b) = user_inventory (as_user_id a) b
      in if item \<notin> set items then (failure 404 ''Item not owned.'', b)
         else (success [(''equippedTable'', escaped item)],
               b\<lparr>equipped_table_theme := (equipped_table_theme b)(as_user_id a := item)\<rparr>))"

definition tournaments_of :: "AuthSession \<Rightarrow> Backend \<Rightarrow> HttpReply \<times> Backend" where
  "tournaments_of a b = (let (body, b) = tournaments_json (as_user_id a) b in (send_json 200 body, b))"

text \<open>
  \<open>clean_uri.substr(x, clean_uri.size() - x - y)\<close> for affixes of the lengths \<open>x\<close> and \<open>y\<close>. The
  difference is unsigned: when the affixes overlap it is huge and the rest of the text is taken.
\<close>

definition between_affixes :: "nat \<Rightarrow> nat \<Rightarrow> string \<Rightarrow> string" where
  "between_affixes x y s =
     (if length s < x + y then drop x s else take (length s - x - y) (drop x s))"

definition is_register_uri :: "string \<Rightarrow> bool" where
  "is_register_uri u \<longleftrightarrow> starts_with u ''/api/tournaments/'' \<and> length u > 24 \<and> ends_with u ''/register''"

fun update_first :: "('a \<Rightarrow> bool) \<Rightarrow> ('a \<Rightarrow> 'a) \<Rightarrow> 'a list \<Rightarrow> 'a list" where
  "update_first P f [] = []"
| "update_first P f (x # xs) = (if P x then f x # xs else x # update_first P f xs)"

definition register_player :: "int \<Rightarrow> Tournament \<Rightarrow> Tournament" where
  "register_player uid t = t\<lparr>to_registered := insert uid (to_registered t)\<rparr>"

definition tournament_register :: "string \<Rightarrow> AuthSession \<Rightarrow> Backend \<Rightarrow> HttpReply \<times> Backend" where
  "tournament_register uri a b =
     (let b = ensure_tournaments_seeded b;
          tid = between_affixes 17 9 uri
      in case find (\<lambda>t. to_id t = tid) (tournaments b) of
           None \<Rightarrow> (failure 404 ''Tournament not found.'', b)
         | Some t \<Rightarrow>
             if int (card (to_registered t)) \<ge> to_max_players t
             then (failure 409 ''Tournament is full.'', b)
             else (success [(''registered'', ''true''), (''tournamentId'', escaped (to_id t))],
                   b\<lparr>tournaments := update_first (\<lambda>t. to_id t = tid) (register_player (as_user_id a)) (tournaments b)\<rparr>))"

subsection \<open>Rooms\<close>

definition room_reply :: "Room \<Rightarrow> HttpReply" where
  "room_reply r = success [(''roomCode'', escaped (room_code r)), (''room'', room_summary_json r)]"

definition friend_room_create :: "HttpEnv \<Rightarrow> (string \<rightharpoonup> string) \<Rightarrow> UserProfileData \<Rightarrow> Backend \<Rightarrow> served" where
  "friend_room_create env form p b =
     (case create_room_for_user (code_draws env) (ud_user_id p) ''private'' (form_hands form) (form_chips form)
             ''friend'' (World.truncate b) of
        None \<Rightarrow> None
      | Some (code, w) \<Rightarrow> map_option (\<lambda>r. (room_reply r, with_world w b)) (rooms w code))"

definition friend_room_join :: "(string \<rightharpoonup> string) \<Rightarrow> Backend \<Rightarrow> HttpReply" where
  "friend_room_join form b =
     (case rooms b (to_upper_room_code (form_value ''roomCode'' [] form)) of
        None \<Rightarrow> failure 404 ''Friend room not found.''
      | Some r \<Rightarrow> if room_type r \<noteq> ''friend'' then failure 404 ''Friend room not found.'' else room_reply r)"

definition is_history_uri :: "string \<Rightarrow> bool" where
  "is_history_uri u \<longleftrightarrow> starts_with u ''/api/friend-rooms/'' \<and> length u > 22 \<and> ends_with u ''/history''"

definition friend_room_history :: "string \<Rightarrow> Backend \<Rightarrow> HttpReply" where
  "friend_room_history uri b =
     (case rooms b (to_upper_room_code (between_affixes 18 8 uri)) of
        None \<Rightarrow> failure 404 ''Friend room not found.''
      | Some r \<Rightarrow>
          if room_type r \<noteq> ''friend'' then failure 404 ''Friend room not found.''
          else success [(''roomCode'', escaped (room_code r)),
                        (''hands'', list_text (map history_text (hand_history r)))])"

text \<open>The room an earlier request with the same match id created, if it still exists.\<close>

definition match_room :: "string \<Rightarrow> Backend \<Rightarrow> Room option" where
  "match_room match_id b =
     (if match_id = [] then None else Option.bind (match_rooms b match_id) (rooms b))"

definition as_bean_match :: "string \<Rightarrow> Room \<Rightarrow> Room" where
  "as_bean_match type r =
     (if type = ''bean_match'' then r\<lparr>status := ''matching'', visibility := ''matchmaking''\<rparr> else r)"

definition room_create :: "HttpEnv \<Rightarrow> (string \<rightharpoonup> string) \<Rightarrow> UserProfileData \<Rightarrow> Backend \<Rightarrow> served" where
  "room_create env form p b =
     (let match_id = form_value ''matchId'' [] form;
          type = form_value ''roomType'' ''friend'' form
      in case match_room match_id b of
           Some r \<Rightarrow> Some (room_reply r, b)
         | None \<Rightarrow>
             let b = (if match_id = [] then b else b\<lparr>match_rooms := (match_rooms b)(match_id := None)\<rparr>)
             in (case create_room_for_user (code_draws env) (ud_user_id p) (form_value ''visibility'' ''private'' form)
                       (form_hands form) (form_chips form) type (World.truncate b) of
                  None \<Rightarrow> None
                | Some (code, w) \<Rightarrow>
                    (case rooms w code of
                       None \<Rightarrow> None
                     | Some r \<Rightarrow>
                         let r = as_bean_match type r;
                             b = with_world (w\<lparr>rooms := (rooms w)(code \<mapsto> r)\<rparr>) b;
                             b = (if match_id = [] then b
                                  else b\<lparr>match_rooms := (match_rooms b)(match_id \<mapsto> room_code r)\<rparr>)
                         in Some (room_reply r, b))))"

definition room_join :: "(string \<rightharpoonup> string) \<Rightarrow> Backend \<Rightarrow> HttpReply" where
  "room_join form b =
     (case rooms b (to_upper_room_code (form_value ''roomCode'' [] form)) of
        None \<Rightarrow> failure 404 ''Room not found.''
      | Some r \<Rightarrow> room_reply r)"

subsection \<open>The dispatch\<close>

definition route :: "string \<Rightarrow> string \<Rightarrow> HttpRequest \<Rightarrow> bool" where
  "route method uri req \<longleftrightarrow> rq_clean_uri req = uri \<and> rq_method req = method"

text \<open>What is answered before the sender is looked at; \<open>None\<close> if it is none of these.\<close>

definition early_reply :: "HttpEnv \<Rightarrow> HttpRequest \<Rightarrow> Backend \<Rightarrow> (HttpReply \<times> Backend) option" where
  "early_reply env req b =
     (if rq_clean_uri req = ''/healthz'' then
        Some (\<lparr>rp_status = 200, rp_content_type = ''text/plain; charset=utf-8'', rp_body = ''ok''\<rparr>, b)
      else if rq_clean_uri req = ''/readyz'' then Some (success [], b)
      else if route ''POST'' ''/api/engine/best-hand'' req then
        Some (engine_reply env compute_best_hand_json (rq_body req), b)
      else if route ''POST'' ''/api/engine/showdown'' req then
        Some (engine_reply env compute_showdown_json (rq_body req), b)
      else if route ''POST'' ''/api/internal/match-notify'' req then Some (match_notify env (rq_body req) b)
      else None)"

definition file_reply :: "HttpEnv \<Rightarrow> HttpRequest \<Rightarrow> HttpReply" where
  "file_reply env req =
     (case serve_static_file env (rq_uri req) of
        Some rep \<Rightarrow> rep
      | None \<Rightarrow> \<lparr>rp_status = 404, rp_content_type = ''text/plain; charset=utf-8'', rp_body = ''Not Found''\<rparr>)"

definition room_request :: "HttpEnv \<Rightarrow> HttpRequest \<Rightarrow> AuthSession option \<Rightarrow> Backend \<Rightarrow> served" where
  "room_request env req auth b =
     (let form = parse_form_body (rq_body req)
      in if route ''POST'' ''/api/friend-rooms/create'' req then with_profile auth (friend_room_create env form) b
         else if route ''POST'' ''/api/friend-rooms/join'' req then
           with_login auth (\<lambda>_ b. Some (friend_room_join form b, b)) b
         else if is_history_uri (rq_clean_uri req) \<and> rq_method req = ''GET'' then
           Some (friend_room_history (rq_clean_uri req) b, b)
         else if route ''POST'' ''/api/rooms/create'' req then with_profile auth (room_create env form) b
         else if route ''POST'' ''/api/rooms/join'' req then with_login auth (\<lambda>_ b. Some (room_join form b, b)) b
         else Some (file_reply env req, b))"

definition user_request :: "HttpEnv \<Rightarrow> HttpRequest \<Rightarrow> AuthSession option \<Rightarrow> Backend \<Rightarrow> served" where
  "user_request env req auth b =
     (if starts_with (rq_uri req) ''/api/leaderboard'' then Some (leaderboard_reply env req b, b)
      else if route ''GET'' ''/api/home/overview'' req then with_profile auth (\<lambda>p b. Some (home_overview p b)) b
      else if route ''GET'' ''/api/profile/me'' req then with_profile auth (\<lambda>p b. Some (profile_me p b)) b
      else if route ''GET'' ''/api/beans/profile'' req then with_profile auth (\<lambda>p b. Some (beans_profile p b)) b
      else if route ''POST'' ''/api/beans/claim-daily'' req then with_profile auth (\<lambda>p b. Some (claim_daily p b)) b
      else if route ''POST'' ''/api/beans/ad-reward'' req then with_profile auth (\<lambda>p b. Some (ad_reward p b)) b
      else if route ''GET'' ''/api/inventory'' req then with_login auth (\<lambda>a b. Some (inventory_of a b)) b
      else if route ''POST'' ''/api/inventory/equip'' req then
        with_login auth (\<lambda>a b. Some (equip (parse_form_body (rq_body req)) a b)) b
      else if route ''GET'' ''/api/tournaments'' req then with_login auth (\<lambda>a b. Some (tournaments_of a b)) b
      else if is_register_uri (rq_clean_uri req) \<and> rq_method req = ''POST'' then
        with_login auth (\<lambda>a b. Some (tournament_register (rq_clean_uri req) a b)) b
      else room_request env req auth b)"

definition handle_http_request :: "HttpEnv \<Rightarrow> HttpRequest \<Rightarrow> Backend \<Rightarrow> served" where
  "handle_http_request env req b =
     (case early_reply env req b of
        Some res \<Rightarrow> Some res
      | None \<Rightarrow> let (auth, b) = resolve_auth_http env req b in user_request env req auth b)"

end
