(* ===== verification/Gateway_Frames.thy ===== *)
theory Gateway_Frames
  imports Base64
begin

section \<open>The framing of the gateway connection (main.cpp)\<close>

text \<open>
  The one TCP connection to the gateway carries frames: four bytes with the length, highest first,
  and the payload. Writes go through a queue, one \<open>async_write\<close> at a time. \<open>wire\<close> is what has been
  handed to the socket, in order; the library calls back when the front of the queue is out.
\<close>

definition kMaxFrame :: nat where
  "kMaxFrame = 32 * 1024 * 1024"

subsection \<open>Writing\<close>

record Gateway =
  out_queue :: "string list"
  writing :: bool
  wire :: string

definition frame_header :: "32 word \<Rightarrow> string" where
  "frame_header n =
     map (\<lambda>k. char_of (unat (drop_bit k n AND 255))) [24, 16, 8, 0]"

definition make_frame :: "string \<Rightarrow> string" where
  "make_frame payload = frame_header (of_nat (length payload)) @ payload"

definition pump_write :: "Gateway \<Rightarrow> Gateway" where
  "pump_write g =
     (if writing g \<or> out_queue g = [] then g
      else g\<lparr>writing := True, wire := wire g @ hd (out_queue g)\<rparr>)"

definition queue_frame :: "string \<Rightarrow> Gateway \<Rightarrow> Gateway" where
  "queue_frame payload g =
     (if length payload > kMaxFrame then g
      else pump_write (g\<lparr>out_queue := out_queue g @ [make_frame payload]\<rparr>))"

text \<open>The completion handler of a write that succeeded.\<close>

definition frame_written :: "Gateway \<Rightarrow> Gateway" where
  "frame_written g = pump_write (g\<lparr>writing := False, out_queue := tl (out_queue g)\<rparr>)"

subsection \<open>Reading\<close>

definition frame_length :: "string \<Rightarrow> 32 word" where
  "frame_length hdr =
     push_bit 24 (of_nat (byte (hdr ! 0))) OR push_bit 16 (of_nat (byte (hdr ! 1))) OR
     push_bit 8 (of_nat (byte (hdr ! 2))) OR of_nat (byte (hdr ! 3))"

text \<open>
  What \<open>begin_read_frame\<close> makes of the bytes that have arrived: the payloads it hands on, and whether it
  gives the connection up; \<open>async_read\<close> waits while there are too few.
\<close>

datatype reading = Waiting string | Detached

function read_frames :: "string \<Rightarrow> string list \<times> reading" where
  "read_frames bytes =
     (if length bytes < 4 then ([], Waiting bytes)
      else
        let n = frame_length (take 4 bytes)
        in if n = 0 \<or> unat n > kMaxFrame then ([], Detached)
           else if length (drop 4 bytes) < unat n then ([], Waiting bytes)
           else
             let (ps, end) = read_frames (drop (4 + unat n) bytes)
             in (take (unat n) (drop 4 bytes) # ps, end))"
  by pat_completeness auto
termination by (relation "measure length") auto

declare read_frames.simps [simp del]

subsection \<open>What is framed arrives\<close>

lemma octet_of_word:
  "unat ((w :: 32 word) AND 255) mod 256 = unat (w AND 255)"
proof -
  have "unat (w AND 255) < 256"
    unfolding and_255 using take_bit_nat_less_exp[of 8 "unat w"] by (simp add: unsigned_take_bit_eq)
  then show ?thesis by simp
qed

lemma frame_length_header: "frame_length (frame_header n) = n"
proof -
  have "push_bit 24 (drop_bit 24 n AND 255) OR push_bit 16 (drop_bit 16 n AND 255) OR
      push_bit 8 (drop_bit 8 n AND 255) OR (n AND 255) = n"
    unfolding and_255
  proof (rule bit_word_eqI)
    fix k
    assume "k < LENGTH(32)"
    then consider "k < 8" | "8 \<le> k" "k < 16" | "16 \<le> k" "k < 24" | "24 \<le> k" "k < 32" by fastforce
    then show "bit (push_bit 24 (take_bit 8 (drop_bit 24 n)) OR push_bit 16 (take_bit 8 (drop_bit 16 n)) OR
      push_bit 8 (take_bit 8 (drop_bit 8 n)) OR take_bit 8 n) k = bit n k"
      by cases (auto simp: bit_simps)
  qed
  then show ?thesis
    by (simp add: frame_length_def frame_header_def octet_of_word)
qed

lemma length_frame_header [simp]: "length (frame_header n) = 4"
  by (simp add: frame_header_def)

lemma unat_of_payload: "length p \<le> kMaxFrame \<Longrightarrow> unat (of_nat (length p) :: 32 word) = length p"
  by (simp add: unat_of_nat kMaxFrame_def)

lemma read_frame:
  assumes "p \<noteq> []" and "length p \<le> kMaxFrame"
  shows "read_frames (make_frame p @ bs) = (p # fst (read_frames bs), snd (read_frames bs))"
proof -
  have n: "unat (of_nat (length p) :: 32 word) = length p" by (rule unat_of_payload[OF assms(2)])
  then have "(of_nat (length p) :: 32 word) \<noteq> 0" using assms(1) by (metis length_0_conv unat_0)
  then show ?thesis
    using assms(2) n
    by (subst read_frames.simps) (simp add: make_frame_def frame_length_header Let_def case_prod_beta)
qed

lemma read_empty_frame: "read_frames (make_frame [] @ bs) = ([], Detached)"
  by (subst read_frames.simps) (simp add: make_frame_def frame_length_header)

lemma read_all_frames:
  assumes "\<forall>p\<in>set ps. p \<noteq> [] \<and> length p \<le> kMaxFrame"
  shows "read_frames (concat (map make_frame ps)) = (ps, Waiting [])"
  using assms
proof (induction ps)
  case Nil
  show ?case by (subst read_frames.simps) simp
qed (simp add: read_frame)

text \<open>The queue never reorders: what is on the wire and what waits behind it is what was queued.\<close>

datatype gw_event = Queue string | Written

definition gw_step :: "gw_event \<Rightarrow> Gateway \<Rightarrow> Gateway" where
  "gw_step e g =
     (case e of Queue p \<Rightarrow> queue_frame p g | Written \<Rightarrow> if writing g then frame_written g else g)"

definition queued_payloads :: "gw_event list \<Rightarrow> string list" where
  "queued_payloads es =
     List.map_filter (\<lambda>e. case e of Queue p \<Rightarrow> if length p > kMaxFrame then None else Some p | Written \<Rightarrow> None) es"

definition fresh_gateway :: Gateway where
  "fresh_gateway = \<lparr>out_queue = [], writing = False, wire = []\<rparr>"

definition in_order :: "string \<Rightarrow> Gateway \<Rightarrow> bool" where
  "in_order sent g \<longleftrightarrow> (writing g \<longleftrightarrow> out_queue g \<noteq> []) \<and> wire g @ concat (tl (out_queue g)) = sent"

lemma in_order_step:
  assumes "in_order sent g"
  shows "in_order (sent @ concat (map make_frame (queued_payloads [e]))) (gw_step e g)"
proof (cases e)
  case (Queue p)
  then show ?thesis using assms
    by (cases "out_queue g")
      (auto simp: in_order_def gw_step_def queue_frame_def pump_write_def queued_payloads_def map_filter_simps)
next
  case Written
  then show ?thesis using assms
    by (cases "out_queue g"; cases "tl (out_queue g)")
      (auto simp: in_order_def gw_step_def frame_written_def pump_write_def queued_payloads_def map_filter_simps)
qed

lemma queued_payloads_Cons: "queued_payloads (e # es) = queued_payloads [e] @ queued_payloads es"
  by (simp add: queued_payloads_def List.map_filter_def)

lemma in_order_run:
  "in_order sent g \<Longrightarrow> in_order (sent @ concat (map make_frame (queued_payloads es))) (fold gw_step es g)"
proof (induction es arbitrary: sent g)
  case Nil
  then show ?case by (simp add: queued_payloads_def map_filter_simps)
next
  case (Cons e es)
  from Cons.IH[OF in_order_step[OF Cons.prems]] show ?case
    by (simp add: queued_payloads_Cons[of e es])
qed

text \<open>
  C39. Frames arrive whole and in order. Whatever sequence of frames is queued and however the writes
  complete, once the queue has drained the bytes on the wire, read the way \<open>begin_read_frame\<close> reads,
  are exactly the payloads that were queued, none split or merged, except those over 32 MiB, which
  \<open>queue_frame\<close> drops without a word; an empty payload would make the reader give the connection up.
\<close>

theorem frames_roundtrip:
  assumes "out_queue (fold gw_step es fresh_gateway) = []" and "Queue [] \<notin> set es"
  shows "read_frames (wire (fold gw_step es fresh_gateway)) = (queued_payloads es, Waiting []) \<and>
         read_frames (wire (gw_step (Queue []) (fold gw_step es fresh_gateway))) = (queued_payloads es, Detached)"
proof -
  let ?g = "fold gw_step es fresh_gateway"
  have "in_order ([] @ concat (map make_frame (queued_payloads es))) ?g"
    by (rule in_order_run) (simp add: in_order_def fresh_gateway_def)
  then have wire: "wire ?g = concat (map make_frame (queued_payloads es))" "\<not> writing ?g"
    using assms(1) by (simp_all add: in_order_def)
  have sizes: "\<forall>p\<in>set (queued_payloads es). p \<noteq> [] \<and> length p \<le> kMaxFrame"
    using assms(2) by (auto simp: queued_payloads_def List.map_filter_def split: gw_event.splits if_splits)
  have "read_frames (concat (map make_frame ps) @ make_frame []) = (ps, Detached)"
    if "\<forall>p\<in>set ps. p \<noteq> [] \<and> length p \<le> kMaxFrame" for ps
    using that by (induction ps) (simp_all add: read_frame read_empty_frame[of "[]", simplified])
  then show ?thesis
    using read_all_frames[OF sizes] sizes wire assms(1)
    by (simp add: gw_step_def queue_frame_def pump_write_def)
qed

definition demo_frames :: "gw_event list" where
  "demo_frames = [Queue ''hello'', Written, Queue ''ab'', Queue ''c'', Written, Written]"

theorem frames_roundtrip_witness:
  "read_frames (wire (fold gw_step demo_frames fresh_gateway)) = ([''hello'', ''ab'', ''c''], Waiting [])"
proof -
  have "out_queue (fold gw_step demo_frames fresh_gateway) = []" "Queue [] \<notin> set demo_frames"
    "queued_payloads demo_frames = [''hello'', ''ab'', ''c'']"
    by (simp_all add: demo_frames_def gw_step_def queue_frame_def frame_written_def pump_write_def
        fresh_gateway_def kMaxFrame_def queued_payloads_def map_filter_simps)
  then show ?thesis using frames_roundtrip[of demo_frames] by simp
qed

end
