(* ===== verification/Gateway_Down.thy ===== *)
theory Gateway_Down
  imports Http_Handlers Gateway_Frames
begin

section \<open>What the gateway sends (main.cpp)\<close>

text \<open>
  \<open>on_gateway_down_json\<close> on a parsed frame, and the whole server as a step relation on the backend.

  \<^item> \<open>parse_envelope\<close> is the protobuf library on the bytes of an envelope: they may be malformed (the
    envelope or its payload), name an event the server does not know, or hold a request.
  \<^item> \<open>ids\<close> is the order of the hash set of sockets that \<open>detach_gateway\<close> goes through.
  \<^item> Envelopes go to the outbox; the frame that answers an HTTP request or a ping is a result.
\<close>

datatype ws_input = Malformed | Unknown_Event | Request request

record GatewayEnv = HttpEnv +
  parse_envelope :: "string \<Rightarrow> ws_input"
  chance :: Chance
  socket_order :: "string list"

text \<open>
  What a frame does: the new state and the frames that answer it, an exception with the state it leaves,
  a search that never ends, undefined behaviour.
\<close>

datatype outcome =
    Answered Backend "json list"
  | Thrown Backend
  | Endless
  | Faulted fault

subsection \<open>Matches that were played\<close>

text \<open>
  \<open>user_store_->record_match(stats)\<close> and \<open>leaderboard_store_->update(stats, cached_users_)\<close> for the matches
  an event of the room worker recorded; an event records at most one.
\<close>

definition settle_match :: "MatchStat list \<Rightarrow> Backend \<Rightarrow> Backend" where
  "settle_match stats b =
     b\<lparr>user_store := record_match stats (user_store b),
       leaderboard := update_leaderboard stats (cached_users b) (leaderboard b)\<rparr>"

definition take_over :: "World \<Rightarrow> Backend \<Rightarrow> Backend" where
  "take_over w b = fold settle_match (drop (length (recorded_matches b)) (recorded_matches w)) (with_world w b)"

subsection \<open>The kinds of frames\<close>

definition on_client_register :: "GatewayEnv \<Rightarrow> json \<Rightarrow> Backend \<Rightarrow> outcome" where
  "on_client_register env j b =
     (case jvalue get_string ''socket_id'' [] j of
        None \<Rightarrow> Thrown b
      | Some sid \<Rightarrow>
          if sid = [] then Answered b []
          else
            let b = (if sessions b sid \<noteq> None then take_over (remove_session sid (World.truncate b)) b else b)
            in (case bind_gateway_or_cookie_session (HttpEnv.truncate env) j (new_session sid) b of
                  Inl b \<Rightarrow> Thrown b
                | Inr (s, b) \<Rightarrow> Answered (take_over (client_register s (World.truncate b)) b) []))"

definition on_client_unregister :: "json \<Rightarrow> Backend \<Rightarrow> outcome" where
  "on_client_unregister j b =
     (case jvalue get_string ''socket_id'' [] j of
        None \<Rightarrow> Thrown b
      | Some sid \<Rightarrow> Answered (take_over (remove_session sid (World.truncate b)) b) [])"

definition close_frame :: "string \<Rightarrow> json" where
  "close_frame sid =
     jobj [(''type'', JStr ''to_client_close''), (''socket_id'', JStr sid), (''close_code'', JInt 1002)]"

definition close_ws_protocol_error :: "string \<Rightarrow> Backend \<Rightarrow> outcome" where
  "close_ws_protocol_error sid b =
     Answered (take_over (remove_session sid (World.truncate b)) b)
       (if gateway_attached b then [close_frame sid] else [])"

text \<open>The part of \<open>on_ws_message\<close> before a request is known.\<close>

definition on_ws_bytes :: "GatewayEnv \<Rightarrow> string \<Rightarrow> string \<Rightarrow> Backend \<Rightarrow> outcome" where
  "on_ws_bytes env sid bytes b =
     (if sessions b sid = None then Answered b []
      else if bytes = [] then close_ws_protocol_error sid b
      else (case parse_envelope env bytes of
              Malformed \<Rightarrow> close_ws_protocol_error sid b
            | Unknown_Event \<Rightarrow> Answered b []
            | Request req \<Rightarrow>
                (case on_ws_message (chance env) req sid (World.truncate b) of
                   Inl f \<Rightarrow> Faulted f
                 | Inr w \<Rightarrow> Answered (take_over w b) [])))"

definition on_client_envelope :: "GatewayEnv \<Rightarrow> json \<Rightarrow> Backend \<Rightarrow> outcome" where
  "on_client_envelope env j b =
     (case (jvalue get_string ''socket_id'' [] j, jvalue get_string ''envelope_b64'' [] j) of
        (Some sid, Some encoded) \<Rightarrow> on_ws_bytes env sid (base64_decode encoded) b
      | _ \<Rightarrow> Thrown b)"

text \<open>The request in a frame; a field of the wrong type is an exception.\<close>

definition request_view :: "json \<Rightarrow> HttpRequest option" where
  "request_view j =
     do {
       method \<leftarrow> jvalue get_string ''method'' ''GET'' j;
       uri \<leftarrow> jvalue get_string ''uri'' ''/'' j;
       body \<leftarrow> jvalue get_string ''body_b64'' [] j;
       cookies \<leftarrow> jvalue get_string ''cookie_header'' [] j;
       login \<leftarrow> jvalue get_string ''gateway_login_username'' [] j;
       profile \<leftarrow> jvalue get_string ''gateway_profile_b64'' [] j;
       Some \<lparr>rq_method = method, rq_uri = uri, rq_clean_uri = before_query uri, rq_body = base64_decode body,
             rq_cookie_header = cookies, rq_gateway_user_id = gateway_id j,
             rq_gateway_login_username = login, rq_gateway_profile_b64 = profile\<rparr>
     }"

text \<open>\<open>request_id\<close> is an unsigned 64-bit number.\<close>

definition request_id :: "json \<Rightarrow> int" where
  "request_id j = (case jfield ''request_id'' j of Some (JInt n) \<Rightarrow> n mod 2 ^ 64 | _ \<Rightarrow> 0)"

definition api_response :: "int \<Rightarrow> HttpReply \<Rightarrow> json" where
  "api_response rid rep =
     jobj [(''type'', JStr ''api_response''), (''request_id'', JInt rid), (''status'', JInt (rp_status rep)),
           (''content_type'', JStr (rp_content_type rep)), (''body_b64'', JStr (base64_encode (rp_body rep))),
           (''set_cookie_header'', JStr [])]"

definition on_api_request :: "GatewayEnv \<Rightarrow> json \<Rightarrow> Backend \<Rightarrow> outcome" where
  "on_api_request env j b =
     (if \<not> gateway_attached b then Answered b []
      else case request_view j of
             None \<Rightarrow> Thrown b
           | Some req \<Rightarrow>
               (case handle_http_request (HttpEnv.truncate env) req b of
                  None \<Rightarrow> Endless
                | Some (rep, b) \<Rightarrow> Answered b [api_response (request_id j) rep]))"

definition pong :: "json \<Rightarrow> json" where
  "pong j = jobj [(''type'', JStr ''pong''), (''nonce'', JInt (jnumber to_i64 ''nonce'' 0 j))]"

definition on_gateway_down_json :: "GatewayEnv \<Rightarrow> json \<Rightarrow> Backend \<Rightarrow> outcome" where
  "on_gateway_down_json env j b =
     (case jfield ''type'' j of
        Some (JStr t) \<Rightarrow>
          if t = ''client_register'' then on_client_register env j b
          else if t = ''client_unregister'' then on_client_unregister j b
          else if t = ''client_envelope'' then on_client_envelope env j b
          else if t = ''api_request'' then on_api_request env j b
          else if t = ''ping'' then Answered b (if gateway_attached b then [pong j] else [])
          else Answered b []
      | _ \<Rightarrow> Answered b [])"

text \<open>The gateway session reads the payload of a frame; an exception of any kind ends the connection.\<close>

definition lose_gateway :: "string list \<Rightarrow> Backend \<Rightarrow> Backend" where
  "lose_gateway ids b = take_over (detach_gateway ids (World.truncate b)) b"

definition on_frame :: "GatewayEnv \<Rightarrow> string \<Rightarrow> Backend \<Rightarrow> outcome" where
  "on_frame env payload b =
     (case parse_json env payload of
        None \<Rightarrow> Answered (lose_gateway (socket_order env) b) []
      | Some j \<Rightarrow>
          (case on_gateway_down_json env j b of
             Thrown b \<Rightarrow> Answered (lose_gateway (socket_order env) b) []
           | res \<Rightarrow> res))"

end
