(* ===== verification/Server_Runs.thy ===== *)
theory Server_Runs
  imports Gateway_Down
begin

section \<open>Runs of the whole server\<close>

text \<open>
  A run of the server is a sequence of frames from the gateway and of events of its own: the clock, the
  gateway that attaches or goes, a timer of an AI player. \<open>served_ok\<close> is what a run is judged by: the HTTP
  requests that were answered with 200, each with the day it was served on.
\<close>

definition initial_backend :: "int \<Rightarrow> bool \<Rightarrow> (int \<rightharpoonup> string) \<Rightarrow> Backend" where
  "initial_backend t snapshots names =
     World.extend (initial_world t snapshots names)
       \<lparr>java_profiles = Map.empty, user_store = no_users, leaderboard = Map.empty, auth_sessions = Map.empty,
        daily_claim_day = (\<lambda>_. 0), ad_reward_day = (\<lambda>_. 0), ad_reward_count = (\<lambda>_. 0),
        inventories = Map.empty, equipped_table_theme = (\<lambda>_. []), user_mmr = Map.empty,
        tournaments = [], match_rooms = Map.empty\<rparr>"

inductive own_event :: "Backend \<Rightarrow> Backend \<Rightarrow> bool" where
  clock: "now b \<le> t \<Longrightarrow> own_event b (b\<lparr>now := t\<rparr>)"
| attach: "own_event b (b\<lparr>gateway_attached := True\<rparr>)"
| lost: "own_event b (lose_gateway ids b)"
| ai_timer: "fire_ai_timer ch key (World.truncate b) = Inr w \<Longrightarrow> own_event b (take_over w b)"

definition request_in :: "GatewayEnv \<Rightarrow> string \<Rightarrow> HttpRequest option" where
  "request_in env payload =
     do {
       j \<leftarrow> parse_json env payload;
       if jfield ''type'' j = Some (JStr ''api_request'') then request_view j else None
     }"

definition served_ok :: "GatewayEnv \<Rightarrow> string \<Rightarrow> Backend \<Rightarrow> (HttpRequest \<times> int) list" where
  "served_ok env payload b =
     (case request_in env payload of
        None \<Rightarrow> []
      | Some req \<Rightarrow>
          (case handle_http_request (HttpEnv.truncate env) req b of
             Some (rep, _) \<Rightarrow>
               if gateway_attached b \<and> rp_status rep = 200 then [(req, current_day_bucket b)] else []
           | None \<Rightarrow> []))"

inductive server_run :: "Backend \<Rightarrow> (HttpRequest \<times> int) list \<Rightarrow> Backend \<Rightarrow> bool" for b0 where
  start: "server_run b0 [] b0"
| frame: "server_run b0 l b \<Longrightarrow> on_frame env payload b = Answered b' frames \<Longrightarrow>
    server_run b0 (l @ served_ok env payload b) b'"
| event: "server_run b0 l b \<Longrightarrow> own_event b b' \<Longrightarrow> server_run b0 l b'"

inductive reachable_server :: "Backend \<Rightarrow> bool" where
  boot: "0 \<le> t \<Longrightarrow> reachable_server (initial_backend t snapshots names)"
| recover: "0 \<le> t \<Longrightarrow> (\<And>key r. rs key = Some r \<Longrightarrow>
      \<exists>b r' ser de. reachable_server b \<and> rooms b key = Some r' \<and> snapshot_ok ser de r' \<and> r = restored_room t r') \<Longrightarrow>
    reachable_server ((initial_backend t True names)\<lparr>rooms := rs\<rparr>)"
| run: "reachable_server b \<Longrightarrow> server_run b l b' \<Longrightarrow> reachable_server b'"

subsection \<open>The part of the room worker\<close>

lemma truncate_with_world [simp]: "World.truncate (with_world w b) = w"
  by (simp add: with_world_def World.extend_def World.truncate_def)

lemma with_world_truncate [simp]: "with_world (World.truncate b) b = b"
  by (cases b) (simp add: with_world_def World.extend_def World.truncate_def)

lemma world_part_fields [simp]:
  "now (World.truncate b) = now b" "rooms (World.truncate b) = rooms b" "sessions (World.truncate b) = sessions b"
  "recorded_matches (World.truncate b) = recorded_matches b" "auth_usernames (World.truncate b) = auth_usernames b"
  "gateway_attached (World.truncate b) = gateway_attached b" "cached_users (World.truncate b) = cached_users b"
  by (simp_all add: World.truncate_def)

lemma truncate_writes [simp]:
  "World.truncate (b\<lparr>java_profiles := jp\<rparr>) = World.truncate b"
  "World.truncate (b\<lparr>user_store := us\<rparr>) = World.truncate b"
  "World.truncate (b\<lparr>leaderboard := lb\<rparr>) = World.truncate b"
  "World.truncate (b\<lparr>auth_sessions := as\<rparr>) = World.truncate b"
  "World.truncate (b\<lparr>daily_claim_day := dd\<rparr>) = World.truncate b"
  "World.truncate (b\<lparr>ad_reward_day := ad\<rparr>) = World.truncate b"
  "World.truncate (b\<lparr>ad_reward_count := ac\<rparr>) = World.truncate b"
  "World.truncate (b\<lparr>inventories := iv\<rparr>) = World.truncate b"
  "World.truncate (b\<lparr>equipped_table_theme := et\<rparr>) = World.truncate b"
  "World.truncate (b\<lparr>user_mmr := um\<rparr>) = World.truncate b"
  "World.truncate (b\<lparr>tournaments := tn\<rparr>) = World.truncate b"
  "World.truncate (b\<lparr>match_rooms := mr\<rparr>) = World.truncate b"
  by (simp_all add: World.truncate_def)

lemma truncate_settle [simp]: "World.truncate (fold settle_match ms b) = World.truncate b"
  by (induction ms arbitrary: b) (simp_all add: settle_match_def)

lemma truncate_take_over [simp]: "World.truncate (take_over w b) = w"
  by (simp add: take_over_def)

lemma take_over_same:
  "recorded_matches w = recorded_matches b \<Longrightarrow> take_over w b = with_world w b"
  by (simp add: take_over_def)

lemma cache_is_step: "cache_profile p b = take_over (cache_profile p (World.truncate b)) b"
  by (cases b) (simp add: take_over_same cache_profile_def with_world_def World.extend_def World.truncate_def)

lemma write_keeps_auth:
  fixes w :: World
  shows "auth_usernames (send_event sid n m w) = auth_usernames w" "now (send_event sid n m w) = now w"
  by (simp_all add: send_event_def send_envelope_def)

lemma close_room_frame [simp]:
  "auth_usernames (close_room key w res) = auth_usernames (snd res)" "now (close_room key w res) = now (snd res)"
  by (simp_all add: close_room_def Server.extend_def Server.truncate_def World.fields_def)

lemma open_room_auth [simp]: "auth_usernames (open_room w r) = auth_usernames w"
  by (simp add: open_room_def Server.extend_def Server.truncate_def Ctx.fields_def)

lemma end_session_frame: "auth_usernames (end_session sid w) = auth_usernames w \<and> now (end_session sid w) = now w"
  using evolves_frame(2,5)[OF evolves_disconnect[OF evolves.start]]
  by (simp add: end_session_def Let_def split: option.split)

lemma remove_session_frame: "auth_usernames (remove_session sid w) = auth_usernames w \<and> now (remove_session sid w) = now w"
  by (simp add: remove_session_def end_session_frame)

lemma step_frame: "step w w' \<Longrightarrow> auth_usernames w' = auth_usernames w \<and> now w \<le> now w'"
proof (induction rule: step.induct)
  case (detach w ids)
  have "auth_usernames (fold end_session ids v) = auth_usernames v \<and> now (fold end_session ids v) = now v" for v
    by (induction ids arbitrary: v) (simp_all add: end_session_frame)
  then show ?case by (simp add: detach_gateway_def)
next
  case (message ch req sid w w')
  then show ?case
  proof (cases rule: on_ws_message_cases)
    case (handled s r res)
    then show ?thesis using evolves_frame(2,5)[OF evolves_handle_request[OF handled(3)]] by simp
  qed (simp_all add: send_error_def write_keeps_auth)
next
  case (create draws owner vis hands stack type w code w')
  then show ?case
    by (auto simp: create_room_for_user_def ensure_room_def Let_def touch_room_snapshot_def split: option.splits)
next
  case (ai_timer ch key w w')
  show ?case
  proof (cases "rooms w key")
    case (Some r)
    obtain d where d: "ai_timer_fires (uniform ch) (open_room w r) = Inr d" "w' = close_room key w (False, d)"
      using ai_timer Some by (cases "ai_timer_fires (uniform ch) (open_room w r)") (auto simp: fire_ai_timer_def)
    have "evolves False False (open_room w r) d"
      using d(1) evolves_ai_timer[OF evolves.start, of False False "open_room w r" "uniform ch"]
      by (simp add: evolves_res_def)
    then show ?thesis unfolding d(2) using evolves_frame(2,5) by simp
  qed (use ai_timer in \<open>simp add: fire_ai_timer_def\<close>)
next
  case (notify w order code threshold uid)
  have "auth_usernames (fold (notify_session code threshold uid) order v) = auth_usernames v \<and>
    now (fold (notify_session code threshold uid) order v) = now v" for v :: World
    by (induction order arbitrary: v) (simp_all add: notify_session_def write_keeps_auth split: option.split)
  then show ?case by (simp add: notify_match_def)
qed (simp_all add: client_register_def Let_def remove_session_frame write_keeps_auth cache_profile_def)

subsection \<open>What a request may change\<close>

text \<open>
  \<open>moves b c\<close>: from \<open>b\<close> to \<open>c\<close> the room worker made steps of its own and the books of the HTTP interface were
  written the way they may be, the tables of the rewards apart. \<open>shelf\<close> is the inventory everybody starts with.
\<close>

definition shelf :: "string list" where
  "shelf = [''rose-table'', ''starlight-frame'', ''soft-heart-emote'']"

inductive moves :: "Backend \<Rightarrow> Backend \<Rightarrow> bool" for b where
  stay: "moves b b"
| world: "moves b c \<Longrightarrow> step (World.truncate c) w \<Longrightarrow> moves b (take_over w c)"
| mmr: "moves b c \<Longrightarrow> moves b (c\<lparr>user_mmr := (user_mmr c)(uid \<mapsto> 1000)\<rparr>)"
| items: "moves b c \<Longrightarrow> moves b (c\<lparr>inventories := (inventories c)(uid \<mapsto> shelf)\<rparr>)"
| theme: "moves b c \<Longrightarrow> inventories c uid = Some its \<Longrightarrow> item \<in> set its \<Longrightarrow>
    moves b (c\<lparr>equipped_table_theme := (equipped_table_theme c)(uid := item)\<rparr>)"
| expire: "moves b c \<Longrightarrow> moves b (c\<lparr>auth_sessions := (auth_sessions c)(cookie := None)\<rparr>)"
| profile: "moves b c \<Longrightarrow> 0 < ud_user_id p \<Longrightarrow> moves b (c\<lparr>java_profiles := (java_profiles c)(ud_user_id p \<mapsto> p)\<rparr>)"
| load: "moves b c \<Longrightarrow> moves b (c\<lparr>user_store := snd (load_or_create key name (user_store c))\<rparr>)"
| seed: "moves b c \<Longrightarrow> tournaments c = [] \<Longrightarrow> moves b (c\<lparr>tournaments := seeded_tournaments t\<rparr>)"
| register: "moves b c \<Longrightarrow> find (\<lambda>t. to_id t = tid) (tournaments c) = Some t \<Longrightarrow>
    int (card (to_registered t)) < to_max_players t \<Longrightarrow>
    moves b (c\<lparr>tournaments := update_first (\<lambda>t. to_id t = tid) (register_player uid) (tournaments c)\<rparr>)"
| forget: "moves b c \<Longrightarrow> moves b (c\<lparr>match_rooms := (match_rooms c)(m := None)\<rparr>)"
| link_match: "moves b c \<Longrightarrow> m \<noteq> [] \<Longrightarrow> length code = 6 \<Longrightarrow> moves b (c\<lparr>match_rooms := (match_rooms c)(m \<mapsto> code)\<rparr>)"

named_theorems moving

lemmas [moving] = moves.stay moves.mmr moves.items moves.expire moves.load moves.forget

lemma moves_trans: "moves c d \<Longrightarrow> moves b c \<Longrightarrow> moves b d"
  by (induction rule: moves.induct) (auto intro: moves.intros)

lemma moves_cache [moving]: "moves b c \<Longrightarrow> moves b (cache_profile p c)"
  using moves.world[OF _ step.profile] cache_is_step[of p c] by simp

lemma moves_keep_profile: "moves b c \<Longrightarrow> 0 < ud_user_id p \<Longrightarrow> moves b (keep_profile p c)"
  unfolding keep_profile_def by (intro moves_cache moves.profile)

lemma gateway_profile_id: "gateway_profile j = Some p \<Longrightarrow> 0 < ud_user_id p"
  by (auto simp: gateway_profile_def split: Option.bind_splits if_splits)

lemma moves_gateway_profile [moving]: "moves b c \<Longrightarrow> moves b (apply_gateway_profile_b64 env encoded c)"
  by (auto simp: apply_gateway_profile_b64_def bind_eq_Some_conv intro: moves_keep_profile gateway_profile_id split: option.split)

lemma moves_http_session: "find_http_session cookies b = (a, c) \<Longrightarrow> moves b c"
  by (auto simp: find_http_session_def intro: moving split: option.splits if_splits)

lemma moves_resolve: "resolve_auth_http env req b = (a, c) \<Longrightarrow> moves b c"
  by (auto simp: resolve_auth_http_def intro: moving moves_http_session split: option.splits if_splits)

lemma moves_get_profile: "get_profile_by_user_id uid b = (p, c) \<Longrightarrow> moves b c"
  by (auto simp: get_profile_by_user_id_def split_beta Let_def intro!: moving split: option.splits if_splits)

subsection \<open>The requests that make rooms\<close>

text \<open>The world after a room was made, written out.\<close>

definition fresh_room :: "int \<Rightarrow> string \<Rightarrow> int \<Rightarrow> string \<Rightarrow> int \<Rightarrow> int \<Rightarrow> string \<Rightarrow> Room" where
  "fresh_room t code owner vis hands stack type =
     set_up_room t code owner vis hands stack type ((default_room t)\<lparr>room_id := code, room_code := code\<rparr>)"

definition with_fresh_room :: "string \<Rightarrow> Room \<Rightarrow> World \<Rightarrow> World" where
  "with_fresh_room code r w =
     w\<lparr>snapshot_timers := (if snapshots_on w then insert code (snapshot_timers w) else snapshot_timers w),
       rooms := (rooms w)(code \<mapsto> r)\<rparr>"

lemma create_room_written:
  "create_room_for_user draws owner vis hands stack type w =
     map_option (\<lambda>code. (code, with_fresh_room code (fresh_room (now w) code owner vis hands stack type) w))
       (unused_room_code draws (rooms w) 0)"
proof (cases "unused_room_code draws (rooms w) 0")
  case (Some code)
  then have "rooms w code = None" using unused_room_code_some by blast
  with Some show ?thesis
    by (cases w) (simp add: create_room_for_user_def ensure_room_def Let_def touch_room_snapshot_def fresh_room_def
        with_fresh_room_def close_room_def open_room_def Server.extend_def Server.truncate_def World.fields_def
        Ctx.fields_def set_up_room_def default_room_def)
qed (simp add: create_room_for_user_def)

lemma room_code_fresh: "room_code (fresh_room t code owner vis hands stack type) = code"
  by (simp add: fresh_room_def set_up_room_def Let_def)

lemma bean_match_room:
  "as_bean_match type (fresh_room t code owner vis hands stack type) =
   fresh_room t code owner (if type = ''bean_match'' then ''matchmaking'' else vis) hands stack type"
  by (simp add: as_bean_match_def fresh_room_def set_up_room_def Let_def)

lemma rooms_with_fresh [simp]: "rooms (with_fresh_room code r w) = (rooms w)(code \<mapsto> r)"
  by (simp add: with_fresh_room_def)

lemma with_fresh_room_again:
  "with_fresh_room code r w\<lparr>rooms := (rooms w)(code \<mapsto> r')\<rparr> = with_fresh_room code r' w"
  "with_fresh_room code r (World.truncate b)\<lparr>rooms := (rooms b)(code \<mapsto> r')\<rparr> = with_fresh_room code r' (World.truncate b)"
  by (simp_all add: with_fresh_room_def)

lemma unused_code_length: "unused_room_code draws rs k = Some code \<Longrightarrow> length code = 6"
  using unused_room_code_some by (fastforce simp: next_room_code_def)

lemma moves_fresh_room:
  assumes "moves b c" and "unused_room_code draws (rooms c) 0 = Some code"
  shows "moves b (with_world (with_fresh_room code (fresh_room (now c) code owner vis hands stack type) (World.truncate c)) c)"
proof -
  have "step (World.truncate c) (with_fresh_room code (fresh_room (now c) code owner vis hands stack type) (World.truncate c))"
    by (rule step.create[of draws owner vis hands stack type _ code]) (simp add: create_room_written assms(2))
  from moves.world[OF assms(1) this] show ?thesis by (simp add: take_over_same with_fresh_room_def)
qed

subsection \<open>What each request may change\<close>

definition served_moves :: "Backend \<Rightarrow> served \<Rightarrow> bool" where
  "served_moves b res \<longleftrightarrow> (\<forall>rep c. res = Some (rep, c) \<longrightarrow> moves b c)"

lemma served_moves_simps [simp]:
  "served_moves b (Some (rep, c)) = moves b c" "served_moves b None"
  by (simp_all add: served_moves_def)

lemma moves_mmr [moving]: "moves b c \<Longrightarrow> moves b (snd (bean_mmr uid c))"
  by (auto simp: bean_mmr_def intro: moving split: option.split)

lemma moves_bean [moving]: "moves b c \<Longrightarrow> moves b (snd (bean_profile_json p c))"
  by (auto simp: bean_profile_json_def split_beta Let_def intro: moving)

lemma moves_user_inventory [moving]: "moves b c \<Longrightarrow> moves b (snd (user_inventory uid c))"
  by (auto simp: user_inventory_def Let_def shelf_def[symmetric] intro: moving split: option.split)

lemma moves_inventory [moving]: "moves b c \<Longrightarrow> moves b (snd (inventory_json uid c))"
  by (auto simp: inventory_json_def split_beta Let_def intro: moving)

lemma moves_seed [moving]: "moves b c \<Longrightarrow> moves b (ensure_tournaments_seeded c)"
  by (auto simp: ensure_tournaments_seeded_def intro: moves.seed)

lemma moves_tournaments [moving]: "moves b c \<Longrightarrow> moves b (snd (tournaments_json uid c))"
  by (auto simp: tournaments_json_def Let_def intro: moving)

lemma moves_tournament_items [moving]: "moves b c \<Longrightarrow> moves b (snd (tournaments_items_json uid c))"
  by (auto simp: tournaments_items_json_def split_beta Let_def intro: moving)

lemma moves_user_pages [moving]:
  "moves b c \<Longrightarrow> moves b (snd (home_overview p c))" "moves b c \<Longrightarrow> moves b (snd (profile_me p c))"
  "moves b c \<Longrightarrow> moves b (snd (beans_profile p c))" "moves b c \<Longrightarrow> moves b (snd (inventory_of a c))"
  "moves b c \<Longrightarrow> moves b (snd (tournaments_of a c))"
  unfolding home_overview_def home_overview_json_def profile_me_def beans_profile_def inventory_of_def
    tournaments_of_def split_beta Let_def snd_conv
  by (assumption | intro moving)+

lemma user_inventory_filed: "inventories (snd (user_inventory uid b)) uid = Some (fst (user_inventory uid b))"
  by (simp add: user_inventory_def Let_def split: option.split)

lemma moves_equip [moving]: "moves b c \<Longrightarrow> moves b (snd (equip form a c))"
  using moves.theme[OF moves_user_inventory user_inventory_filed, of b c _ "as_user_id a"] moves_user_inventory[of b c]
  by (simp add: equip_def split_beta Let_def)

lemma moves_register [moving]: "moves b c \<Longrightarrow> moves b (snd (tournament_register uri a c))"
  by (auto simp: tournament_register_def Let_def intro: moving moves.register split: option.split)

lemma with_world_send:
  "sessions (with_world w b) = sessions w"
  "send_event sid n m (with_world w b) = with_world (send_event sid n m w) b"
  by (simp_all add: send_event_def send_envelope_def with_world_def World.extend_def)

lemma moves_notify [moving]: "moves b c \<Longrightarrow> moves b (notify_match order code threshold uid c)"
proof -
  have keeps: "recorded_matches (fold (notify_session code threshold uid) order w) = recorded_matches w"
    for w :: World
    by (induction order arbitrary: w)
       (simp_all add: notify_session_def send_event_def send_envelope_def split: option.split)
  have one: "notify_session code threshold uid sid (with_world w d) = with_world (notify_session code threshold uid sid w) d"
    for sid w and d :: Backend
    by (cases "sessions w sid") (simp_all add: notify_session_def with_world_send)
  have all: "fold (notify_session code threshold uid) order (with_world w d) =
      with_world (fold (notify_session code threshold uid) order w) d" for w and d :: Backend
    by (induction order arbitrary: w) (simp_all add: one)
  have "c\<lparr>pending_match_rooms := (pending_match_rooms c)(uid \<mapsto> code)\<rparr> =
      with_world ((World.truncate c)\<lparr>pending_match_rooms := (pending_match_rooms (World.truncate c))(uid \<mapsto> code)\<rparr>) c"
    by (cases c) (simp add: with_world_def World.extend_def World.truncate_def)
  then have "notify_match order code threshold uid c = take_over (notify_match order code threshold uid (World.truncate c)) c"
    by (simp add: notify_match_def all take_over_same keeps)
  then show "moves b c \<Longrightarrow> ?thesis" using moves.world[OF _ step.notify] by simp
qed

lemma moves_match_notify [moving]: "moves b c \<Longrightarrow> moves b (snd (match_notify env body c))"
proof -
  have "moves b c \<Longrightarrow> moves b (fold (notify_match order code threshold) ids c)" for order code threshold ids
    by (induction ids arbitrary: c) (simp_all add: moving)
  then show "moves b c \<Longrightarrow> ?thesis"
    by (auto simp: match_notify_def Let_def split: option.split json.split)
qed

lemma match_room_empty [simp]: "match_room [] b = None"
  by (simp add: match_room_def)

lemma room_create_cases:
  assumes "room_create env form p b = Some (rep, c)"
  obtains (known) r where "match_room (form_value ''matchId'' [] form) b = Some r" "rep = room_reply r" "c = b"
  | (made) code d r where "unused_room_code (code_draws env) (rooms b) 0 = Some code"
      "match_room (form_value ''matchId'' [] form) b = None"
      "d = (if form_value ''matchId'' [] form = [] then b
            else b\<lparr>match_rooms := (match_rooms b)(form_value ''matchId'' [] form := None)\<rparr>)"
      "r = fresh_room (now b) code (ud_user_id p)
             (if form_value ''roomType'' ''friend'' form = ''bean_match'' then ''matchmaking''
              else form_value ''visibility'' ''private'' form)
             (form_hands form) (form_chips form) (form_value ''roomType'' ''friend'' form)"
      "rep = room_reply r"
      "c = (let e = with_world (with_fresh_room code r (World.truncate d)) d
            in if form_value ''matchId'' [] form = [] then e
               else e\<lparr>match_rooms := (match_rooms e)(form_value ''matchId'' [] form \<mapsto> code)\<rparr>)"
proof (cases "match_room (form_value ''matchId'' [] form) b")
  case (Some r)
  with known assms show thesis by (simp add: room_create_def)
next
  case None
  define d where "d = (if form_value ''matchId'' [] form = [] then b
            else b\<lparr>match_rooms := (match_rooms b)(form_value ''matchId'' [] form := None)\<rparr>)"
  have d: "rooms d = rooms b" "now d = now b" by (simp_all add: d_def)
  have "unused_room_code (code_draws env) (rooms b) 0 = None \<Longrightarrow> room_create env form p b = None"
    using None by (cases "form_value ''matchId'' [] form = []") (simp_all add: room_create_def create_room_written Let_def)
  with assms obtain code where code: "unused_room_code (code_draws env) (rooms b) 0 = Some code"
    by (cases "unused_room_code (code_draws env) (rooms b) 0") simp_all
  let ?r = "fresh_room (now b) code (ud_user_id p)
             (if form_value ''roomType'' ''friend'' form = ''bean_match'' then ''matchmaking''
              else form_value ''visibility'' ''private'' form)
             (form_hands form) (form_chips form) (form_value ''roomType'' ''friend'' form)"
  have "room_create env form p b = Some (room_reply ?r,
      (let e = with_world (with_fresh_room code ?r (World.truncate d)) d
       in if form_value ''matchId'' [] form = [] then e
          else e\<lparr>match_rooms := (match_rooms e)(form_value ''matchId'' [] form \<mapsto> code)\<rparr>))"
    by (cases "form_value ''matchId'' [] form = []")
       (simp_all add: room_create_def None code create_room_written bean_match_room with_fresh_room_again
         room_code_fresh d_def Let_def rooms_with_fresh)
  with assms show thesis by (intro made[OF code None d_def refl]) simp_all
qed

lemma moves_fresh_link:
  assumes "moves b c" and "unused_room_code draws (rooms c) 0 = Some code" and "m \<noteq> []"
    and "r = fresh_room (now c) code owner vis hands stack type"
  shows "moves b (let e = with_world (with_fresh_room code r (World.truncate c)) c
                  in e\<lparr>match_rooms := (match_rooms e)(m \<mapsto> code)\<rparr>)"
  unfolding Let_def assms(4)
  by (rule moves.link_match[OF moves_fresh_room[OF assms(1,2)] assms(3) unused_code_length[OF assms(2)]])

lemma moves_room_create:
  assumes "room_create env form p b = Some (rep, c)"
  shows "moves b c"
  using assms
proof (cases rule: room_create_cases)
  case (made code d r)
  let ?m = "form_value ''matchId'' [] form"
  have d: "moves b d" "rooms d = rooms b" "now d = now b"
    unfolding made(3) by (auto intro: moving)
  show ?thesis
  proof (cases "?m = []")
    case True
    then show ?thesis
      using moves_fresh_room[OF d(1), of "code_draws env" code] made(1) d(2,3) unfolding made(6) made(4)
      by (simp add: Let_def)
  next
    case False
    then show ?thesis
      using moves_fresh_link[OF d(1) _ False, of "code_draws env" code] made(1,4) d(2,3) unfolding made(6)
      by (simp add: Let_def)
  qed
qed (simp add: moves.stay)

lemma moves_friend_room_create: "friend_room_create env form p b = Some (rep, c) \<Longrightarrow> moves b c"
  using moves_fresh_room[OF moves.stay[of b], of "code_draws env"]
  by (auto simp: friend_room_create_def create_room_written split: option.splits)

lemma with_login_cases:
  assumes "with_login auth k b = Some (rep, c)"
  obtains (refused) "auth = None" "rep = failure 401 ''Login required.''" "c = b"
  | (served) a where "auth = Some a" "k a b = Some (rep, c)"
  using assms by (auto simp: with_login_def split: option.splits)

lemma with_profile_cases:
  assumes "with_profile auth k b = Some (rep, c)"
  obtains (refused) msg where "rep = failure 401 msg" "moves b c"
  | (served) a p d where "auth = Some a" "get_profile_by_user_id (as_user_id a) b = (Some p, d)" "k p d = Some (rep, c)"
      "moves b d"
  using assms unfolding with_profile_def
  by (cases rule: with_login_cases)
     (auto intro: that moves.stay moves_get_profile split: prod.splits option.splits)

subsection \<open>The rewards\<close>

lemma moves_cache_bean [simp]: "moves b (snd (bean_profile_json p (cache_profile p b)))"
  by (intro moving)

lemma claim_daily_cases:
  assumes "claim_daily p b = (rep, c)"
  obtains (refused) "rp_status rep = 409" "c = b"
  | (granted) "rp_status rep = 200" "daily_claim_day b (ud_user_id p) \<noteq> current_day_bucket b"
      "moves (b\<lparr>daily_claim_day := (daily_claim_day b)(ud_user_id p := current_day_bucket b)\<rparr>) c"
  using assms
  by (auto simp: claim_daily_def Let_def split_beta failure_def success_def send_json_def
      intro: that split: if_splits)

lemma ad_reward_cases:
  assumes "ad_reward p b = (rep, c)"
  obtains (refused) "rp_status rep = 409" "c = new_ad_day (ud_user_id p) b"
  | (granted) d where "rp_status rep = 200" "d = new_ad_day (ud_user_id p) b" "ad_reward_count d (ud_user_id p) < 3"
      "moves (d\<lparr>ad_reward_count := (ad_reward_count d)(ud_user_id p := ad_reward_count d (ud_user_id p) + 1)\<rparr>) c"
  using assms
  by (auto simp: ad_reward_def Let_def split_beta failure_def success_def send_json_def
      intro: that split: if_splits)

definition claims_daily :: "HttpRequest \<Rightarrow> bool" where
  "claims_daily req \<longleftrightarrow> route ''POST'' ''/api/beans/claim-daily'' req"

definition claims_ad :: "HttpRequest \<Rightarrow> bool" where
  "claims_ad req \<longleftrightarrow> route ''POST'' ''/api/beans/ad-reward'' req"

lemma starts_with_append: "starts_with s t \<longleftrightarrow> (\<exists>v. s = t @ v)"
  unfolding starts_with_def by (metis append_eq_conv_conj append_take_drop_id)

lemma starts_with_query:
  assumes "starts_with u t" and "CHR ''?'' \<notin> set t"
  shows "starts_with (before_query u) t"
proof -
  obtain v where "u = t @ v" using assms(1) starts_with_append by blast
  then have "before_query u = t @ before_query v"
    using assms(2) takeWhile_append2[of t "\<lambda>c. c \<noteq> CHR ''?''" v] unfolding before_query_def by fastforce
  then show ?thesis by (simp add: starts_with_def)
qed

text \<open>What a request does: nothing to the rewards, or it claims one.\<close>

lemma served_Some [simp]: "served_moves b (Some res) = moves b (snd res)"
  by (cases res) simp

lemma served_if: "(P \<Longrightarrow> served_moves b x) \<Longrightarrow> (\<not> P \<Longrightarrow> served_moves b y) \<Longrightarrow> served_moves b (if P then x else y)"
  by simp

lemma served_with_login: "(\<And>a. served_moves b (k a b)) \<Longrightarrow> served_moves b (with_login auth k b)"
  by (auto simp: with_login_def moves.stay split: option.split)

lemma served_with_profile:
  assumes "\<And>p d. moves b d \<Longrightarrow> served_moves b (k p d)"
  shows "served_moves b (with_profile auth k b)"
  unfolding with_profile_def
  by (intro served_with_login) (auto intro: assms moves_get_profile split: prod.split option.split)

lemma served_trans: "(\<And>rep c. res = Some (rep, c) \<Longrightarrow> moves d c) \<Longrightarrow> moves b d \<Longrightarrow> served_moves b res"
  by (auto simp: served_moves_def intro: moves_trans)

lemma room_request_moves: "served_moves b (room_request env req auth b)"
  unfolding room_request_def Let_def
  by (intro served_if served_with_login served_with_profile)
     (auto intro: served_trans[OF moves_friend_room_create] served_trans[OF moves_room_create] moves.stay)

lemma user_request_quiet:
  assumes "\<not> claims_daily req" "\<not> claims_ad req"
  shows "served_moves b (user_request env req auth b)"
  unfolding user_request_def claims_daily_def[symmetric] claims_ad_def[symmetric]
  by (intro served_if served_with_login served_with_profile room_request_moves)
     (use assms in \<open>simp_all add: moving\<close>)

lemma user_request_rewards:
  assumes "\<not> starts_with (rq_uri req) ''/api/leaderboard''"
  shows "claims_daily req \<Longrightarrow> user_request env req auth b = with_profile auth (\<lambda>p b. Some (claim_daily p b)) b"
    and "claims_ad req \<Longrightarrow> user_request env req auth b = with_profile auth (\<lambda>p b. Some (ad_reward p b)) b"
  using assms by (simp_all add: user_request_def claims_daily_def claims_ad_def route_def)

lemma early_reply_moves:
  assumes "early_reply env req b = Some (rep, c)"
  shows "moves b c" and "\<not> claims_daily req \<and> \<not> claims_ad req"
proof -
  show "moves b c"
    using assms moves_match_notify[OF moves.stay, of b env "rq_body req"]
    by (auto simp: early_reply_def intro: moves.stay split: if_splits)
  show "\<not> claims_daily req \<and> \<not> claims_ad req"
    using assms by (auto simp: early_reply_def claims_daily_def claims_ad_def route_def split: if_splits)
qed

text \<open>Who a request speaks for: the user, the profile, and the state once both are known.\<close>

definition speaks_for :: "HttpEnv \<Rightarrow> HttpRequest \<Rightarrow> Backend \<Rightarrow> AuthSession \<Rightarrow> UserProfileData \<Rightarrow> Backend \<Rightarrow> bool" where
  "speaks_for env req b a p d \<longleftrightarrow>
     (\<exists>b0. resolve_auth_http env req b = (Some a, b0) \<and> get_profile_by_user_id (as_user_id a) b0 = (Some p, d))"

lemma speaks_for_moves: "speaks_for env req b a p d \<Longrightarrow> moves b d"
  by (auto simp: speaks_for_def intro: moves_trans[OF moves_get_profile] moves_resolve)

lemma http_request_cases:
  assumes "handle_http_request env req b = Some (rep, c)" and "rq_clean_uri req = before_query (rq_uri req)"
  obtains (quiet) "moves b c" "\<not> (rp_status rep = 200 \<and> (claims_daily req \<or> claims_ad req))"
  | (daily) a p d where "claims_daily req" "speaks_for env req b a p d" "claim_daily p d = (rep, c)"
  | (ad) a p d where "claims_ad req" "speaks_for env req b a p d" "ad_reward p d = (rep, c)"
proof (cases "early_reply env req b")
  case (Some res)
  with assms(1) have "early_reply env req b = Some (rep, c)" by (simp add: handle_http_request_def)
  from early_reply_moves[OF this] show thesis by (intro quiet) auto
next
  case None
  obtain auth b0 where auth: "resolve_auth_http env req b = (auth, b0)" by fastforce
  have served: "user_request env req auth b0 = Some (rep, c)"
    using assms(1) None by (simp add: handle_http_request_def auth)
  have b0: "moves b b0" using moves_resolve[OF auth] .
  show thesis
  proof (cases "claims_daily req \<or> claims_ad req")
    case False
    then show thesis
      using user_request_quiet[of req b0 env auth] served moves_trans[OF _ b0]
      by (intro quiet) (auto simp: served_moves_def)
  next
    case True
    have "\<not> starts_with (rq_uri req) ''/api/leaderboard''"
      using True assms(2) starts_with_query[of "rq_uri req" "''/api/leaderboard''"]
      by (auto simp: claims_daily_def claims_ad_def route_def starts_with_def)
    note reward = user_request_rewards[OF this, of env auth b0]
    have refused: thesis if "with_profile auth k b0 = Some (failure 401 msg, c)" "rep = failure 401 msg" "moves b0 c" for k msg
      using that moves_trans[OF _ b0] by (intro quiet) (auto simp: failure_def send_json_def)
    from True show thesis
    proof
      assume claims: "claims_daily req"
      from served[unfolded reward(1)[OF claims]] show thesis
        by (rule with_profile_cases) (use served reward(1) claims refused daily auth in \<open>auto simp: speaks_for_def\<close>)
    next
      assume claims: "claims_ad req"
      from served[unfolded reward(2)[OF claims]] show thesis
        by (rule with_profile_cases) (use served reward(2) claims refused ad auth in \<open>auto simp: speaks_for_def\<close>)
    qed
  qed
qed

subsection \<open>Frames and events\<close>

lemma moves_own_event: "own_event b c \<Longrightarrow> moves b c"
proof (induction rule: own_event.induct)
  case (clock b t)
  have "b\<lparr>now := t\<rparr> = take_over ((World.truncate b)\<lparr>now := t\<rparr>) b"
    by (cases b) (simp add: take_over_same with_world_def World.extend_def World.truncate_def)
  then show ?case using moves.world[OF moves.stay step.clock, of b t] clock by simp
next
  case (attach b)
  have "b\<lparr>gateway_attached := True\<rparr> = take_over ((World.truncate b)\<lparr>gateway_attached := True\<rparr>) b"
    by (cases b) (simp add: take_over_same with_world_def World.extend_def World.truncate_def)
  then show ?case using moves.world[OF moves.stay step.attach, of b] by simp
next
  case (lost b ids)
  show ?case unfolding lose_gateway_def by (rule moves.world[OF moves.stay step.detach])
next
  case (ai_timer ch key b w)
  show ?case by (rule moves.world[OF moves.stay step.ai_timer[OF ai_timer]])
qed

lemma moves_leave [moving]: "moves b c \<Longrightarrow> moves b (take_over (remove_session sid (World.truncate c)) c)"
  by (rule moves.world[OF _ step.leave])

lemma moves_bind_http: "bind_http_session_to_socket cookies s b = (s', c) \<Longrightarrow> moves b c"
  by (auto simp: bind_http_session_to_socket_def intro: moves_trans[OF moves_get_profile] moves_http_session
      split: prod.splits option.splits)

lemma moves_bind:
  "bind_gateway_or_cookie_session env j s b = Inl c \<Longrightarrow> moves b c"
  "bind_gateway_or_cookie_session env j s b = Inr (s', c) \<Longrightarrow> moves b c"
  by (auto simp: bind_gateway_or_cookie_session_def Let_def
      intro: moving moves_bind_http moves_trans[OF moves_get_profile] split: option.splits if_splits prod.splits)

text \<open>\<open>outcome_moves b res\<close>: whatever state the outcome leaves, \<open>b\<close> moves to it.\<close>

definition outcome_moves :: "Backend \<Rightarrow> outcome \<Rightarrow> bool" where
  "outcome_moves b res = (case res of Answered c _ \<Rightarrow> moves b c | Thrown c \<Rightarrow> moves b c | _ \<Rightarrow> True)"

lemma outcome_moves_simps [simp]:
  "outcome_moves b (Answered c fs) = moves b c" "outcome_moves b (Thrown c) = moves b c"
  "outcome_moves b Endless" "outcome_moves b (Faulted f)"
  by (simp_all add: outcome_moves_def)

lemma moves_client_register: "outcome_moves b (on_client_register env j b)"
proof -
  have bound: "outcome_moves b (case bind_gateway_or_cookie_session e j s d of
      Inl c \<Rightarrow> Thrown c | Inr (s', c) \<Rightarrow> Answered (take_over (client_register s' (World.truncate c)) c) [])"
    if "moves b d" for e s d
    by (auto intro: moves_trans[OF moves_bind(1) that] moves.world[OF moves_trans[OF moves_bind(2) that] step.register]
        split: sum.split)
  show ?thesis
    by (auto simp: on_client_register_def Let_def intro!: bound moves_leave moves.stay split: option.split)
qed

lemma moves_ws_bytes: "outcome_moves b (on_ws_bytes env sid bytes b)"
  by (auto simp: on_ws_bytes_def close_ws_protocol_error_def intro: moving moves.world[OF moves.stay step.message]
      split: ws_input.split sum.split)

lemma moves_client_envelope: "outcome_moves b (on_client_envelope env j b)"
  by (auto simp: on_client_envelope_def moves_ws_bytes intro: moving split: option.split)

lemma moves_client_unregister: "outcome_moves b (on_client_unregister j b)"
  by (auto simp: on_client_unregister_def intro: moving split: option.split)

lemma moves_down_json:
  assumes "jfield ''type'' j \<noteq> Some (JStr ''api_request'')"
  shows "outcome_moves b (on_gateway_down_json env j b)"
  using assms
  by (auto simp: on_gateway_down_json_def moves_client_register moves_client_envelope moves_client_unregister
      intro: moving split: option.split json.split)

lemma frame_cases:
  assumes "on_frame env payload b = Answered c fs"
  obtains (quiet) "moves b c" "served_ok env payload b = []"
  | (request) req rep where "request_in env payload = Some req" "gateway_attached b"
      "handle_http_request (HttpEnv.truncate env) req b = Some (rep, c)"
      "served_ok env payload b = (if rp_status rep = 200 then [(req, current_day_bucket b)] else [])"
proof -
  have lose: "moves b (lose_gateway ids d)" if "moves b d" for ids d
    using moves_trans[OF moves_own_event[OF own_event.lost] that] .
  show thesis
  proof (cases "parse_json env payload")
    case None
    then show thesis
      using assms lose[OF moves.stay] by (intro quiet) (auto simp: on_frame_def served_ok_def request_in_def)
  next
    case (Some j)
    show thesis
    proof (cases "jfield ''type'' j = Some (JStr ''api_request'')")
      case False
      then show thesis
        using assms Some lose moves_down_json[OF False, of b env]
        by (intro quiet) (auto simp: on_frame_def served_ok_def request_in_def split: outcome.splits)
    next
      case api: True
      have "on_gateway_down_json env j b = on_api_request env j b"
        by (simp add: on_gateway_down_json_def api)
      then show thesis
        using assms Some api lose[OF moves.stay] moves.stay[of b] request quiet
        by (auto simp: on_frame_def on_api_request_def served_ok_def request_in_def
            split: outcome.splits option.splits if_splits)
    qed
  qed
qed

subsection \<open>The server refines the room worker\<close>

lemma moves_steps: "moves b c \<Longrightarrow> step\<^sup>*\<^sup>* (World.truncate b) (World.truncate c)"
  by (induction rule: moves.induct) (auto intro: rtranclp.rtrancl_into_rtrancl)

lemma new_ad_day_truncate [simp]: "World.truncate (new_ad_day uid b) = World.truncate b"
  by (simp add: new_ad_day_def Let_def)

lemma request_steps:
  assumes "handle_http_request env req b = Some (rep, c)" and "rq_clean_uri req = before_query (rq_uri req)"
  shows "step\<^sup>*\<^sup>* (World.truncate b) (World.truncate c)"
  using assms
proof (cases rule: http_request_cases)
  case quiet
  then show ?thesis by (intro moves_steps) simp
next
  case (daily a p d)
  from daily(3) have "step\<^sup>*\<^sup>* (World.truncate d) (World.truncate c)"
    by (cases rule: claim_daily_cases) (auto dest: moves_steps)
  then show ?thesis using moves_steps[OF speaks_for_moves[OF daily(2)]] by (rule rtranclp_trans[rotated])
next
  case (ad a p d)
  from ad(3) have "step\<^sup>*\<^sup>* (World.truncate d) (World.truncate c)"
    by (cases rule: ad_reward_cases) (auto dest: moves_steps)
  then show ?thesis using moves_steps[OF speaks_for_moves[OF ad(2)]] by (rule rtranclp_trans[rotated])
qed

lemma request_in_uri: "request_in env payload = Some req \<Longrightarrow> rq_clean_uri req = before_query (rq_uri req)"
  by (auto simp: request_in_def request_view_def split: Option.bind_splits if_splits)

lemma server_run_steps: "server_run b l c \<Longrightarrow> step\<^sup>*\<^sup>* (World.truncate b) (World.truncate c)"
proof (induction rule: server_run.induct)
  case (frame l c env payload d frames)
  from frame.hyps(2) have "step\<^sup>*\<^sup>* (World.truncate c) (World.truncate d)"
    by (cases rule: frame_cases) (auto intro: moves_steps request_steps request_in_uri)
  with frame.IH show ?case by (rule rtranclp_trans)
next
  case (event l c d)
  then show ?case using moves_steps[OF moves_own_event] by (meson rtranclp_trans)
qed simp

lemma reachable_steps: "step\<^sup>*\<^sup>* w w' \<Longrightarrow> reachable w \<Longrightarrow> reachable w'"
  by (induction rule: rtranclp.induct) (auto intro: reachable.run)

lemma truncate_initial [simp]: "World.truncate (initial_backend t snapshots names) = initial_world t snapshots names"
  by (simp add: initial_backend_def World.extend_def World.truncate_def)

lemma truncate_rooms: "World.truncate (b\<lparr>rooms := rs\<rparr>) = (World.truncate b)\<lparr>rooms := rs\<rparr>"
  by (simp add: World.truncate_def)

lemma server_reaches_worlds: "reachable_server b \<Longrightarrow> reachable (World.truncate b)"
proof (induction rule: reachable_server.induct)
  case (recover t rs names)
  have "\<exists>w r' ser de. reachable w \<and> rooms w key = Some r' \<and> snapshot_ok ser de r' \<and> r = restored_room t r'"
    if "rs key = Some r" for key r
    using recover(2)[OF that] world_part_fields(2) by metis
  then show ?case unfolding truncate_rooms truncate_initial by (rule reachable.recover)
next
  case (run b l b')
  then show ?case using reachable_steps[OF server_run_steps] by blast
qed (simp add: reachable.boot)

end
