(* ===== verification/Server_Facts.thy ===== *)
theory Server_Facts
  imports Server_Runs
begin

section \<open>What holds in every run of the server\<close>

text \<open>
  The state of the HTTP interface is well formed in every reachable server, rewards are handed out at
  most so often per user and day, and a match id names one room.
\<close>

subsection \<open>Frames of a move\<close>

lemma settle_match_keeps:
  "now (settle_match ms b) = now b" "daily_claim_day (settle_match ms b) = daily_claim_day b"
  "ad_reward_day (settle_match ms b) = ad_reward_day b" "ad_reward_count (settle_match ms b) = ad_reward_count b"
  "java_profiles (settle_match ms b) = java_profiles b" "inventories (settle_match ms b) = inventories b"
  "equipped_table_theme (settle_match ms b) = equipped_table_theme b" "user_mmr (settle_match ms b) = user_mmr b"
  "tournaments (settle_match ms b) = tournaments b" "match_rooms (settle_match ms b) = match_rooms b"
  "auth_sessions (settle_match ms b) = auth_sessions b"
  by (simp_all add: settle_match_def)

lemma take_over_fields [simp]:
  "daily_claim_day (take_over w b) = daily_claim_day b"
  "ad_reward_day (take_over w b) = ad_reward_day b" "ad_reward_count (take_over w b) = ad_reward_count b"
  "java_profiles (take_over w b) = java_profiles b" "inventories (take_over w b) = inventories b"
  "equipped_table_theme (take_over w b) = equipped_table_theme b" "user_mmr (take_over w b) = user_mmr b"
  "tournaments (take_over w b) = tournaments b" "match_rooms (take_over w b) = match_rooms b"
  "auth_sessions (take_over w b) = auth_sessions b"
proof -
  have "P (fold settle_match ms c)" if "P c" "\<And>m c. P c \<Longrightarrow> P (settle_match m c)" for P ms and c :: Backend
    using that by (induction ms arbitrary: c) simp_all
  note keeps = this[where c = "with_world w b"]
  show "daily_claim_day (take_over w b) = daily_claim_day b"
    "ad_reward_day (take_over w b) = ad_reward_day b" "ad_reward_count (take_over w b) = ad_reward_count b"
    "java_profiles (take_over w b) = java_profiles b" "inventories (take_over w b) = inventories b"
    "equipped_table_theme (take_over w b) = equipped_table_theme b" "user_mmr (take_over w b) = user_mmr b"
    "tournaments (take_over w b) = tournaments b" "match_rooms (take_over w b) = match_rooms b"
    "auth_sessions (take_over w b) = auth_sessions b"
    unfolding take_over_def
    by (rule keeps; cases b; simp add: settle_match_keeps with_world_def World.extend_def)+
qed

lemma take_over_world [simp]: "now (take_over w b) = now w" "auth_usernames (take_over w b) = auth_usernames w"
  using world_part_fields(1,5)[of "take_over w b"] by simp_all

lemma users_ok_take_over: "users_ok (user_store b) \<Longrightarrow> users_ok (user_store (take_over w b))"
proof -
  have "users_ok (user_store c) \<Longrightarrow> users_ok (user_store (fold settle_match ms c))" for ms c
    by (induction ms arbitrary: c) (simp_all add: settle_match_def users_ok_settle)
  moreover have "user_store (with_world w b) = user_store b"
    by (cases b) (simp add: with_world_def World.extend_def)
  ultimately show "users_ok (user_store b) \<Longrightarrow> ?thesis" by (simp add: take_over_def)
qed

lemma moves_frame:
  assumes "moves b c"
  shows "now b \<le> now c" "auth_usernames c = auth_usernames b" "daily_claim_day c = daily_claim_day b"
    "ad_reward_day c = ad_reward_day b" "ad_reward_count c = ad_reward_count b"
proof -
  have "now b \<le> now c \<and> auth_usernames c = auth_usernames b \<and> daily_claim_day c = daily_claim_day b \<and>
      ad_reward_day c = ad_reward_day b \<and> ad_reward_count c = ad_reward_count b"
    using assms
  proof (induction rule: moves.induct)
    case (world c w)
    then show ?case using step_frame[OF world.hyps(2)] by simp
  qed simp_all
  then show "now b \<le> now c" "auth_usernames c = auth_usernames b" "daily_claim_day c = daily_claim_day b"
    "ad_reward_day c = ad_reward_day b" "ad_reward_count c = ad_reward_count b"
    by simp_all
qed

lemma day_mono: "now b \<le> now c \<Longrightarrow> current_day_bucket b \<le> current_day_bucket c"
  by (simp add: current_day_bucket_def zdiv_mono1)

subsection \<open>Well-formed books\<close>

definition tournament_ok :: "Tournament \<Rightarrow> bool" where
  "tournament_ok t \<longleftrightarrow> finite (to_registered t) \<and> int (card (to_registered t)) \<le> to_max_players t"

definition profiles_filed :: "Backend \<Rightarrow> bool" where
  "profiles_filed b \<longleftrightarrow> (\<forall>uid p. java_profiles b uid = Some p \<longrightarrow> ud_user_id p = uid \<and> 0 < uid)"

definition shelves_ok :: "Backend \<Rightarrow> bool" where
  "shelves_ok b \<longleftrightarrow> (\<forall>uid. inventories b uid \<in> {None, Some shelf} \<and> equipped_table_theme b uid \<in> insert [] (set shelf))"

definition scores_ok :: "Backend \<Rightarrow> bool" where
  "scores_ok b \<longleftrightarrow> (\<forall>uid. user_mmr b uid \<in> {None, Some 1000})"

definition match_codes_ok :: "Backend \<Rightarrow> bool" where
  "match_codes_ok b \<longleftrightarrow> (\<forall>m code. match_rooms b m = Some code \<longrightarrow> m \<noteq> [] \<and> length code = 6)"

definition tournaments_ok :: "Backend \<Rightarrow> bool" where
  "tournaments_ok b \<longleftrightarrow> (\<forall>t\<in>set (tournaments b). tournament_ok t)"

definition books_ok :: "Backend \<Rightarrow> bool" where
  "books_ok b \<longleftrightarrow> profiles_filed b \<and> users_ok (user_store b) \<and> shelves_ok b \<and> scores_ok b \<and>
     match_codes_ok b \<and> tournaments_ok b \<and> auth_sessions b = Map.empty"

lemmas books_defs = profiles_filed_def shelves_ok_def scores_ok_def match_codes_ok_def tournaments_ok_def

definition rewards_ok :: "Backend \<Rightarrow> bool" where
  "rewards_ok b \<longleftrightarrow> 0 \<le> now b \<and>
     (\<forall>uid. 0 \<le> ad_reward_count b uid \<and> ad_reward_count b uid \<le> 3 \<and>
        0 \<le> ad_reward_day b uid \<and> ad_reward_day b uid \<le> current_day_bucket b \<and>
        0 \<le> daily_claim_day b uid \<and> daily_claim_day b uid \<le> current_day_bucket b)"

lemma rewards_okD:
  assumes "rewards_ok b"
  shows "0 \<le> now b" "0 \<le> ad_reward_count b uid" "ad_reward_count b uid \<le> 3" "0 \<le> ad_reward_day b uid"
    "ad_reward_day b uid \<le> current_day_bucket b" "0 \<le> daily_claim_day b uid"
    "daily_claim_day b uid \<le> current_day_bucket b" "0 \<le> current_day_bucket b"
  using assms by (simp_all add: rewards_ok_def current_day_bucket_def pos_imp_zdiv_nonneg_iff)

lemma register_first_ok:
  assumes "\<forall>t\<in>set ts. tournament_ok t" "find (\<lambda>t. to_id t = tid) ts = Some t" "int (card (to_registered t)) < to_max_players t"
  shows "\<forall>t\<in>set (update_first (\<lambda>t. to_id t = tid) (register_player uid) ts). tournament_ok t"
proof -
  have one: "tournament_ok (register_player uid t)" if "tournament_ok t" "int (card (to_registered t)) < to_max_players t" for t
    using that by (auto simp: tournament_ok_def register_player_def card_insert_if)
  from assms show ?thesis
    by (induction ts) (auto intro: one split: if_splits)
qed

lemma seeded_ok: "\<forall>t\<in>set (seeded_tournaments n). tournament_ok t"
  by (simp add: seeded_tournaments_def tournament_ok_def)

lemma books_ok_change:
  assumes "books_ok b"
    and "profiles_filed b \<Longrightarrow> profiles_filed c" "users_ok (user_store b) \<Longrightarrow> users_ok (user_store c)"
    and "shelves_ok b \<Longrightarrow> shelves_ok c" "scores_ok b \<Longrightarrow> scores_ok c" "match_codes_ok b \<Longrightarrow> match_codes_ok c"
    and "tournaments_ok b \<Longrightarrow> tournaments_ok c" "auth_sessions b = Map.empty \<Longrightarrow> auth_sessions c = Map.empty"
  shows "books_ok c"
  using assms unfolding books_ok_def by blast

lemma shelves_theme: "shelves_ok b \<Longrightarrow> inventories b uid = Some its \<Longrightarrow> its = shelf"
  by (auto simp: shelves_ok_def dest: spec[of _ uid])

lemma books_ok_moves: "moves b c \<Longrightarrow> books_ok b \<Longrightarrow> books_ok c"
proof (induction rule: moves.induct)
  case (theme c uid its item)
  have "item \<in> set shelf"
    using theme.IH[OF theme.prems] shelves_theme[OF _ theme.hyps(2)] theme.hyps(3) by (simp add: books_ok_def)
  then show ?case by (intro books_ok_change[OF theme.IH[OF theme.prems]]) (simp_all add: books_defs)
next
  case (world c w)
  show ?case by (rule books_ok_change[OF world.IH[OF world.prems]]) (simp_all add: books_defs users_ok_take_over)
next
  case (mmr c uid)
  show ?case by (rule books_ok_change[OF mmr.IH[OF mmr.prems]]) (simp_all add: books_defs)
next
  case (items c uid)
  show ?case by (rule books_ok_change[OF items.IH[OF items.prems]]) (simp_all add: books_defs)
next
  case (expire c cookie)
  show ?case by (rule books_ok_change[OF expire.IH[OF expire.prems]]) (simp_all add: books_defs)
next
  case (profile c p)
  show ?case by (rule books_ok_change[OF profile.IH[OF profile.prems]]) (simp_all add: books_defs profile.hyps)
next
  case (load c key name)
  show ?case by (rule books_ok_change[OF load.IH[OF load.prems]]) (simp_all add: books_defs profiles.load_ok)
next
  case (seed c t)
  show ?case by (rule books_ok_change[OF seed.IH[OF seed.prems]]) (simp_all add: books_defs seeded_ok)
next
  case (register c tid t uid)
  show ?case
    by (rule books_ok_change[OF register.IH[OF register.prems]])
       (use register_first_ok[OF _ register.hyps(2,3), of uid] in \<open>simp_all add: books_defs\<close>)
next
  case (forget c m)
  show ?case by (rule books_ok_change[OF forget.IH[OF forget.prems]]) (simp_all add: books_defs)
next
  case (link_match c m code)
  show ?case
    by (rule books_ok_change[OF link_match.IH[OF link_match.prems]]) (simp_all add: books_defs link_match.hyps)
qed

lemma rewards_ok_moves: "moves b c \<Longrightarrow> rewards_ok b \<Longrightarrow> rewards_ok c"
  using moves_frame[of b c] day_mono[of b c] unfolding rewards_ok_def by (smt (verit))

lemma books_ok_rewards [simp]:
  "books_ok (b\<lparr>daily_claim_day := x\<rparr>) = books_ok b" "books_ok (b\<lparr>ad_reward_count := y\<rparr>) = books_ok b"
  "books_ok (new_ad_day uid b) = books_ok b"
  by (simp_all add: books_ok_def books_defs new_ad_day_def Let_def)

lemma today_simps [simp]:
  "current_day_bucket (b\<lparr>daily_claim_day := x\<rparr>) = current_day_bucket b"
  "current_day_bucket (b\<lparr>ad_reward_count := y\<rparr>) = current_day_bucket b"
  "current_day_bucket (new_ad_day uid b) = current_day_bucket b" "now (new_ad_day uid b) = now b"
  by (simp_all add: current_day_bucket_def new_ad_day_def Let_def)

lemma new_ad_day_fields:
  "ad_reward_day (new_ad_day uid b) = (ad_reward_day b)(uid := current_day_bucket b)"
  "ad_reward_count (new_ad_day uid b) =
     (if ad_reward_day b uid = current_day_bucket b then ad_reward_count b else (ad_reward_count b)(uid := 0))"
  "daily_claim_day (new_ad_day uid b) = daily_claim_day b"
  by (auto simp: new_ad_day_def Let_def)

lemma rewards_ok_new_ad_day: "rewards_ok b \<Longrightarrow> rewards_ok (new_ad_day uid b)"
  using rewards_okD(8)[of b] by (simp add: rewards_ok_def new_ad_day_fields)

lemma rewards_ok_claim:
  "rewards_ok b \<Longrightarrow> rewards_ok (b\<lparr>daily_claim_day := (daily_claim_day b)(uid := current_day_bucket b)\<rparr>)"
  using rewards_okD(8)[of b] by (simp add: rewards_ok_def)

lemma rewards_ok_ad:
  "rewards_ok b \<Longrightarrow> ad_reward_count b uid < 3 \<Longrightarrow>
   rewards_ok (b\<lparr>ad_reward_count := (ad_reward_count b)(uid := ad_reward_count b uid + 1)\<rparr>)"
  by (simp add: rewards_ok_def add_nonneg_nonneg)

definition server_ok :: "Backend \<Rightarrow> bool" where
  "server_ok b \<longleftrightarrow> books_ok b \<and> rewards_ok b"

lemma server_ok_moves: "moves b c \<Longrightarrow> server_ok b \<Longrightarrow> server_ok c"
  by (simp add: server_ok_def books_ok_moves rewards_ok_moves)

lemma server_ok_claim: "claim_daily p b = (rep, c) \<Longrightarrow> server_ok b \<Longrightarrow> server_ok c"
proof (erule claim_daily_cases)
  assume ok: "server_ok b" and "moves (b\<lparr>daily_claim_day := (daily_claim_day b)(ud_user_id p := current_day_bucket b)\<rparr>) c"
  moreover have "server_ok (b\<lparr>daily_claim_day := (daily_claim_day b)(ud_user_id p := current_day_bucket b)\<rparr>)"
    using ok rewards_ok_claim by (simp add: server_ok_def)
  ultimately show "server_ok c" by (blast intro: server_ok_moves)
qed simp

lemma server_ok_ad: "ad_reward p b = (rep, c) \<Longrightarrow> server_ok b \<Longrightarrow> server_ok c"
proof (erule ad_reward_cases)
  fix d
  assume ok: "server_ok b" and d: "d = new_ad_day (ud_user_id p) b" "ad_reward_count d (ud_user_id p) < 3"
    and moves: "moves (d\<lparr>ad_reward_count := (ad_reward_count d)(ud_user_id p := ad_reward_count d (ud_user_id p) + 1)\<rparr>) c"
  have "rewards_ok d" using ok d(1) rewards_ok_new_ad_day by (simp add: server_ok_def)
  then have "server_ok (d\<lparr>ad_reward_count := (ad_reward_count d)(ud_user_id p := ad_reward_count d (ud_user_id p) + 1)\<rparr>)"
    using ok d rewards_ok_ad by (simp add: server_ok_def)
  with moves show "server_ok c" by (rule server_ok_moves)
qed (simp add: server_ok_def rewards_ok_new_ad_day)

lemma server_ok_request:
  assumes "handle_http_request env req b = Some (rep, c)" "rq_clean_uri req = before_query (rq_uri req)" "server_ok b"
  shows "server_ok c"
  using assms(1,2)
  by (cases rule: http_request_cases)
     (use assms(3) server_ok_moves server_ok_claim server_ok_ad speaks_for_moves in blast)+

lemma server_ok_run: "server_run b l c \<Longrightarrow> server_ok b \<Longrightarrow> server_ok c"
proof (induction rule: server_run.induct)
  case (frame l c env payload d frames)
  from frame.hyps(2) show ?case
    by (cases rule: frame_cases)
       (use frame.IH[OF frame.prems] server_ok_moves server_ok_request request_in_uri in blast)+
next
  case (event l c d)
  then show ?case using server_ok_moves moves_own_event by blast
qed

lemma server_ok_initial: "0 \<le> t \<Longrightarrow> server_ok (initial_backend t snapshots names)"
  by (simp add: server_ok_def books_ok_def books_defs rewards_ok_def initial_backend_def World.extend_def initial_world_def
      no_users_def users_ok_def current_day_bucket_def)

lemma server_ok_rooms: "server_ok (b\<lparr>rooms := rs\<rparr>) = server_ok b"
  by (simp add: server_ok_def books_ok_def books_defs rewards_ok_def current_day_bucket_def)

lemma reachable_server_ok: "reachable_server b \<Longrightarrow> server_ok b"
  by (induction rule: reachable_server.induct) (simp_all add: server_ok_initial server_ok_rooms server_ok_run)

subsection \<open>Counting rewards\<close>

definition granted :: "(HttpRequest \<Rightarrow> bool) \<Rightarrow> int \<Rightarrow> int \<Rightarrow> (HttpRequest \<times> int) list \<Rightarrow> nat" where
  "granted P uid day l = length (filter (\<lambda>(req, d). P req \<and> rq_gateway_user_id req = Some uid \<and> d = day) l)"

lemma granted_simps [simp]:
  "granted P uid day [] = 0"
  "granted P uid day (l @ [(req, d)]) =
     granted P uid day l + (if P req \<and> rq_gateway_user_id req = Some uid \<and> d = day then 1 else 0)"
  by (simp_all add: granted_def)

text \<open>The tables know of every reward that was granted today, and of none of a later day.\<close>

definition daily_fair :: "(HttpRequest \<times> int) list \<Rightarrow> Backend \<Rightarrow> bool" where
  "daily_fair l b \<longleftrightarrow> (\<forall>uid day. granted claims_daily uid day l \<le> 1 \<and>
     (daily_claim_day b uid < day \<longrightarrow> granted claims_daily uid day l = 0))"

definition ads_fair :: "(HttpRequest \<times> int) list \<Rightarrow> Backend \<Rightarrow> bool" where
  "ads_fair l b \<longleftrightarrow> (\<forall>uid day. granted claims_ad uid day l \<le> 3 \<and>
     (ad_reward_day b uid = day \<longrightarrow> int (granted claims_ad uid day l) \<le> ad_reward_count b uid) \<and>
     (ad_reward_day b uid < day \<longrightarrow> granted claims_ad uid day l = 0))"

lemma fair_moves:
  assumes "moves b c"
  shows "daily_fair l c = daily_fair l b" "ads_fair l c = ads_fair l b"
  using moves_frame[OF assms] by (simp_all add: daily_fair_def ads_fair_def)

lemma fair_other:
  "\<not> claims_daily req \<Longrightarrow> daily_fair (l @ [(req, d)]) b = daily_fair l b"
  "\<not> claims_ad req \<Longrightarrow> ads_fair (l @ [(req, d)]) b = ads_fair l b"
  by (simp_all add: daily_fair_def ads_fair_def)

lemma fair_tables [simp]:
  "ads_fair l (b\<lparr>daily_claim_day := x\<rparr>) = ads_fair l b" "daily_fair l (b\<lparr>ad_reward_count := y\<rparr>) = daily_fair l b"
  by (simp_all add: daily_fair_def ads_fair_def)

lemma claims_differ: "claims_daily req \<Longrightarrow> \<not> claims_ad req"
  by (simp add: claims_daily_def claims_ad_def route_def)

lemma daily_fair_claim:
  assumes "daily_fair l b" "rewards_ok b" "daily_claim_day b uid \<noteq> current_day_bucket b" "rq_gateway_user_id req = Some uid"
  shows "daily_fair (l @ [(req, current_day_bucket b)])
    (b\<lparr>daily_claim_day := (daily_claim_day b)(uid := current_day_bucket b)\<rparr>)"
proof -
  have lt: "daily_claim_day b uid < current_day_bucket b"
    using assms(3) rewards_okD(7)[OF assms(2), of uid] by simp
  with assms(1) have "granted claims_daily uid day l = 0" if "current_day_bucket b \<le> day" for day
    using that unfolding daily_fair_def by (meson less_le_trans)
  with assms(1,4) show ?thesis by (auto simp: daily_fair_def)
qed

lemma ads_fair_new_day:
  assumes "ads_fair l b" "rewards_ok b"
  shows "ads_fair l (new_ad_day uid b)"
  using assms(1) rewards_okD(5)[OF assms(2), of uid] unfolding ads_fair_def new_ad_day_fields
  by (auto dest: order.strict_trans1 simp: order.order_iff_strict)

lemma ads_fair_claim:
  assumes "ads_fair l b" "ad_reward_day b uid = day" "ad_reward_count b uid < 3" "rq_gateway_user_id req = Some uid"
  shows "ads_fair (l @ [(req, day)]) (b\<lparr>ad_reward_count := (ad_reward_count b)(uid := ad_reward_count b uid + 1)\<rparr>)"
proof -
  have here: "granted claims_ad v k l \<le> 3 \<and> (ad_reward_day b v = k \<longrightarrow> int (granted claims_ad v k l) \<le> ad_reward_count b v) \<and>
      (ad_reward_day b v < k \<longrightarrow> granted claims_ad v k l = 0)" for v k
    using assms(1) unfolding ads_fair_def by blast
  show ?thesis
    unfolding ads_fair_def
  proof (intro allI)
    fix v k
    show "granted claims_ad v k (l @ [(req, day)]) \<le> 3 \<and>
        (ad_reward_day (b\<lparr>ad_reward_count := (ad_reward_count b)(uid := ad_reward_count b uid + 1)\<rparr>) v = k \<longrightarrow>
         int (granted claims_ad v k (l @ [(req, day)]))
           \<le> ad_reward_count (b\<lparr>ad_reward_count := (ad_reward_count b)(uid := ad_reward_count b uid + 1)\<rparr>) v) \<and>
        (ad_reward_day (b\<lparr>ad_reward_count := (ad_reward_count b)(uid := ad_reward_count b uid + 1)\<rparr>) v < k \<longrightarrow>
         granted claims_ad v k (l @ [(req, day)]) = 0)"
      using here[of v k] assms(2-4) by auto
  qed
qed

text \<open>Nobody but a user the gateway vouches for gets past the login, and the profile is the user's own.\<close>

lemma resolve_frame:
  assumes "resolve_auth_http env req b = (a, c)"
  shows "now c = now b" "auth_usernames c = auth_usernames b"
  using assms
  by (auto simp: resolve_auth_http_def find_http_session_def apply_gateway_profile_b64_def keep_profile_def
      cache_profile_def split: option.splits if_splits)

lemma speaks_for_user:
  assumes "speaks_for env req b a p d" "books_ok b" "auth_usernames b = Map.empty"
  shows "rq_gateway_user_id req = Some (ud_user_id p)" "now d = now b"
proof -
  obtain b0 where b0: "resolve_auth_http env req b = (Some a, b0)" "get_profile_by_user_id (as_user_id a) b0 = (Some p, d)"
    using assms(1) by (auto simp: speaks_for_def)
  have "java_profiles b0 (as_user_id a) = Some p" and d: "d = b0"
    using b0(2) resolve_frame(2)[OF b0(1)] assms(3) by (auto simp: get_profile_by_user_id_def split: option.splits)
  then have "ud_user_id p = as_user_id a"
    using books_ok_moves[OF moves_resolve[OF b0(1)] assms(2)] by (simp add: books_ok_def profiles_filed_def)
  moreover have "rq_gateway_user_id req = Some (as_user_id a)"
    using b0(1) assms(2)
    by (auto simp: resolve_auth_http_def find_http_session_def books_ok_def split: option.splits if_splits)
  ultimately show "rq_gateway_user_id req = Some (ud_user_id p)" by simp
  show "now d = now b" using d resolve_frame(1)[OF b0(1)] by simp
qed

lemma fair_request:
  assumes "handle_http_request env req b = Some (rep, c)" "rq_clean_uri req = before_query (rq_uri req)"
    and "server_ok b" "auth_usernames b = Map.empty" "daily_fair l b" "ads_fair l b"
    and "l' = l @ (if rp_status rep = 200 then [(req, current_day_bucket b)] else [])"
  shows "daily_fair l' c \<and> ads_fair l' c \<and> auth_usernames c = Map.empty"
  using assms(1,2)
proof (cases rule: http_request_cases)
  case quiet
  then show ?thesis
    using assms(4-7) moves_frame(2)[OF quiet(1)] by (auto simp: fair_moves[OF quiet(1)] fair_other)
next
  case (daily a p d)
  have d: "rq_gateway_user_id req = Some (ud_user_id p)" "current_day_bucket d = current_day_bucket b" "moves b d"
    using speaks_for_user[OF daily(2) _ assms(4)] assms(3) speaks_for_moves[OF daily(2)]
    by (simp_all add: server_ok_def current_day_bucket_def)
  have ok: "rewards_ok d" "daily_fair l d" "ads_fair l d" "auth_usernames d = Map.empty"
    using assms(3-6) moves_frame(2)[OF d(3)] fair_moves[OF d(3)] server_ok_moves[OF d(3)]
    by (simp_all add: server_ok_def)
  from daily(3) show ?thesis
  proof (cases rule: claim_daily_cases)
    case granted
    have "daily_fair (l @ [(req, current_day_bucket b)]) c"
      using daily_fair_claim[OF ok(2,1) granted(2) d(1)] fair_moves(1)[OF granted(3)] d(2) by simp
    moreover have "ads_fair (l @ [(req, current_day_bucket b)]) c"
      using ok(3) fair_moves(2)[OF granted(3)] claims_differ[OF daily(1)] by (simp add: fair_other)
    ultimately show ?thesis using granted(1) assms(7) moves_frame(2)[OF granted(3)] ok(4) by simp
  qed (use assms(7) ok in simp)
next
  case (ad a p d)
  have d: "rq_gateway_user_id req = Some (ud_user_id p)" "current_day_bucket d = current_day_bucket b" "moves b d"
    using speaks_for_user[OF ad(2) _ assms(4)] assms(3) speaks_for_moves[OF ad(2)]
    by (simp_all add: server_ok_def current_day_bucket_def)
  define e where "e = new_ad_day (ud_user_id p) d"
  have ok: "rewards_ok d" "daily_fair l d" "ads_fair l d" "auth_usernames d = Map.empty"
    using assms(3-6) moves_frame(2)[OF d(3)] fair_moves[OF d(3)] server_ok_moves[OF d(3)]
    by (simp_all add: server_ok_def)
  have e: "daily_fair l e" "ads_fair l e" "auth_usernames e = Map.empty" "ad_reward_day e (ud_user_id p) = current_day_bucket b"
    using ok ads_fair_new_day[OF ok(3,1), of "ud_user_id p"] d(2)
    by (simp_all add: e_def daily_fair_def new_ad_day_fields new_ad_day_def Let_def)
  from ad(3) show ?thesis
  proof (cases rule: ad_reward_cases)
    case (granted d')
    have d': "d' = e" using granted(2) by (simp add: e_def)
    have "ads_fair (l @ [(req, current_day_bucket b)]) c"
      using ads_fair_claim[OF e(2,4) _ d(1)] granted(3) fair_moves(2)[OF granted(4)] d' by simp
    moreover have "daily_fair (l @ [(req, current_day_bucket b)]) c"
      using e(1) fair_moves(1)[OF granted(4)] fair_other(1) claims_differ ad(1) d' fair_tables(2) by blast
    ultimately show ?thesis using granted(1) assms(7) moves_frame(2)[OF granted(4)] e(3) d' by simp
  next
    case refused
    then show ?thesis using assms(7) e by (simp add: e_def)
  qed
qed

lemma fair_run:
  assumes "server_run b0 l b" "server_ok b0" "auth_usernames b0 = Map.empty"
  shows "server_ok b \<and> auth_usernames b = Map.empty \<and> daily_fair l b \<and> ads_fair l b"
  using assms(1)
proof (induction rule: server_run.induct)
  case start
  have "0 \<le> ad_reward_count b0 uid" for uid using assms(2) rewards_okD(2) by (simp add: server_ok_def)
  then show ?case using assms(2,3) by (simp add: daily_fair_def ads_fair_def)
next
  case (frame l b env payload c frames)
  have ok: "server_ok c"
    using server_ok_run[OF server_run.frame[OF frame.hyps] assms(2)] .
  from frame.hyps(2) show ?case
  proof (cases rule: frame_cases)
    case quiet
    then show ?thesis using frame.IH ok moves_frame(2)[OF quiet(1)] by (simp add: fair_moves[OF quiet(1)])
  next
    case (request req rep)
    show ?thesis
      using fair_request[OF request(3) request_in_uri[OF request(1)], of l "l @ served_ok env payload b"]
        frame.IH ok request(4) by simp
  qed
next
  case (event l b c)
  note m = moves_own_event[OF event.hyps(2)]
  show ?case using event.IH server_ok_moves[OF m] moves_frame(2)[OF m] by (simp add: fair_moves[OF m])
qed

subsection \<open>A small run\<close>

text \<open>A day after the boot the gateway attaches and user 7 claims the daily beans.\<close>

definition demo_profile :: json where
  "demo_profile = jobj [(''userId'', JInt 7), (''username'', JStr ''ann''), (''gold'', JInt 50)]"

definition demo_frame :: json where
  "demo_frame = jobj [(''type'', JStr ''api_request''), (''method'', JStr ''POST''),
     (''uri'', JStr ''/api/beans/claim-daily''), (''gateway_user_id'', JInt 7), (''gateway_profile_b64'', JStr ''QQ=='')]"

definition demo_env :: GatewayEnv where
  "demo_env = \<lparr>parse_json = (\<lambda>s. Some (if s = ''A'' then demo_profile else demo_frame)), dump_json = (\<lambda>_. []),
     bridge_secret = [], file_at = (\<lambda>_. []), code_draws = (\<lambda>_. 0), session_order = [], entry_order = [],
     show_double = (\<lambda>_. []), parse_envelope = (\<lambda>_. Malformed),
     chance = \<lparr>shuffle = id, token1 = [], token2 = [], uniform = 0\<rparr>, socket_order = []\<rparr>"

definition demo_server :: Backend where
  "demo_server = (initial_backend 86400000 False Map.empty)\<lparr>gateway_attached := True\<rparr>"

lemma demo_reachable: "server_run (initial_backend 86400000 False Map.empty) [] demo_server"
  unfolding demo_server_def by (rule server_run.event[OF server_run.start own_event.attach])

definition demo_request :: HttpRequest where
  "demo_request = \<lparr>rq_method = ''POST'', rq_uri = ''/api/beans/claim-daily'', rq_clean_uri = ''/api/beans/claim-daily'',
     rq_body = [], rq_cookie_header = [], rq_gateway_user_id = Some 7, rq_gateway_login_username = [],
     rq_gateway_profile_b64 = ''QQ==''\<rparr>"

definition demo_user :: UserProfileData where
  "demo_user = \<lparr>ud_user_id = 7, ud_external_id = [], ud_login_username = [], ud_username = ''ann'', ud_avatar = [],
     ud_gold = 50, ud_games_played = 0, ud_games_won = 0\<rparr>"

lemma demo_parsed:
  "request_view demo_frame = Some demo_request" "jfield ''type'' demo_frame = Some (JStr ''api_request'')"
  "gateway_profile demo_profile = Some demo_user"
  by code_simp+

lemma demo_decoded: "base64_decode ''QQ=='' = ''A''"
proof -
  have "base64_encode ''A'' = ''QQ==''" by (simp add: base64_encode_rfc4648 b64_def kBase64_def)
  then show ?thesis using base64_inverse[of "''A''"] by simp
qed

lemma demo_claims: "claims_daily demo_request" "\<not> starts_with (rq_uri demo_request) ''/api/leaderboard''"
  by (simp_all add: claims_daily_def route_def demo_request_def starts_with_def)

lemma demo_speaker:
  "resolve_auth_http (HttpEnv.truncate demo_env) demo_request demo_server =
     (Some \<lparr>as_session_id = ''gateway'', as_user_id = 7, as_username = [], as_expires_at = kForever\<rparr>,
      keep_profile demo_user demo_server)"
  by (simp add: resolve_auth_http_def apply_gateway_profile_b64_def demo_request_def demo_parsed demo_decoded demo_env_def
      HttpEnv.truncate_def)

lemma demo_served:
  "handle_http_request (HttpEnv.truncate demo_env) demo_request demo_server =
   Some (claim_daily demo_user (keep_profile demo_user demo_server))"
proof -
  have "early_reply (HttpEnv.truncate demo_env) demo_request demo_server = None"
    by (simp add: early_reply_def route_def demo_request_def)
  moreover have "get_profile_by_user_id 7 (keep_profile demo_user demo_server) = (Some demo_user, keep_profile demo_user demo_server)"
    by (simp add: get_profile_by_user_id_def keep_profile_def cache_profile_def demo_user_def)
  ultimately show ?thesis
    using demo_speaker user_request_rewards(1)[OF demo_claims(2,1)]
    by (simp add: handle_http_request_def with_profile_def with_login_def)
qed

lemma demo_claim_granted: "rp_status (fst (claim_daily demo_user (keep_profile demo_user demo_server))) = 200"
  by (simp add: claim_daily_def Let_def split_beta success_def send_json_def keep_profile_def cache_profile_def
      demo_server_def initial_backend_def World.extend_def current_day_bucket_def initial_world_def)

definition demo_after :: Backend where
  "demo_after = snd (claim_daily demo_user (keep_profile demo_user demo_server))"

lemma demo_run: "server_run (initial_backend 86400000 False Map.empty) [(demo_request, 1)] demo_after"
proof -
  have req: "request_in demo_env [] = Some demo_request"
    by (simp add: request_in_def demo_env_def demo_parsed)
  have "served_ok demo_env [] demo_server = [(demo_request, 1)]"
    using demo_claim_granted
    by (simp add: served_ok_def req demo_served split_beta current_day_bucket_def)
       (simp add: demo_server_def initial_backend_def World.extend_def initial_world_def)
  moreover have "\<exists>fs. on_frame demo_env [] demo_server = Answered demo_after fs"
    by (simp add: on_frame_def on_gateway_down_json_def on_api_request_def demo_env_def demo_parsed
        demo_served[unfolded demo_env_def] split_beta demo_after_def)
       (simp add: demo_server_def)
  ultimately show ?thesis using server_run.frame[OF demo_reachable] by fastforce
qed

subsection \<open>The properties\<close>

text \<open>
  C19. The whole server refines the room worker: whatever frames the gateway sends (registrations, envelopes,
  HTTP requests, malformed ones) and whatever happens between them, what a run does to the rooms, sessions
  and messages is a sequence of steps of the room worker. So a server only ever reaches worlds that the room
  worker reaches, and everything proved of those holds of it.
\<close>

theorem server_refines_room_worker:
  assumes "reachable_server b"
  shows "reachable (World.truncate b) \<and>
    (\<forall>l c. server_run b l c \<longrightarrow> step\<^sup>*\<^sup>* (World.truncate b) (World.truncate c))"
  using assms server_reaches_worlds server_run_steps by blast

theorem server_refines_room_worker_witness:
  "step\<^sup>*\<^sup>* (World.truncate (initial_backend 86400000 False Map.empty)) (World.truncate demo_after)"
  using server_refines_room_worker[OF reachable_server.boot] demo_run by simp

text \<open>
  C27. The books of the HTTP interface are well formed in every state the server reaches: a profile of the gateway
  is filed under its own positive user id and the ids of the user store are below its counter; an inventory
  holds the three items everybody starts with and an equipped theme is one of them; a rating is 1000; a
  match id names a six-letter room code; no tournament has more players than seats; nobody
  has a cookie session; ad rewards are counted from 0 to 3, and no reward was ever claimed on a day to come.
\<close>

theorem server_books_well_formed:
  assumes "reachable_server b"
  shows "(\<forall>uid p. java_profiles b uid = Some p \<longrightarrow> ud_user_id p = uid \<and> 0 < uid) \<and>
    (\<forall>key u. users (user_store b) key = Some u \<longrightarrow> ud_user_id u \<le> last_id (user_store b)) \<and>
    (\<forall>uid. inventories b uid \<in> {None, Some shelf} \<and> equipped_table_theme b uid \<in> insert [] (set shelf)) \<and>
    (\<forall>uid. user_mmr b uid \<in> {None, Some 1000}) \<and>
    (\<forall>m code. match_rooms b m = Some code \<longrightarrow> m \<noteq> [] \<and> length code = 6) \<and>
    (\<forall>t\<in>set (tournaments b). finite (to_registered t) \<and> int (card (to_registered t)) \<le> to_max_players t) \<and>
    auth_sessions b = Map.empty \<and>
    (\<forall>uid. 0 \<le> ad_reward_count b uid \<and> ad_reward_count b uid \<le> 3 \<and>
       0 \<le> ad_reward_day b uid \<and> ad_reward_day b uid \<le> current_day_bucket b \<and>
       0 \<le> daily_claim_day b uid \<and> daily_claim_day b uid \<le> current_day_bucket b)"
  using reachable_server_ok[OF assms]
  unfolding server_ok_def books_ok_def rewards_ok_def profiles_filed_def users_ok_def shelves_ok_def scores_ok_def
    match_codes_ok_def tournaments_ok_def tournament_ok_def by blast

theorem server_books_well_formed_witness:
  "daily_claim_day demo_after 7 \<le> current_day_bucket demo_after \<and> auth_sessions demo_after = Map.empty"
  using server_books_well_formed[OF reachable_server.run[OF reachable_server.boot demo_run]] by simp

text \<open>
  C25. Rewards are bounded. In any run of a server whose account store is the in-memory one (nothing ever
  fills it), from any state it can reach on: each user's daily reward is granted at most once a day, and the
  ad reward at most three times, however the requests, other frames and the clock interleave.
\<close>

theorem rewards_are_bounded:
  assumes "reachable_server b0" and "auth_usernames b0 = Map.empty" and "server_run b0 l b"
  shows "granted claims_daily uid day l \<le> 1 \<and> granted claims_ad uid day l \<le> 3"
  using fair_run[OF assms(3) reachable_server_ok[OF assms(1)] assms(2)]
  unfolding daily_fair_def ads_fair_def by blast

theorem rewards_are_bounded_witness:
  "granted claims_daily 7 1 [(demo_request, 1)] = 1 \<and> granted claims_daily 7 1 [(demo_request, 1)] \<le> 1"
  using rewards_are_bounded[OF reachable_server.boot _ demo_run] demo_claims(1)
  by (simp add: granted_def demo_request_def initial_backend_def World.extend_def initial_world_def)



text \<open>
  The beans of a user the gateway vouches for are added to a copy of the profile that \<open>get_profile_by_user_id\<close>
  never looks at: the balance after the reward is the one before it.
\<close>

lemma bean_keeps_profiles: "java_profiles (snd (bean_profile_json p (cache_profile q b))) = java_profiles b"
  by (simp add: bean_profile_json_def split_beta Let_def bean_mmr_def cache_profile_def split: option.split)

lemma gateway_reward_is_lost:
  assumes "claim_daily p b = (rep, c)" "rp_status rep = 200" "java_profiles b (ud_user_id p) = Some p"
  shows "fst (get_profile_by_user_id (ud_user_id p) c) = Some p"
proof -
  have "java_profiles c = java_profiles b"
    using assms(1,2) bean_keeps_profiles
    by (auto simp: claim_daily_def Let_def split_beta failure_def send_json_def split: if_splits)
  with assms(3) show ?thesis by (simp add: get_profile_by_user_id_def)
qed

end
