(* ===== verification/Disk.thy ===== *)
theory Disk
  imports Server_Facts
begin

section \<open>The snapshots on disk (main.cpp)\<close>

text \<open>
  The server together with the directory of its snapshots, one file per room id. A timer that fires writes the
  room as it is then (\<open>flush_room_snapshot_to_disk\<close>), a room that is erased takes its file with it
  (\<open>obliterate_room_snapshot\<close>), and a server that starts reads every file. The process may stop at
  any moment, and a file may get lost: the old one is removed before the new one is renamed, and one above
  32 MB is not read. A room id is a code of six letters and digits, so every room has its own file.

  \<^item> \<open>ser\<close> and \<open>de\<close> are the protobuf library's bytes of the events in a snapshot.
  \<^item> A file holds the JSON value that was written; its text is the JSON library's.
\<close>

record Machine =
  server :: Backend
  disk :: "string \<rightharpoonup> json"

definition flush_room_snapshot_to_disk :: "(envelope \<Rightarrow> string) \<Rightarrow> string \<Rightarrow> Machine \<Rightarrow> Machine" where
  "flush_room_snapshot_to_disk ser key m =
     (if \<not> snapshots_on (server m) then m
      else case rooms (server m) key of
             None \<Rightarrow> m
           | Some r \<Rightarrow> m\<lparr>disk := (disk m)(key \<mapsto> room_to_json ser r)\<rparr>)"

text \<open>The files of the rooms that are in \<open>b\<close> and no longer in \<open>c\<close> are removed.\<close>

definition obliterate_erased :: "Backend \<Rightarrow> Backend \<Rightarrow> (string \<rightharpoonup> json) \<Rightarrow> (string \<rightharpoonup> json)" where
  "obliterate_erased b c files = (\<lambda>key. if rooms b key \<noteq> None \<and> rooms c key = None then None else files key)"

text \<open>\<open>restore_room_snapshots_from_disk\<close> on the files in the order of the directory.\<close>

definition restore_room_snapshots_from_disk ::
  "(string \<Rightarrow> envelope) \<Rightarrow> int \<Rightarrow> json list \<Rightarrow> (string \<rightharpoonup> Room) \<Rightarrow> (string \<rightharpoonup> Room)" where
  "restore_room_snapshots_from_disk de t files rs = fold (restore_room de t) files rs"

definition restart ::
  "(string \<Rightarrow> envelope) \<Rightarrow> int \<Rightarrow> (int \<rightharpoonup> string) \<Rightarrow> string list \<Rightarrow> Machine \<Rightarrow> Machine" where
  "restart de t names keys m =
     m\<lparr>server := (initial_backend t True names)
         \<lparr>rooms := restore_room_snapshots_from_disk de t (map (the \<circ> disk m) keys) Map.empty\<rparr>\<rparr>"

inductive server_event :: "Backend \<Rightarrow> Backend \<Rightarrow> bool" where
  frame: "on_frame env payload b = Answered c frames \<Longrightarrow> server_event b c"
| own: "own_event b c \<Longrightarrow> server_event b c"

text \<open>
  What a machine can come to. A room that is flushed must fit the integer types of the code (\<open>snapshot_ok\<close>),
  which rooms of the program do.
\<close>

inductive machine :: "(envelope \<Rightarrow> string) \<Rightarrow> (string \<Rightarrow> envelope) \<Rightarrow> Machine \<Rightarrow> bool" for ser de where
  boot: "0 \<le> t \<Longrightarrow> machine ser de \<lparr>server = initial_backend t True names, disk = Map.empty\<rparr>"
| event: "machine ser de m \<Longrightarrow> server_event (server m) c \<Longrightarrow>
    machine ser de (m\<lparr>server := c, disk := obliterate_erased (server m) c (disk m)\<rparr>)"
| flush: "machine ser de m \<Longrightarrow> key \<in> snapshot_timers (server m) \<Longrightarrow>
    (\<And>r. rooms (server m) key = Some r \<Longrightarrow> snapshot_ok ser de r) \<Longrightarrow>
    machine ser de (flush_room_snapshot_to_disk ser key m)"
| lost: "machine ser de m \<Longrightarrow> machine ser de (m\<lparr>disk := (disk m)(key := None)\<rparr>)"
| stop: "machine ser de m \<Longrightarrow> 0 \<le> t \<Longrightarrow> distinct keys \<Longrightarrow> set keys = dom (disk m) \<Longrightarrow>
    machine ser de (restart de t names keys m)"

subsection \<open>Every file is a room of an earlier moment\<close>

definition saved_room :: "(envelope \<Rightarrow> string) \<Rightarrow> (string \<Rightarrow> envelope) \<Rightarrow> string \<Rightarrow> json \<Rightarrow> Room \<Rightarrow> bool" where
  "saved_room ser de key j r \<longleftrightarrow>
     (\<exists>b. reachable_server b \<and> rooms b key = Some r) \<and> snapshot_ok ser de r \<and> j = room_to_json ser r"

definition files_saved :: "(envelope \<Rightarrow> string) \<Rightarrow> (string \<Rightarrow> envelope) \<Rightarrow> (string \<rightharpoonup> json) \<Rightarrow> bool" where
  "files_saved ser de files \<longleftrightarrow> (\<forall>key j. files key = Some j \<longrightarrow> (\<exists>r. saved_room ser de key j r))"

lemma saved_room_id: "saved_room ser de key j r \<Longrightarrow> room_id r = key"
  using world_okD(1)[OF reachable_ok[OF server_reaches_worlds]]
  by (fastforce simp: saved_room_def room_ok_def)

lemma restore_files:
  assumes "distinct keys" and "\<And>key. key \<in> set keys \<Longrightarrow> saved_room ser de key (f key) (sv key)"
    and "\<And>key. key \<in> set keys \<Longrightarrow> rs key = None"
  shows "restore_room_snapshots_from_disk de t (map f keys) rs =
    (\<lambda>key. if key \<in> set keys then Some (restored_room t (sv key)) else rs key)"
  using assms
proof (induction keys arbitrary: rs)
  case Nil
  show ?case by (simp add: restore_room_snapshots_from_disk_def)
next
  case (Cons k keys)
  have k: "room_id (sv k) = k" "snapshot_ok ser de (sv k)" "f k = room_to_json ser (sv k)"
    using Cons.prems(2)[of k] saved_room_id[of ser de k "f k" "sv k"] by (simp_all add: saved_room_def)
  have "restore_room de t (f k) rs = rs(k \<mapsto> restored_room t (sv k))"
    using restore_saved[OF k(2), of rs t] k Cons.prems(3)[of k] by simp
  then have "restore_room_snapshots_from_disk de t (map f (k # keys)) rs =
      restore_room_snapshots_from_disk de t (map f keys) (rs(k \<mapsto> restored_room t (sv k)))"
    by (simp add: restore_room_snapshots_from_disk_def)
  also have "\<dots> = (\<lambda>key. if key \<in> set keys then Some (restored_room t (sv key)) else (rs(k \<mapsto> restored_room t (sv k))) key)"
    using Cons.prems by (intro Cons.IH) auto
  finally show ?case using Cons.prems(1) by (auto simp: fun_eq_iff)
qed

lemma restart_rooms:
  assumes "files_saved ser de (disk m)" "distinct keys" "set keys = dom (disk m)"
  shows "disk m key = None \<Longrightarrow> rooms (server (restart de t names keys m)) key = None"
    and "disk m key = Some j \<Longrightarrow> \<exists>r. saved_room ser de key j r \<and>
      rooms (server (restart de t names keys m)) key = Some (restored_room t r)"
proof -
  have "\<forall>key\<in>dom (disk m). \<exists>r. saved_room ser de key (the (disk m key)) r"
    using assms(1) by (auto simp: files_saved_def)
  then obtain sv where sv: "\<And>key. key \<in> dom (disk m) \<Longrightarrow> saved_room ser de key (the (disk m key)) (sv key)"
    by metis
  have rooms: "rooms (server (restart de t names keys m)) =
      (\<lambda>key. if key \<in> dom (disk m) then Some (restored_room t (sv key)) else None)"
    using restore_files[OF assms(2), of ser de "the \<circ> disk m" sv Map.empty t] sv assms(3)
    by (simp add: restart_def)
  show "disk m key = None \<Longrightarrow> rooms (server (restart de t names keys m)) key = None"
    by (simp add: rooms domIff)
  show "disk m key = Some j \<Longrightarrow> \<exists>r. saved_room ser de key j r \<and>
      rooms (server (restart de t names keys m)) key = Some (restored_room t r)"
    using sv[of key] by (auto simp: rooms)
qed

lemma server_event_reachable: "reachable_server b \<Longrightarrow> server_event b c \<Longrightarrow> reachable_server c"
  by (erule server_event.cases) (auto intro: reachable_server.run server_run.frame server_run.event server_run.start)

lemma machine_files: "machine ser de m \<Longrightarrow> reachable_server (server m) \<and> files_saved ser de (disk m)"
proof (induction rule: machine.induct)
  case (boot t names)
  then show ?case by (simp add: reachable_server.boot files_saved_def)
next
  case (event m c)
  then show ?case
    using server_event_reachable by (auto simp: files_saved_def obliterate_erased_def)
next
  case (flush m key)
  then show ?case
    by (auto simp: flush_room_snapshot_to_disk_def files_saved_def saved_room_def split: option.splits)
next
  case (lost m key)
  then show ?case by (simp add: files_saved_def)
next
  case (stop m t keys names)
  have files: "files_saved ser de (disk m)" using stop.IH by simp
  have "\<exists>b r' ser de. reachable_server b \<and> rooms b key = Some r' \<and> snapshot_ok ser de r' \<and> r = restored_room t r'"
    if "rooms (server (restart de t names keys m)) key = Some r" for key r
  proof (cases "disk m key")
    case None
    show ?thesis using restart_rooms(1)[OF files stop.hyps(3,4) None] that by simp
  next
    case (Some j)
    obtain r' where r': "saved_room ser de key j r'"
      and came: "rooms (server (restart de t names keys m)) key = Some (restored_room t r')"
      using restart_rooms(2)[OF files stop.hyps(3,4) Some] by blast
    have "r = restored_room t r'" using that came by simp
    with r' show ?thesis by (auto simp: saved_room_def)
  qed
  then have "reachable_server ((initial_backend t True names)\<lparr>rooms := rooms (server (restart de t names keys m))\<rparr>)"
    using stop.hyps(2) by (intro reachable_server.recover)
  then show ?case using stop.IH by (simp add: restart_def)
qed

subsection \<open>A room that is saved\<close>

text \<open>User 7 makes a friend room, whose snapshot timer fires.\<close>

definition making_request :: HttpRequest where
  "making_request = demo_request\<lparr>rq_uri := ''/api/friend-rooms/create'', rq_clean_uri := ''/api/friend-rooms/create''\<rparr>"

definition making_frame :: json where
  "making_frame = jobj [(''type'', JStr ''api_request''), (''method'', JStr ''POST''),
     (''uri'', JStr ''/api/friend-rooms/create''), (''gateway_user_id'', JInt 7), (''gateway_profile_b64'', JStr ''QQ=='')]"

definition making_env :: GatewayEnv where
  "making_env = demo_env\<lparr>parse_json := (\<lambda>s. Some (if s = ''A'' then demo_profile else making_frame))\<rparr>"

definition making_server :: Backend where
  "making_server = (initial_backend 86400000 True Map.empty)\<lparr>gateway_attached := True\<rparr>"

definition made_room :: Room where
  "made_room = fresh_room 86400000 ''AAAAAA'' 7 ''private'' 5 1000 ''friend''"

lemma making_parsed:
  "request_view making_frame = Some making_request" "jfield ''type'' making_frame = Some (JStr ''api_request'')"
  by code_simp+

lemma made_room_ok: "snapshot_ok demo_ser demo_de made_room"
  by (simp add: made_room_def fresh_room_def set_up_room_def snapshot_ok_def default_room_def empty_seat_def
      seat_fits_def i32_defs in_i64_def kSeats_def smap_wf_def kRoomEventLogLimit_def clamp_def)

lemma making_speaker:
  "resolve_auth_http (HttpEnv.truncate making_env) making_request making_server =
     (Some \<lparr>as_session_id = ''gateway'', as_user_id = 7, as_username = [], as_expires_at = kForever\<rparr>,
      keep_profile demo_user making_server)"
  by (simp add: resolve_auth_http_def apply_gateway_profile_b64_def making_request_def demo_request_def demo_parsed
      demo_decoded making_env_def demo_env_def HttpEnv.truncate_def)

definition making_map :: World where
  "making_map = with_fresh_room ''AAAAAA'' made_room (World.truncate (keep_profile demo_user making_server))"

definition made :: Backend where
  "made = with_world making_map (keep_profile demo_user making_server)"

lemma making_code: "unused_room_code (\<lambda>_. 0) (rooms making_server) 0 = Some ''AAAAAA''"
  by (subst unused_room_code.simps)
     (simp add: next_room_code_def kAlphabet_def making_server_def initial_backend_def World.extend_def
      initial_world_def upt_rec[of _ 6] Let_def)

lemma making_creates:
  "friend_room_create (HttpEnv.truncate making_env) (parse_form_body []) demo_user (keep_profile demo_user making_server) =
     Some (room_reply made_room, made)"
proof -
  have form: "parse_form_body [] = Map.empty"
    by (simp add: parse_form_body_def form_pair_def before_eq_def url_decode.simps)
  have parts: "code_draws (HttpEnv.truncate making_env) = (\<lambda>_. 0)" "ud_user_id demo_user = 7"
    "now (keep_profile demo_user making_server) = 86400000" "rooms (keep_profile demo_user making_server) = rooms making_server"
    by (simp_all add: making_env_def demo_env_def HttpEnv.truncate_def demo_user_def keep_profile_def cache_profile_def
        making_server_def initial_backend_def World.extend_def initial_world_def)
  show ?thesis
    by (simp add: friend_room_create_def create_room_written parts making_code form form_hands_def form_chips_def
        made_room_def made_def making_map_def)
qed

lemma making_served:
  "handle_http_request (HttpEnv.truncate making_env) making_request making_server = Some (room_reply made_room, made)"
proof -
  have "early_reply (HttpEnv.truncate making_env) making_request making_server = None"
    by (simp add: early_reply_def route_def making_request_def demo_request_def)
  moreover have "get_profile_by_user_id 7 (keep_profile demo_user making_server) = (Some demo_user, keep_profile demo_user making_server)"
    by (simp add: get_profile_by_user_id_def keep_profile_def cache_profile_def demo_user_def)
  moreover have "user_request env making_request auth b =
      with_profile auth (friend_room_create env (parse_form_body [])) b" for env auth b
    by (simp add: user_request_def room_request_def route_def making_request_def demo_request_def starts_with_def
        is_register_uri_def)
  ultimately show ?thesis
    using making_speaker making_creates by (simp add: handle_http_request_def with_profile_def with_login_def)
qed

lemma making_answered: "\<exists>fs. on_frame making_env [] making_server = Answered made fs"
  using making_served making_parsed
  by (simp add: on_frame_def on_gateway_down_json_def on_api_request_def making_env_def)
     (simp add: making_server_def)

definition saved_machine :: Machine where
  "saved_machine = flush_room_snapshot_to_disk demo_ser ''AAAAAA'' \<lparr>server = made, disk = Map.empty\<rparr>"

lemma made_fields: "rooms made = [''AAAAAA'' \<mapsto> made_room]" "snapshot_timers made = {''AAAAAA''}" "snapshots_on made"
proof -
  have parts: "rooms b = rooms (World.truncate b)" "snapshot_timers b = snapshot_timers (World.truncate b)"
    "snapshots_on b = snapshots_on (World.truncate b)" for b :: Backend
    by (simp_all add: World.truncate_def)
  have map: "World.truncate made = making_map"
    by (simp add: made_def)
  have start: "snapshots_on (World.truncate (keep_profile demo_user making_server))"
    "rooms (keep_profile demo_user making_server) = Map.empty"
    "snapshot_timers (World.truncate (keep_profile demo_user making_server)) = {}"
    by (simp_all add: World.truncate_def keep_profile_def cache_profile_def making_server_def initial_backend_def
        World.extend_def initial_world_def)
  show "rooms made = [''AAAAAA'' \<mapsto> made_room]"
    using start by (subst parts) (simp add: map making_map_def with_fresh_room_def)
  show "snapshot_timers made = {''AAAAAA''}"
    using start by (subst parts) (simp add: map making_map_def with_fresh_room_def)
  show "snapshots_on made"
    using start by (subst parts) (simp add: map making_map_def with_fresh_room_def)
qed

lemma saved_disk: "disk saved_machine = [''AAAAAA'' \<mapsto> room_to_json demo_ser made_room]"
  by (simp add: saved_machine_def flush_room_snapshot_to_disk_def made_fields)

lemma saved_machine_reached: "machine demo_ser demo_de saved_machine"
proof -
  have start: "machine demo_ser demo_de \<lparr>server = making_server, disk = Map.empty\<rparr>"
    using machine.event[OF machine.boot server_event.own[OF own_event.attach], of 86400000 demo_ser demo_de Map.empty]
    by (simp add: making_server_def obliterate_erased_def)
  obtain fs where "on_frame making_env [] making_server = Answered made fs"
    using making_answered by blast
  from machine.event[OF start, of made] server_event.frame[OF this]
  have "machine demo_ser demo_de \<lparr>server = made, disk = Map.empty\<rparr>"
    by (simp add: obliterate_erased_def)
  then show ?thesis
    unfolding saved_machine_def by (rule machine.flush) (auto simp: made_fields made_room_ok)
qed

text \<open>
  C20. Nothing but the past comes back. In every machine that can come about, through any events, flushes,
  lost files and restarts, each file on disk holds a room as some server of the machine's past, or of a past
  like it, had it; and a restart brings back exactly the rooms on disk, each as it was saved with everybody
  offline. Together with C1 this makes the invariants of the rooms survive restarts.
\<close>

theorem restart_restores_the_disk:
  assumes "machine ser de m" and "distinct keys" and "set keys = dom (disk m)"
  shows "reachable_server (server m) \<and>
    (\<forall>key. case disk m key of
       None \<Rightarrow> rooms (server (restart de t names keys m)) key = None
     | Some j \<Rightarrow> \<exists>b r. reachable_server b \<and> rooms b key = Some r \<and> j = room_to_json ser r \<and>
         rooms (server (restart de t names keys m)) key = Some (restored_room t r))"
proof -
  have files: "files_saved ser de (disk m)" and reach: "reachable_server (server m)"
    using machine_files[OF assms(1)] by simp_all
  have "case disk m key of
       None \<Rightarrow> rooms (server (restart de t names keys m)) key = None
     | Some j \<Rightarrow> \<exists>b r. reachable_server b \<and> rooms b key = Some r \<and> j = room_to_json ser r \<and>
         rooms (server (restart de t names keys m)) key = Some (restored_room t r)" for key
  proof (cases "disk m key")
    case None
    then show ?thesis using restart_rooms(1)[OF files assms(2,3) None] by simp
  next
    case (Some j)
    then show ?thesis
      using restart_rooms(2)[OF files assms(2,3) Some, of t names] by (auto simp: saved_room_def)
  qed
  with reach show ?thesis by blast
qed

theorem restart_restores_the_disk_witness:
  "\<exists>r. rooms (server (restart demo_de 9 Map.empty [''AAAAAA''] saved_machine)) ''AAAAAA'' = Some (restored_room 9 r) \<and>
     disk saved_machine ''AAAAAA'' = Some (room_to_json demo_ser r)"
  using conjunct2[OF restart_restores_the_disk[OF saved_machine_reached, of "[''AAAAAA'']" 9 Map.empty],
      THEN spec[of _ "''AAAAAA''"]]
  by (auto simp: saved_disk)

end
