(* ===== verification/Environment.thy ===== *)
theory Environment
  imports Http_Auth
begin

section \<open>Numbers as texts, environment variables (main.cpp)\<close>

text \<open>
  Reading the decimal numbers that the program and its libraries write (\<open>std::atoll\<close>, \<open>std::stoi\<close>), and
  the settings of the process. The environment is a map from names to values.
\<close>

subsection \<open>Reading numbers\<close>

definition signed_digits :: "string \<Rightarrow> bool \<times> string" where
  "signed_digits s =
     (let t = dropWhile isspace (c_str s)
      in (t \<noteq> [] \<and> hd t = CHR ''-'',
          takeWhile is_digit (if t \<noteq> [] \<and> (hd t = CHR ''-'' \<or> hd t = CHR ''+'') then tl t else t)))"

definition signed_value :: "bool \<times> string \<Rightarrow> int" where
  "signed_value t = (if fst t then - digits_value (snd t) else digits_value (snd t))"

text \<open>\<open>std::atoll\<close>, saturating where C leaves the result open.\<close>

definition atoll :: "string \<Rightarrow> int" where
  "atoll s = max (- (2 ^ 63)) (min (2 ^ 63 - 1) (signed_value (signed_digits s)))"

text \<open>\<open>std::stoi\<close>; \<open>None\<close> is an exception: no digit, or out of the range of an \<open>int\<close>.\<close>

definition stoi :: "string \<Rightarrow> int option" where
  "stoi s =
     (let t = signed_digits s
      in if snd t = [] \<or> \<not> in_i32 (signed_value t) then None else Some (signed_value t))"

subsection \<open>What is written is read back\<close>

lemma byte_digit_char: "d < 10 \<Longrightarrow> byte (digit_char d) = 48 + d"
  by (simp add: digit_char_def)

lemma digits_value_snoc: "digits_value (ds @ [c]) = digits_value ds * 10 + (int (byte c) - 48)"
  by (simp add: digits_value_def)

lemma nat_to_string_digits: "\<forall>c\<in>set (nat_to_string n). is_digit c"
  by (induction n rule: nat_to_string.induct)
     (subst nat_to_string.simps, auto simp: is_digit_def byte_digit_char)

lemma nat_to_string_nonempty [simp]: "nat_to_string n \<noteq> []"
  by (subst nat_to_string.simps) simp

lemma digits_value_nat_to_string [simp]: "digits_value (nat_to_string n) = int n"
proof (induction n rule: nat_to_string.induct)
  case (1 n)
  show ?case
  proof (cases "n < 10")
    case True
    then show ?thesis by (subst nat_to_string.simps) (simp add: digits_value_def byte_digit_char)
  next
    case False
    then have "digits_value (nat_to_string n) = int (n div 10) * 10 + int (n mod 10)"
      using 1 by (subst nat_to_string.simps) (simp add: digits_value_snoc byte_digit_char)
    also have "\<dots> = int n" by (simp add: zdiv_int zmod_int)
    finally show ?thesis .
  qed
qed

definition not_digit_first :: "string \<Rightarrow> bool" where
  "not_digit_first r \<longleftrightarrow> (case r of [] \<Rightarrow> True | c # _ \<Rightarrow> \<not> is_digit c)"

lemma takeWhile_digits:
  "not_digit_first r \<Longrightarrow> takeWhile is_digit (nat_to_string n @ r) = nat_to_string n"
  "not_digit_first r \<Longrightarrow> dropWhile is_digit (nat_to_string n @ r) = r"
  using nat_to_string_digits[of n]
  by (auto simp: takeWhile_append dropWhile_append not_digit_first_def takeWhile_eq_Nil_iff split: list.splits)

lemma digits_not_blank: "is_digit c \<Longrightarrow> \<not> isspace c \<and> byte c \<noteq> 0 \<and> c \<noteq> CHR ''-'' \<and> c \<noteq> CHR ''+''"
  by (auto simp: is_digit_def isspace_def)

lemma signed_digits_to_string [simp]: "signed_digits (to_string i) = (i < 0, nat_to_string (nat \<bar>i\<bar>))"
proof -
  have all: "c_str (nat_to_string n) = nat_to_string n" "takeWhile is_digit (nat_to_string n) = nat_to_string n" for n
    using nat_to_string_digits[of n] digits_not_blank by (auto simp: c_str_def takeWhile_eq_all_conv)
  obtain c s where cs: "nat_to_string (nat \<bar>i\<bar>) = c # s" by (cases "nat_to_string (nat \<bar>i\<bar>)") auto
  then have c: "is_digit c" using nat_to_string_digits[of "nat \<bar>i\<bar>"] by simp
  show ?thesis
  proof (cases "i < 0")
    case True
    have "c_str (CHR ''-'' # nat_to_string (nat (- i))) = CHR ''-'' # nat_to_string (nat (- i))"
      using all(1)[of "nat (- i)"] by (simp add: c_str_def)
    then show ?thesis
      using True all(2) by (simp add: signed_digits_def to_string_def isspace_def Let_def)
  next
    case False
    then show ?thesis
      using cs c all[of "nat i"] digits_not_blank[OF c]
      by (simp add: signed_digits_def to_string_def Let_def)
  qed
qed

lemma atoll_to_string: "in_i64 i \<Longrightarrow> atoll (to_string i) = i"
  by (auto simp: atoll_def signed_value_def in_i64_def)

lemma stoi_to_string: "stoi (to_string i) = (if in_i32 i then Some i else None)"
  by (auto simp: stoi_def signed_value_def Let_def)

subsection \<open>The environment\<close>

type_synonym environ = "string \<rightharpoonup> string"

definition get_env :: "environ \<Rightarrow> string \<Rightarrow> string \<Rightarrow> string" where
  "get_env env name fallback = (case env name of None \<Rightarrow> fallback | Some v \<Rightarrow> v)"

definition get_env_int :: "environ \<Rightarrow> string \<Rightarrow> int \<Rightarrow> int" where
  "get_env_int env name fallback =
     (let raw = get_env env name []
      in if raw = [] then fallback else (case stoi raw of None \<Rightarrow> fallback | Some v \<Rightarrow> v))"

definition nebula_room_snapshots_enabled :: "environ \<Rightarrow> bool" where
  "nebula_room_snapshots_enabled env =
     (let v = get_env env ''NEBULA_ENABLE_ROOM_SNAPSHOT'' ''0''
      in v \<noteq> ''0'' \<and> v \<noteq> ''false'' \<and> v \<noteq> ''FALSE'')"

text \<open>The operator \<open>/\<close> of \<open>std::filesystem::path\<close>.\<close>

definition path_append :: "string \<Rightarrow> string \<Rightarrow> string" where
  "path_append p q =
     (if q \<noteq> [] \<and> hd q = CHR ''/'' then q
      else if p = [] \<or> last p = CHR ''/'' then p @ q
      else p @ ''/'' @ q)"

definition nebula_snapshot_dir_path :: "environ \<Rightarrow> string" where
  "nebula_snapshot_dir_path env =
     (let custom = get_env env ''NEBULA_SNAPSHOT_DIR'' []; repo = get_env env ''NEBULA_REPO_ROOT'' []
      in if custom \<noteq> [] then custom
         else if repo \<noteq> [] then path_append (path_append repo ''.runtime'') ''rooms''
         else path_append ''.runtime'' ''rooms'')"

definition nebula_snapshot_room_file :: "environ \<Rightarrow> string \<Rightarrow> string" where
  "nebula_snapshot_room_file env rid = path_append (nebula_snapshot_dir_path env) (rid @ ''.json'')"

text \<open>Every room has a file of its own. A room id never starts with a slash: it is a code of letters and digits.\<close>

lemma room_files_differ:
  assumes "nebula_snapshot_room_file env a = nebula_snapshot_room_file env b"
    and "a \<noteq> []" "hd a \<noteq> CHR ''/''" "b \<noteq> []" "hd b \<noteq> CHR ''/''"
  shows "a = b"
  using assms by (auto simp: nebula_snapshot_room_file_def path_append_def split: if_splits)

end
