(* ===== verification/Process.thy ===== *)
theory Process
  imports Disk Environment
begin

section \<open>Starting, accepting the gateway, writing a snapshot (main.cpp)\<close>

text \<open>
  What the process does around the handlers: \<open>PokerServer::run\<close> once the socket listens, the acceptance of the one
  gateway, and the system calls by which a snapshot gets to the disk, between any two of which the
  process may be killed.
\<close>

subsection \<open>Start and acceptance\<close>

text \<open>
  A server whose snapshots are switched on starts with the rooms of the files; the others do not look at
  them.
\<close>

definition run_server ::
  "environ \<Rightarrow> (string \<Rightarrow> envelope) \<Rightarrow> int \<Rightarrow> (int \<rightharpoonup> string) \<Rightarrow> string list \<Rightarrow> Machine \<Rightarrow> Machine" where
  "run_server env de t names keys m =
     (if nebula_room_snapshots_enabled env then restart de t names keys m
      else m\<lparr>server := initial_backend t False names\<rparr>)"

text \<open>\<open>ec\<close>: \<open>async_accept\<close> failed. The second component says that the new connection is closed at once.\<close>

definition do_accept :: "bool \<Rightarrow> Backend \<Rightarrow> Backend \<times> bool" where
  "do_accept ec b =
     (if ec then (b, False)
      else if gateway_attached b then (b, True)
      else (b\<lparr>gateway_attached := True\<rparr>, False))"

lemma do_accept_reachable: "reachable_server b \<Longrightarrow> reachable_server (fst (do_accept ec b))"
  using server_event_reachable[OF _ server_event.own[OF own_event.attach]] by (simp add: do_accept_def)

lemma one_gateway: "gateway_attached b \<Longrightarrow> fst (do_accept ec b) = b"
  by (simp add: do_accept_def)

lemma run_server_reachable:
  assumes "machine ser de m" "0 \<le> t" "distinct keys" "set keys = dom (disk m)"
  shows "reachable_server (server (run_server env de t names keys m))"
  using machine_files[OF machine.stop[OF assms]] assms(2) reachable_server.boot
  by (simp add: run_server_def)

subsection \<open>Writing a snapshot\<close>

type_synonym directory = "string \<rightharpoonup> string"

text \<open>
  \<open>write_atomic_json_file\<close>: the directory after each system call that changes it. \<open>renames\<close>: whether the last one, \<open>rename\<close>,
  succeeds; if not, the temporary file is removed.
\<close>

definition write_atomic_json_file :: "bool \<Rightarrow> string \<Rightarrow> string \<Rightarrow> directory \<Rightarrow> directory list" where
  "write_atomic_json_file renames path content d =
     (let tmp = path @ ''.tmp'';
          written = d(tmp \<mapsto> content);
          removed = written(path := None);
          ended = (if renames then removed(path \<mapsto> content, tmp := None) else removed(tmp := None))
      in [written, removed, ended])"

text \<open>Where the process may be when it is killed: between two calls, or within the first, with a part of the text written.\<close>

definition killed_at :: "bool \<Rightarrow> string \<Rightarrow> string \<Rightarrow> directory \<Rightarrow> directory \<Rightarrow> bool" where
  "killed_at renames path content d d' \<longleftrightarrow>
     d' \<in> set (d # write_atomic_json_file renames path content d) \<or>
     (\<exists>n. d' = d(path @ ''.tmp'' \<mapsto> take n content))"

text \<open>
  The snapshots a restart finds in a directory: those of the \<open>.json\<close> files that parse. A room id is never
  empty and has no slash.
\<close>

definition saved_in :: "(string \<Rightarrow> json option) \<Rightarrow> environ \<Rightarrow> directory \<Rightarrow> (string \<rightharpoonup> json)" where
  "saved_in parse env d key =
     (if key = [] \<or> hd key = CHR ''/'' then None
      else case d (nebula_snapshot_room_file env key) of None \<Rightarrow> None | Some txt \<Rightarrow> parse txt)"

lemma not_temporary: "nebula_snapshot_room_file env key \<noteq> path @ ''.tmp''"
proof
  assume "nebula_snapshot_room_file env key = path @ ''.tmp''"
  then have "last (nebula_snapshot_room_file env key) = CHR ''p''" by simp
  then show False by (simp add: nebula_snapshot_room_file_def path_append_def split: if_splits)
qed

lemma saved_in_writes:
  assumes "key \<noteq> []" "hd key \<noteq> CHR ''/''"
  shows "saved_in parse env (d(path @ ''.tmp'' := x)) = saved_in parse env d"
    and "saved_in parse env (d(nebula_snapshot_room_file env key := x)) =
      (saved_in parse env d)(key := (case x of None \<Rightarrow> None | Some txt \<Rightarrow> parse txt))"
proof -
  have same: "nebula_snapshot_room_file env k = nebula_snapshot_room_file env key \<longleftrightarrow> k = key"
    if "k \<noteq> []" "hd k \<noteq> CHR ''/''" for k
    using room_files_differ[OF _ that assms] by blast
  show "saved_in parse env (d(path @ ''.tmp'' := x)) = saved_in parse env d"
    by (simp add: saved_in_def not_temporary fun_eq_iff)
  show "saved_in parse env (d(nebula_snapshot_room_file env key := x)) =
      (saved_in parse env d)(key := (case x of None \<Rightarrow> None | Some txt \<Rightarrow> parse txt))"
    using assms by (auto simp: saved_in_def same fun_eq_iff)
qed

lemma killed_states:
  assumes "killed_at renames (nebula_snapshot_room_file env key) content d d'" and "key \<noteq> []" "hd key \<noteq> CHR ''/''"
  shows "saved_in parse env d' \<in> {saved_in parse env d, (saved_in parse env d)(key := None),
    (saved_in parse env d)(key := parse content)}"
  using assms(1) unfolding killed_at_def write_atomic_json_file_def Let_def
  by (auto simp: saved_in_writes[OF assms(2,3)])

text \<open>
  C22. Snapshots survive a crash. Wherever the process is killed while it writes a snapshot, and whether or not the
  renaming works, a restart finds a directory that the machine of \<open>Disk\<close> can have: the snapshots of all
  other rooms as they were, and of this room the old one, the new one or none, never a
  part of one.
\<close>

theorem snapshot_write_refines_machine:
  assumes "machine ser de m" and "saved_in parse env d = disk m"
    and "key \<in> snapshot_timers (server m)" "snapshots_on (server m)" "rooms (server m) key = Some r" "snapshot_ok ser de r"
    and "key \<noteq> []" "hd key \<noteq> CHR ''/''" and "parse (dump (room_to_json ser r)) = Some (room_to_json ser r)"
    and "killed_at renames (nebula_snapshot_room_file env key) (dump (room_to_json ser r)) d d'"
  shows "\<exists>m'. machine ser de m' \<and> server m' = server m \<and> disk m' = saved_in parse env d'"
proof -
  have flushed: "flush_room_snapshot_to_disk ser key m = m\<lparr>disk := (disk m)(key \<mapsto> room_to_json ser r)\<rparr>"
    using assms(4,5) by (simp add: flush_room_snapshot_to_disk_def)
  have "machine ser de (m\<lparr>disk := (disk m)(key \<mapsto> room_to_json ser r)\<rparr>)"
    using machine.flush[OF assms(1,3)] assms(5,6) by (simp add: flushed)
  moreover have "machine ser de (m\<lparr>disk := (disk m)(key := None)\<rparr>)"
    by (rule machine.lost[OF assms(1)])
  moreover have "saved_in parse env d' \<in> {disk m, (disk m)(key := None), (disk m)(key \<mapsto> room_to_json ser r)}"
    using killed_states[OF assms(10,7,8), of parse] unfolding assms(2,9) .
  ultimately show ?thesis using assms(1) by (auto intro: exI[of _ "m\<lparr>disk := d\<rparr>" for d] exI[of _ m])
qed

definition demo_dump :: "json \<Rightarrow> string" where
  "demo_dump j = ''room''"

definition demo_parse :: "string \<Rightarrow> json option" where
  "demo_parse txt = (if txt = ''room'' then Some (room_to_json demo_ser made_room) else None)"

text \<open>The room of \<open>Disk\<close>, whose process is killed between the removal of the old file and the renaming: it is lost.\<close>

theorem snapshot_write_refines_machine_witness:
  "\<exists>m'. machine demo_ser demo_de m' \<and> rooms (server m') ''AAAAAA'' = Some made_room \<and> disk m' = Map.empty"
proof -
  let ?file = "nebula_snapshot_room_file Map.empty ''AAAAAA''"
  define d where "d = [?file \<mapsto> ''room'']"
  have view: "saved_in demo_parse Map.empty d = disk saved_machine"
    using saved_in_writes(2)[of "''AAAAAA''" demo_parse Map.empty Map.empty "Some ''room''"]
    by (simp add: d_def saved_disk demo_parse_def) (simp add: saved_in_def fun_eq_iff)
  have killed: "killed_at True ?file (demo_dump (room_to_json demo_ser made_room)) d
      (d(?file @ ''.tmp'' \<mapsto> ''room'', ?file := None))"
    by (simp add: killed_at_def write_atomic_json_file_def demo_dump_def Let_def)
  have server: "server saved_machine = made"
    by (simp add: saved_machine_def flush_room_snapshot_to_disk_def made_fields)
  have gone: "saved_in demo_parse Map.empty (d(?file @ ''.tmp'' \<mapsto> ''room'', ?file := None)) = Map.empty"
    by (simp add: d_def saved_in_writes saved_in_def fun_eq_iff not_temporary)
  obtain m' where "machine demo_ser demo_de m'" "server m' = server saved_machine"
      "disk m' = saved_in demo_parse Map.empty (d(?file @ ''.tmp'' \<mapsto> ''room'', ?file := None))"
    using snapshot_write_refines_machine[of demo_ser demo_de saved_machine demo_parse Map.empty d "''AAAAAA''" made_room
        demo_dump, OF saved_machine_reached view _ _ _ made_room_ok _ _ _ killed]
    by (auto simp: server made_fields demo_dump_def demo_parse_def)
  then show ?thesis
    by (intro exI[of _ m']) (simp only: server made_fields gone fun_upd_same simp_thms)
qed

end
