(* ===== verification/Sha256.thy ===== *)
theory Sha256
  imports Text_Utils "HOL-Library.Word"
begin

section \<open>SHA-256 (sha256.hpp)\<close>

text \<open>
  The hash behind the password records. The first part is the code: arrays that are written in place, a
  loop per phase, words of 32 bits whose sums wrap. The second part is the algorithm as FIPS 180-4
  states it, by recursion on the number of the round, with the rotation of the library. The theory
  shows that both give the same digest for every input.
\<close>

unbundle bit_operations_syntax

subsection \<open>The code\<close>

definition rotr :: "32 word \<Rightarrow> nat \<Rightarrow> 32 word" where
  "rotr v n = drop_bit n v OR push_bit (32 - n) v"

definition ch :: "32 word \<Rightarrow> 32 word \<Rightarrow> 32 word \<Rightarrow> 32 word" where
  "ch x y z = (x AND y) XOR (NOT x AND z)"

definition maj :: "32 word \<Rightarrow> 32 word \<Rightarrow> 32 word \<Rightarrow> 32 word" where
  "maj x y z = (x AND y) XOR (x AND z) XOR (y AND z)"

definition big_sigma0 :: "32 word \<Rightarrow> 32 word" where
  "big_sigma0 x = rotr x 2 XOR rotr x 13 XOR rotr x 22"

definition big_sigma1 :: "32 word \<Rightarrow> 32 word" where
  "big_sigma1 x = rotr x 6 XOR rotr x 11 XOR rotr x 25"

definition small_sigma0 :: "32 word \<Rightarrow> 32 word" where
  "small_sigma0 x = rotr x 7 XOR rotr x 18 XOR drop_bit 3 x"

definition small_sigma1 :: "32 word \<Rightarrow> 32 word" where
  "small_sigma1 x = rotr x 17 XOR rotr x 19 XOR drop_bit 10 x"

text \<open>The table, in the rows of the source.\<close>

definition kTable :: "32 word list" where
  "kTable = concat
     [[0x428a2f98, 0x71374491, 0xb5c0fbcf, 0xe9b5dba5, 0x3956c25b, 0x59f111f1, 0x923f82a4],
      [0xab1c5ed5, 0xd807aa98, 0x12835b01, 0x243185be, 0x550c7dc3, 0x72be5d74, 0x80deb1fe],
      [0x9bdc06a7, 0xc19bf174, 0xe49b69c1, 0xefbe4786, 0x0fc19dc6, 0x240ca1cc, 0x2de92c6f],
      [0x4a7484aa, 0x5cb0a9dc, 0x76f988da, 0x983e5152, 0xa831c66d, 0xb00327c8, 0xbf597fc7],
      [0xc6e00bf3, 0xd5a79147, 0x06ca6351, 0x14292967, 0x27b70a85, 0x2e1b2138, 0x4d2c6dfc],
      [0x53380d13, 0x650a7354, 0x766a0abb, 0x81c2c92e, 0x92722c85, 0xa2bfe8a1, 0xa81a664b],
      [0xc24b8b70, 0xc76c51a3, 0xd192e819, 0xd6990624, 0xf40e3585, 0x106aa070, 0x19a4c116],
      [0x1e376c08, 0x2748774c, 0x34b0bcb5, 0x391c0cb3, 0x4ed8aa4a, 0x5b9cca4f, 0x682e6ff3],
      [0x748f82ee, 0x78a5636f, 0x84c87814, 0x8cc70208, 0x90befffa, 0xa4506ceb, 0xbef9a3f7],
      [0xc67178f2]]"

text \<open>\<open>while ((data.size() % 64U) != 56U) data.push_back(0U);\<close>\<close>

function push_zeros :: "8 word list \<Rightarrow> 8 word list" where
  "push_zeros data = (if length data mod 64 \<noteq> 56 then push_zeros (data @ [0]) else data)"
  by pat_completeness auto
termination
proof (relation "measure (\<lambda>data. if length data mod 64 \<le> 56 then 56 - length data mod 64 else 120 - length data mod 64)")
  fix data :: "8 word list"
  define m where "m = length data mod 64"
  have "m < 64" "Suc (length data) mod 64 = (if Suc m = 64 then 0 else Suc m)" by (simp_all add: m_def mod_Suc)
  moreover assume "length data mod 64 \<noteq> 56"
  ultimately show "(data @ [0], data) \<in> measure (\<lambda>data. if length data mod 64 \<le> 56 then 56 - length data mod 64 else 120 - length data mod 64)"
    unfolding m_def[symmetric] by (auto simp: m_def[symmetric])
qed simp

declare push_zeros.simps [simp del]

definition length_bytes :: "64 word \<Rightarrow> 8 word list" where
  "length_bytes bit_len = map (\<lambda>shift. ucast (drop_bit shift bit_len AND 0xff)) [56, 48, 40, 32, 24, 16, 8, 0]"

definition pad_message :: "8 word list \<Rightarrow> 8 word list" where
  "pad_message input =
     (let bit_len = of_nat (length input) * 8
      in push_zeros (input @ [0x80]) @ length_bytes bit_len)"

text \<open>One block: the first 16 words come from the bytes, the others from the words before.\<close>

definition load_word :: "8 word list \<Rightarrow> nat \<Rightarrow> 32 word" where
  "load_word data j =
     push_bit 24 (ucast (data ! j)) OR push_bit 16 (ucast (data ! (j + 1))) OR
     push_bit 8 (ucast (data ! (j + 2))) OR ucast (data ! (j + 3))"

definition load_block :: "8 word list \<Rightarrow> nat \<Rightarrow> 32 word list \<Rightarrow> 32 word list" where
  "load_block data offset w = fold (\<lambda>i w. w[i := load_word data (offset + i * 4)]) [0..<16] w"

definition extend_word :: "nat \<Rightarrow> 32 word list \<Rightarrow> 32 word list" where
  "extend_word i w =
     w[i := small_sigma1 (w ! (i - 2)) + w ! (i - 7) + small_sigma0 (w ! (i - 15)) + w ! (i - 16)]"

definition extend_block :: "32 word list \<Rightarrow> 32 word list" where
  "extend_block w = fold extend_word [16..<64] w"

text \<open>The eight registers \<open>a\<close> to \<open>h\<close>, and one turn of the loop over them.\<close>

type_synonym regs = "32 word \<times> 32 word \<times> 32 word \<times> 32 word \<times> 32 word \<times> 32 word \<times> 32 word \<times> 32 word"

fun sha_round :: "32 word \<Rightarrow> 32 word \<Rightarrow> regs \<Rightarrow> regs" where
  "sha_round k w (a, b, c, d, e, f, g, h) =
     (let temp1 = h + big_sigma1 e + ch e f g + k + w;
          temp2 = big_sigma0 a + maj a b c
      in (temp1 + temp2, a, b, c, d + temp1, e, f, g))"

fun add_regs :: "regs \<Rightarrow> regs \<Rightarrow> regs" where
  "add_regs (a, b, c, d, e, f, g, h) (a', b', c', d', e', f', g', h') =
     (a + a', b + b', c + c', d + d', e + e', f + f', g + g', h + h')"

definition first_hash :: regs where
  "first_hash = (0x6a09e667, 0xbb67ae85, 0x3c6ef372, 0xa54ff53a, 0x510e527f, 0x9b05688c, 0x1f83d9ab, 0x5be0cd19)"

definition compress :: "32 word list \<Rightarrow> regs \<Rightarrow> regs" where
  "compress w hash = add_regs hash (fold (\<lambda>i. sha_round (kTable ! i) (w ! i)) [0..<64] hash)"

function hash_blocks :: "8 word list \<Rightarrow> nat \<Rightarrow> 32 word list \<Rightarrow> regs \<Rightarrow> regs" where
  "hash_blocks data offset w hash =
     (if offset < length data then
        let w = extend_block (load_block data offset w)
        in hash_blocks data (offset + 64) w (compress w hash)
      else hash)"
  by pat_completeness auto
termination by (relation "measure (\<lambda>(data, offset, w, hash). length data - offset)") auto

declare hash_blocks.simps [simp del]

definition word_bytes :: "32 word \<Rightarrow> 8 word list" where
  "word_bytes x = map (\<lambda>n. ucast (drop_bit n x AND 0xff)) [24, 16, 8, 0]"

fun regs_bytes :: "regs \<Rightarrow> 8 word list" where
  "regs_bytes (a, b, c, d, e, f, g, h) = concat (map word_bytes [a, b, c, d, e, f, g, h])"

definition digest_bytes :: "8 word list \<Rightarrow> 8 word list" where
  "digest_bytes input = regs_bytes (hash_blocks (pad_message input) 0 (replicate 64 0) first_hash)"

definition string_bytes :: "string \<Rightarrow> 8 word list" where
  "string_bytes s = map (\<lambda>c. of_nat (byte c)) s"

definition hex_byte :: "8 word \<Rightarrow> string" where
  "hex_byte x = [hex_digit (unat x div 16), hex_digit (unat x mod 16)]"

definition sha256 :: "string \<Rightarrow> string" where
  "sha256 input = concat (map hex_byte (digest_bytes (string_bytes input)))"

subsection \<open>The standard\<close>

text \<open>
  FIPS 180-4: padding (5.1.1), message blocks (5.2.1), the functions (4.1.2) with the rotation of the
  library, the schedule and the rounds (6.2.2) by recursion. The constants are, as the standard says, the
  first 32 bits of the fractional parts of the cube roots of the first 64 primes and of the square roots
  of the first eight; \<open>root_fraction k p x\<close> says that \<open>x\<close> is that for the \<open>k\<close>-th root of \<open>p\<close>.
\<close>

definition fips_pad :: "8 word list \<Rightarrow> 8 word list" where
  "fips_pad msg =
     msg @ [0x80] @ replicate ((119 - length msg mod 64) mod 64) 0 @
     map (\<lambda>i. of_nat (8 * length msg div 256 ^ (7 - i))) [0..<8]"

definition fips_word :: "8 word list \<Rightarrow> nat \<Rightarrow> 32 word" where
  "fips_word D j = of_nat (unat (D ! j) * 2 ^ 24 + unat (D ! (j + 1)) * 2 ^ 16 + unat (D ! (j + 2)) * 2 ^ 8 + unat (D ! (j + 3)))"

definition fips_sigma :: "nat \<Rightarrow> nat \<Rightarrow> nat \<Rightarrow> 32 word \<Rightarrow> 32 word" where
  "fips_sigma i j n x = word_rotr i x XOR word_rotr j x XOR drop_bit n x"

definition fips_Sigma :: "nat \<Rightarrow> nat \<Rightarrow> nat \<Rightarrow> 32 word \<Rightarrow> 32 word" where
  "fips_Sigma i j k x = word_rotr i x XOR word_rotr j x XOR word_rotr k x"

function fips_W :: "(nat \<Rightarrow> 32 word) \<Rightarrow> nat \<Rightarrow> 32 word" where
  "fips_W M t =
     (if t < 16 then M t
      else fips_sigma 17 19 10 (fips_W M (t - 2)) + fips_W M (t - 7) +
           fips_sigma 7 18 3 (fips_W M (t - 15)) + fips_W M (t - 16))"
  by pat_completeness auto
termination by (relation "measure snd") auto

declare fips_W.simps [simp del]

fun fips_step :: "32 word \<Rightarrow> 32 word \<Rightarrow> regs \<Rightarrow> regs" where
  "fips_step K W (a, b, c, d, e, f, g, h) =
     (let T1 = h + fips_Sigma 6 11 25 e + ((e AND f) XOR (NOT e AND g)) + K + W;
          T2 = fips_Sigma 2 13 22 a + ((a AND b) XOR (a AND c) XOR (b AND c))
      in (T1 + T2, a, b, c, d + T1, e, f, g))"

primrec fips_rounds :: "(nat \<Rightarrow> 32 word) \<Rightarrow> regs \<Rightarrow> nat \<Rightarrow> regs" where
  "fips_rounds W r 0 = r"
| "fips_rounds W r (Suc t) = fips_step (kTable ! t) (W t) (fips_rounds W r t)"

definition fips_block :: "8 word list \<Rightarrow> nat \<Rightarrow> nat \<Rightarrow> 32 word" where
  "fips_block D i = fips_W (\<lambda>t. fips_word D (64 * i + 4 * t))"

definition fips_hash :: "8 word list \<Rightarrow> regs" where
  "fips_hash msg =
     (let D = fips_pad msg
      in foldl (\<lambda>H i. add_regs H (fips_rounds (fips_block D i) H 64)) first_hash [0..<length D div 64])"

fun fips_bytes :: "regs \<Rightarrow> nat list" where
  "fips_bytes (a, b, c, d, e, f, g, h) =
     concat (map (\<lambda>x. map (\<lambda>i. unat x div 256 ^ (3 - i) mod 256) [0..<4]) [a, b, c, d, e, f, g, h])"

definition int_root :: "nat \<Rightarrow> int \<Rightarrow> int" where
  "int_root k p = int (length (filter (\<lambda>q. q ^ k \<le> p) [1, 2, 3, 4, 5, 6, 7]))"

definition root_fraction :: "nat \<Rightarrow> int \<Rightarrow> 32 word \<Rightarrow> bool" where
  "root_fraction k p x \<longleftrightarrow>
     (let n = uint x + 2 ^ 32 * int_root k p in n ^ k \<le> p * 2 ^ (32 * k) \<and> p * 2 ^ (32 * k) < (n + 1) ^ k)"

definition primes64 :: "int list" where
  "primes64 =
     [2, 3, 5, 7, 11, 13, 17, 19, 23, 29, 31, 37, 41, 43, 47, 53, 59, 61, 67, 71, 73, 79, 83, 89, 97, 101, 103, 107,
      109, 113, 127, 131, 137, 139, 149, 151, 157, 163, 167, 173, 179, 181, 191, 193, 197, 199, 211, 223, 227, 229,
      233, 239, 241, 251, 257, 263, 269, 271, 277, 281, 283, 293, 307, 311]"

fun regs_list :: "regs \<Rightarrow> 32 word list" where
  "regs_list (a, b, c, d, e, f, g, h) = [a, b, c, d, e, f, g, h]"

lemma table_constants: "list_all2 (root_fraction 3) primes64 kTable"
  unfolding primes64_def kTable_def concat.simps append.simps list_all2_Cons list_all2_Nil
  by (intro conjI TrueI; simp add: root_fraction_def int_root_def)

lemma hash_constants: "list_all2 (root_fraction 2) (take 8 primes64) (regs_list first_hash)"
  by (simp add: primes64_def first_hash_def; simp add: root_fraction_def int_root_def)

subsection \<open>The code follows the standard\<close>

lemma rotr_word_rotr:
  assumes "0 < n" "n < 32"
  shows "rotr v n = word_rotr n v"
proof (rule bit_eqI)
  fix k assume "possible_bit TYPE(32 word) k"
  then have k: "k < 32" by simp
  show "bit (rotr v n) k = bit (word_rotr n v) k"
  proof (cases "k + n < 32")
    case True
    then have "\<not> 32 - n \<le> k" using assms by arith
    then show ?thesis using k assms True by (simp add: rotr_def bit_simps add.commute)
  next
    case False
    then have m: "(k + n) mod 32 = k + n - 32" using k assms by (simp add: mod_if)
    have "\<not> bit v (n + k)" using False by (simp add: bit_word.rep_eq)
    moreover have "32 - n \<le> k" using False by arith
    ultimately show ?thesis using k assms False m by (simp add: rotr_def bit_simps)
  qed
qed

lemma sha_round_step: "sha_round k w r = fips_step k w r"
  by (cases "(k, w, r)" rule: sha_round.cases) (simp add: ch_def maj_def big_sigma0_def big_sigma1_def fips_Sigma_def rotr_word_rotr Let_def)

lemma small_sigma_fips:
  "small_sigma0 x = fips_sigma 7 18 3 x" "small_sigma1 x = fips_sigma 17 19 10 x"
  by (simp_all add: small_sigma0_def small_sigma1_def fips_sigma_def rotr_word_rotr)

lemma rounds_fold: "fold (\<lambda>i. sha_round (kTable ! i) (W i)) [0..<n] r = fips_rounds W r n"
  by (induction n) (simp_all add: sha_round_step)

lemma rounds_cong: "(\<And>t. t < n \<Longrightarrow> W t = W' t) \<Longrightarrow> fips_rounds W r n = fips_rounds W' r n"
  by (induction n) simp_all

text \<open>Padding.\<close>

lemma zeros_step: "n mod 64 \<noteq> 56 \<Longrightarrow> (120 - n mod 64) mod 64 = Suc ((120 - Suc n mod 64) mod (64::nat))"
proof -
  assume ne: "n mod 64 \<noteq> 56"
  define m where "m = n mod 64"
  have "m < 64" "Suc n mod 64 = (if Suc m = 64 then 0 else Suc m)" by (simp_all add: m_def mod_Suc)
  with ne show ?thesis unfolding m_def[symmetric] by (auto simp: mod_if)
qed

lemma push_zeros_replicate: "push_zeros data = data @ replicate ((120 - length data mod 64) mod 64) 0"
proof (induction data rule: push_zeros.induct)
  case (1 data)
  show ?case
  proof (cases "length data mod 64 = 56")
    case False
    have "push_zeros data = push_zeros (data @ [0])" using False by (subst push_zeros.simps) simp
    also have "\<dots> = data @ replicate (Suc ((120 - Suc (length data) mod 64) mod 64)) 0" using 1[OF False] by simp
    finally show ?thesis using zeros_step[OF False] by simp
  qed (subst push_zeros.simps, simp)
qed

lemma ff_mask: "(0xff :: 'a::len word) = mask 8"
  by (simp add: mask_eq_exp_minus_1)

lemma byte_of_length:
  assumes "s \<le> 56"
  shows "(ucast (drop_bit s (of_nat n :: 64 word) AND 0xff) :: 8 word) = of_nat (n div 2 ^ s)"
proof (rule bit_eqI)
  fix k assume "possible_bit TYPE(8 word) k"
  then have k: "k < 8" by simp
  show "bit (ucast (drop_bit s (of_nat n :: 64 word) AND 0xff) :: 8 word) k = bit (of_nat (n div 2 ^ s) :: 8 word) k"
    unfolding ff_mask using k assms by (simp add: bit_simps drop_bit_eq_div[symmetric])
qed

lemma pad_message_fips: "pad_message msg = fips_pad msg"
proof -
  have "length_bytes (of_nat (length msg) * 8) = map (\<lambda>i. of_nat (8 * length msg div 256 ^ (7 - i))) [0..<8]"
    using byte_of_length[of _ "length msg * 8"] byte_of_length[of 0 "length msg * 8"] by (simp add: length_bytes_def upt_rec mult.commute)
  moreover have "(120 - Suc (length msg) mod 64) mod 64 = (119 - length msg mod 64) mod (64::nat)"
    by (simp add: mod_Suc)
  ultimately show ?thesis by (simp add: pad_message_def fips_pad_def push_zeros_replicate Let_def)
qed

lemma length_fips_pad: "length (fips_pad msg) mod 64 = 0"
proof -
  define m where "m = length msg mod 64"
  have "m < 64" by (simp add: m_def)
  have "length (fips_pad msg) = length msg + (9 + (119 - m) mod 64)" by (simp add: fips_pad_def m_def)
  also have "\<dots> mod 64 = (m + (9 + (119 - m) mod 64)) mod 64" by (simp add: m_def mod_add_left_eq)
  also have "\<dots> = 0" using \<open>m < 64\<close> by (auto simp: mod_if)
  finally show ?thesis .
qed

text \<open>One block.\<close>

lemma disjoint_add: "a AND b = 0 \<Longrightarrow> a OR b = a + (b :: 32 word)"
  by (simp add: disjunctive_add_eq_or)

lemma ucast_byte: "(ucast (b :: 8 word) :: 32 word) = of_nat (unat b)"
  by simp

lemma byte_high: "bit (b :: 8 word) k \<Longrightarrow> k < 8"
  using bit_imp_le_length[of b k] by simp

lemma load_word_fips: "load_word D j = fips_word D j"
proof -
  let ?a = "push_bit 24 (ucast (D ! j)) :: 32 word" and ?b = "push_bit 16 (ucast (D ! (j + 1))) :: 32 word"
  let ?c = "push_bit 8 (ucast (D ! (j + 2))) :: 32 word" and ?d = "ucast (D ! (j + 3)) :: 32 word"
  have "?a AND ?b = 0" "(?a OR ?b) AND ?c = 0" "(?a OR ?b OR ?c) AND ?d = 0"
    by (rule bit_eqI, auto simp: bit_simps dest: byte_high)+
  then have "?a OR ?b OR ?c OR ?d = ?a + ?b + ?c + ?d"
    by (simp add: disjoint_add or.assoc[symmetric] del: ucast_byte)
  then show ?thesis
    by (simp add: load_word_def fips_word_def or.assoc push_bit_eq_mult mult.commute)
qed

lemma fold_write:
  "length (fold (\<lambda>i w. w[i := f i]) [0..<n] w) = length w"
  "n \<le> length w \<Longrightarrow> i < n \<Longrightarrow> fold (\<lambda>i w. w[i := f i]) [0..<n] w ! i = f i"
proof -
  show len: "length (fold (\<lambda>i w. w[i := f i]) [0..<n] w) = length w" for n by (induction n) simp_all
  show "n \<le> length w \<Longrightarrow> i < n \<Longrightarrow> fold (\<lambda>i w. w[i := f i]) [0..<n] w ! i = f i"
    by (induction n) (auto simp: len nth_list_update)
qed

lemma extend_block_nth:
  assumes "length w = 64" "\<And>t. t < 16 \<Longrightarrow> w ! t = M t" "n \<le> 48"
  shows "length (fold extend_word [16..<16 + n] w) = 64 \<and> (\<forall>t<16 + n. fold extend_word [16..<16 + n] w ! t = fips_W M t)"
  using assms(3)
proof (induction n)
  case 0
  show ?case using assms(1,2) by (simp add: fips_W.simps)
next
  case (Suc n)
  let ?v = "fold extend_word [16..<16 + n] w"
  have IH: "length ?v = 64" "?v ! t = fips_W M t" if "t < 16 + n" for t using Suc that by simp_all
  have len: "length ?v = 64" using Suc by simp
  have step: "fold extend_word [16..<16 + Suc n] w = extend_word (16 + n) ?v"
    using upt_Suc_append[of 16 "16 + n"] by simp
  have "extend_word (16 + n) ?v ! (16 + n) = fips_W M (16 + n)"
    using Suc.prems len IH(2)
    by (subst fips_W.simps) (simp add: extend_word_def small_sigma_fips)
  then have "extend_word (16 + n) ?v ! t = fips_W M t" if "t < 16 + Suc n" for t
    using that IH(2) by (cases "t = 16 + n") (simp_all add: extend_word_def)
  then show ?case unfolding step using len by (simp add: extend_word_def)
qed

lemma block_words:
  assumes "length w = 64"
  shows "length (extend_block (load_block D (64 * i) w)) = 64"
    and "t < 64 \<Longrightarrow> extend_block (load_block D (64 * i) w) ! t = fips_block D i t"
proof -
  have len: "length (load_block D (64 * i) w) = 64" by (simp add: load_block_def fold_write(1) assms)
  have "load_block D (64 * i) w ! t = fips_word D (64 * i + 4 * t)" if "t < 16" for t
    using that assms by (simp add: load_block_def fold_write(2) load_word_fips mult.commute)
  from extend_block_nth[OF len this, of 48]
  show "length (extend_block (load_block D (64 * i) w)) = 64"
    and "t < 64 \<Longrightarrow> extend_block (load_block D (64 * i) w) ! t = fips_block D i t"
    by (simp_all add: extend_block_def fips_block_def)
qed

lemma hash_blocks_fips:
  assumes "length D = 64 * N" "length w = 64" "i \<le> N"
  shows "hash_blocks D (64 * i) w H = foldl (\<lambda>H i. add_regs H (fips_rounds (fips_block D i) H 64)) H [i..<N]"
  using assms(2,3)
proof (induction "N - i" arbitrary: i w H)
  case 0
  then show ?case using assms(1) by (subst hash_blocks.simps) simp
next
  case (Suc n)
  let ?w = "extend_block (load_block D (64 * i) w)"
  have i: "i < N" using Suc.hyps(2) by simp
  have "compress ?w H = add_regs H (fips_rounds (fips_block D i) H 64)"
    unfolding compress_def rounds_fold
    using block_words(2)[OF Suc.prems(1)] rounds_cong[of 64 "\<lambda>t. ?w ! t" "fips_block D i"] by simp
  moreover have "hash_blocks D (64 * i) w H = hash_blocks D (64 * Suc i) ?w (compress ?w H)"
    using i assms(1) by (subst hash_blocks.simps) (simp add: Let_def add.commute)
  moreover have "hash_blocks D (64 * Suc i) ?w (compress ?w H) =
      foldl (\<lambda>H i. add_regs H (fips_rounds (fips_block D i) H 64)) (compress ?w H) [Suc i..<N]"
    using Suc i block_words(1)[OF Suc.prems(1)] by (intro Suc.hyps(1)) simp_all
  ultimately show ?case using i by (simp add: upt_conv_Cons)
qed

lemma word_bytes_unat: "map unat (word_bytes x) = map (\<lambda>i. unat x div 256 ^ (3 - i) mod 256) [0..<4]"
proof -
  have "unat x mod 4294967296 = unat x" using unsigned_less[of x, where ?'a = nat] by simp
  then have b: "unat (ucast (drop_bit n x AND 0xff) :: 8 word) = unat x div 2 ^ n mod 256" for n
    unfolding ff_mask take_bit_eq_mask[symmetric] unsigned_ucast_eq unsigned_take_bit_eq unsigned_drop_bit_eq
    by (simp add: take_bit_eq_mod drop_bit_eq_div)
  show ?thesis using b b[of 0] by (simp add: word_bytes_def upt_rec)
qed

lemma regs_bytes_fips: "map unat (regs_bytes r) = fips_bytes r"
  by (cases r rule: regs_bytes.cases) (simp add: word_bytes_unat del: upt.simps)

lemma hash_fips: "map unat (digest_bytes msg) = fips_bytes (fips_hash msg)"
proof -
  obtain N where N: "length (fips_pad msg) = 64 * N"
    using length_fips_pad[of msg] by (auto simp: mod_eq_0_iff_dvd dvd_def)
  have "hash_blocks (fips_pad msg) 0 (replicate 64 0) first_hash = fips_hash msg"
    using hash_blocks_fips[OF N, of "replicate 64 0" 0 first_hash] N by (simp add: fips_hash_def Let_def)
  then show ?thesis by (simp add: digest_bytes_def pad_message_fips regs_bytes_fips)
qed

lemma length_fips_bytes: "length (fips_bytes r) = 32"
  by (cases r rule: fips_bytes.cases) simp

text \<open>
  C36. The hash is SHA-256. For every input the digest is the one of FIPS 180-4, written as 64 lower-case hexadecimal
  digits; and the two tables of constants are what the standard derives from the first primes.
\<close>

theorem sha256_follows_standard:
  "sha256 s = concat (map (\<lambda>n. [hex_digit (n div 16), hex_digit (n mod 16)]) (fips_bytes (fips_hash (string_bytes s)))) \<and>
   length (sha256 s) = 64 \<and>
   list_all2 (root_fraction 3) primes64 kTable \<and> list_all2 (root_fraction 2) (take 8 primes64) (regs_list first_hash)"
proof -
  have "hex_byte = (\<lambda>x. [hex_digit (unat x div 16), hex_digit (unat x mod 16)])"
    by (rule ext) (simp add: hex_byte_def)
  then have eq: "sha256 s = concat (map (\<lambda>n. [hex_digit (n div 16), hex_digit (n mod 16)]) (fips_bytes (fips_hash (string_bytes s))))"
    by (simp add: sha256_def hash_fips[symmetric] comp_def)
  then have "length (sha256 s) = 2 * length (fips_bytes (fips_hash (string_bytes s)))"
    by (simp add: length_concat comp_def sum_list_triv)
  then show ?thesis using eq table_constants hash_constants by (simp add: length_fips_bytes)
qed

end
