(* ===== verification/Passwords.thy ===== *)
theory Passwords
  imports Sha256 Environment
begin

section \<open>Password records (main.cpp)\<close>

text \<open>
  A record is \<open>v1$salt$iterations$digest\<close>. The account store keeps such records; the HTTP interface of
  this version leaves the login to the gateway and never looks at them.
\<close>

definition password_digest :: "string \<Rightarrow> string \<Rightarrow> int \<Rightarrow> string" where
  "password_digest password salt iterations =
     fold (\<lambda>_ digest. sha256 (digest @ '':'' @ salt @ '':'' @ password)) [1..<nat iterations]
       (sha256 (salt @ '':'' @ password))"

definition hash_password_record :: "string \<Rightarrow> string \<Rightarrow> string" where
  "hash_password_record password salt =
     ''v1$'' @ salt @ ''$120000$'' @ password_digest password salt 120000"

text \<open>What comes before and behind the first dollar.\<close>

definition split_dollar :: "string \<Rightarrow> (string \<times> string) option" where
  "split_dollar s =
     (if CHR ''$'' \<in> set s then Some (takeWhile (\<lambda>c. c \<noteq> CHR ''$'') s, tl (dropWhile (\<lambda>c. c \<noteq> CHR ''$'') s))
      else None)"

definition password_fields :: "string \<Rightarrow> (string \<times> string \<times> string) option" where
  "password_fields record =
     do {
       (version, rest) \<leftarrow> split_dollar record;
       (salt, rest) \<leftarrow> split_dollar rest;
       (iterations, digest) \<leftarrow> split_dollar rest;
       Some (salt, iterations, digest)
     }"

definition verify_password_record :: "string \<Rightarrow> string \<Rightarrow> bool" where
  "verify_password_record password record =
     (case password_fields record of
        None \<Rightarrow> False
      | Some (salt, iterations, digest) \<Rightarrow>
          (case stoi iterations of
             None \<Rightarrow> False
           | Some n \<Rightarrow> if n \<le> 0 then False else password_digest password salt n = digest))"

lemma split_dollar_append: "CHR ''$'' \<notin> set a \<Longrightarrow> split_dollar (a @ CHR ''$'' # b) = Some (a, b)"
proof -
  assume "CHR ''$'' \<notin> set a"
  then have "\<forall>c\<in>set a. c \<noteq> CHR ''$''" by auto
  then show ?thesis
    using takeWhile_append2[of a "\<lambda>c. c \<noteq> CHR ''$''" "CHR ''$'' # b"]
      dropWhile_append2[of a "\<lambda>c. c \<noteq> CHR ''$''" "CHR ''$'' # b"]
    by (simp add: split_dollar_def)
qed

lemma stoi_iterations: "stoi ''120000'' = Some 120000"
  by (simp add: stoi_def signed_digits_def signed_value_def c_str_def isspace_def is_digit_def digits_value_def i32_defs)

lemma record_fields:
  assumes "CHR ''$'' \<notin> set salt"
  shows "password_fields (hash_password_record password salt) = Some (salt, ''120000'', password_digest password salt 120000)"
proof -
  have "hash_password_record password salt =
      ''v1'' @ CHR ''$'' # (salt @ CHR ''$'' # (''120000'' @ CHR ''$'' # password_digest password salt 120000))"
    by (simp add: hash_password_record_def)
  then show ?thesis
    using split_dollar_append[of "''v1''"] split_dollar_append[OF assms] split_dollar_append[of "''120000''"]
    by (simp add: password_fields_def)
qed

text \<open>A record made of a salt without a dollar accepts the passwords with the same digest, so the one it was made of.\<close>

lemma verify_hashed:
  assumes "CHR ''$'' \<notin> set salt"
  shows "verify_password_record other (hash_password_record password salt) \<longleftrightarrow>
    password_digest other salt 120000 = password_digest password salt 120000"
  by (simp add: verify_password_record_def record_fields[OF assms] stoi_iterations)

end
