(* ===== verification/Json_Text.thy ===== *)
theory Json_Text
  imports Text_Utils
begin

section \<open>Texts inside JSON strings\<close>

text \<open>
  The code writes its replies as text and passes every string that goes into one through \<open>escape_json\<close>.
  \<open>read_json_string\<close> reads a JSON string as RFC 8259 defines it, from behind the opening quote to the
  closing one: it refuses control characters and unknown escapes. Of the \<open>\u\<close> escapes it knows those of
  the ASCII characters, the others would be UTF-8 sequences, which the code never escapes.
\<close>

definition quote_char :: char where "quote_char = CHR 0x22"
definition backslash :: char where "backslash = CHR 0x5C"

definition short_escape :: "char \<Rightarrow> char option" where
  "short_escape e =
     (if e = quote_char \<or> e = backslash \<or> e = CHR ''/'' then Some e
      else if e = CHR ''b'' then Some (CHR 0x08) else if e = CHR ''f'' then Some (CHR 0x0C)
      else if e = CHR ''n'' then Some (CHR 0x0A) else if e = CHR ''r'' then Some (CHR 0x0D)
      else if e = CHR ''t'' then Some (CHR 0x09) else None)"

definition hex4 :: "char \<Rightarrow> char \<Rightarrow> char \<Rightarrow> char \<Rightarrow> nat option" where
  "hex4 a b c d =
     (case (hex_value a, hex_value b, hex_value c, hex_value d) of
        (Some w, Some x, Some y, Some z) \<Rightarrow> Some (((w * 16 + x) * 16 + y) * 16 + z)
      | _ \<Rightarrow> None)"

definition put_char :: "char \<Rightarrow> (string \<times> string) option \<Rightarrow> (string \<times> string) option" where
  "put_char c res = map_option (\<lambda>(s, rest). (c # s, rest)) res"

function read_json_string :: "string \<Rightarrow> (string \<times> string) option" where
  "read_json_string [] = None"
| "read_json_string (c # s) =
     (if c = quote_char then Some ([], s)
      else if byte c < 32 then None
      else if c \<noteq> backslash then put_char c (read_json_string s)
      else (case s of
              [] \<Rightarrow> None
            | e # s \<Rightarrow>
                if e = CHR ''u'' then
                  (case s of
                     a # b # d # f # s \<Rightarrow>
                       (case hex4 a b d f of
                          Some n \<Rightarrow> if n < 128 then put_char (char_of n) (read_json_string s) else None
                        | None \<Rightarrow> None)
                   | _ \<Rightarrow> None)
                else (case short_escape e of
                        Some x \<Rightarrow> put_char x (read_json_string s)
                      | None \<Rightarrow> None)))"
  by pat_completeness auto
termination
  by (relation "measure length") auto

lemma hex4_control:
  assumes "n < 32"
  shows "hex4 (CHR ''0'') (CHR ''0'') (hex_digit (n div 16)) (hex_digit (n mod 16)) = Some n"
proof -
  have "hex_value (CHR ''0'') = Some 0" by (simp add: hex_value_def is_digit_def)
  then show ?thesis using assms by (simp add: hex4_def hex_digit_cases)
qed

lemma char_of_backslash: "char_of (92::nat) = backslash"
  using char_of_char[of "CHR 0x5C", where ?'a = nat] by (simp add: backslash_def)

text \<open>What \<open>escape_json_char\<close> makes of a byte, by the character.\<close>

lemma escaped_short:
  "escape_json_char (CHR 0x22) = [backslash, CHR 0x22]" "escape_json_char (CHR 0x5C) = [backslash, CHR 0x5C]"
  "escape_json_char (CHR 0x08) = [backslash, CHR ''b'']" "escape_json_char (CHR 0x0C) = [backslash, CHR ''f'']"
  "escape_json_char (CHR 0x0A) = [backslash, CHR ''n'']" "escape_json_char (CHR 0x0D) = [backslash, CHR ''r'']"
  "escape_json_char (CHR 0x09) = [backslash, CHR ''t'']"
  using char_of_backslash by (simp_all add: escape_json_char_def backslash_def Let_def)

lemma byte_short:
  "byte c = 34 \<longleftrightarrow> c = CHR 0x22" "byte c = 92 \<longleftrightarrow> c = CHR 0x5C" "byte c = 8 \<longleftrightarrow> c = CHR 0x08"
  "byte c = 12 \<longleftrightarrow> c = CHR 0x0C" "byte c = 10 \<longleftrightarrow> c = CHR 0x0A" "byte c = 13 \<longleftrightarrow> c = CHR 0x0D"
  "byte c = 9 \<longleftrightarrow> c = CHR 0x09"
  using of_char_eq_iff[of c "CHR 0x22", where ?'a = nat] of_char_eq_iff[of c "CHR 0x5C", where ?'a = nat]
    of_char_eq_iff[of c "CHR 0x08", where ?'a = nat] of_char_eq_iff[of c "CHR 0x0C", where ?'a = nat]
    of_char_eq_iff[of c "CHR 0x0A", where ?'a = nat] of_char_eq_iff[of c "CHR 0x0D", where ?'a = nat]
    of_char_eq_iff[of c "CHR 0x09", where ?'a = nat]
  by simp_all

lemma read_short:
  assumes "short_escape e = Some x" and "e \<noteq> CHR ''u''"
  shows "read_json_string (backslash # e # s) = put_char x (read_json_string s)"
  using assms by (simp add: quote_char_def backslash_def)

lemma read_escaped_char: "read_json_string (escape_json_char c @ s) = put_char c (read_json_string s)"
proof -
  consider (short) "byte c = 34 \<or> byte c = 92 \<or> byte c = 8 \<or> byte c = 12 \<or> byte c = 10 \<or> byte c = 13 \<or> byte c = 9"
    | (control) "byte c < 32" "byte c \<notin> {34, 92, 8, 12, 10, 13, 9}"
    | (plain) "32 \<le> byte c" "byte c \<noteq> 34" "byte c \<noteq> 92"
    by fastforce
  then show ?thesis
  proof cases
    case short
    then show ?thesis
      unfolding byte_short
      by (elim disjE; simp only: escaped_short append_Cons append_Nil)
         (rule read_short; simp add: short_escape_def quote_char_def backslash_def)+
  next
    case control
    then have e: "escape_json_char c =
        [backslash, CHR ''u'', CHR ''0'', CHR ''0'', hex_digit (byte c div 16), hex_digit (byte c mod 16)]"
      by (simp add: escape_json_char_def Let_def char_of_backslash)
    show ?thesis
      using control(1) hex4_control[OF control(1)] unfolding e
      by (simp add: quote_char_def backslash_def)
  next
    case plain
    then have "escape_json_char c = [c]" "c \<noteq> quote_char" "c \<noteq> backslash"
      using byte_short(1,2)[of c] by (simp_all add: escape_json_char_def Let_def quote_char_def backslash_def)
    then show ?thesis using plain(1) by simp
  qed
qed

text \<open>
  C35. Escaped text is read back. What \<open>escape_json\<close> makes of any bytes, put between quotes, is one JSON string: a
  reader that follows RFC 8259 stops at the closing quote, whatever comes behind it, and has the
  original bytes. So no text from a client can end a string of a reply early or add a field to it.
\<close>

theorem escape_json_roundtrip: "read_json_string (escape_json s @ quote_char # rest) = Some (s, rest)"
proof (induction s)
  case Nil
  show ?case by (simp add: escape_json_def)
next
  case (Cons c s)
  have "escape_json (c # s) = escape_json_char c @ escape_json s" by (simp add: escape_json_def)
  then show ?case using Cons.IH by (simp add: read_escaped_char put_char_def)
qed

end
