(* ===== verification/Sql_Text.thy ===== *)
theory Sql_Text
  imports Environment Json_Text
begin

section \<open>Texts inside SQL statements (main.cpp)\<close>

text \<open>
  The MySQL stores build their statements as text and pass every string that goes into one through
  \<open>mysql_string_literal_escape\<close>. \<open>read_sql_string\<close> reads a string literal in single quotes as the MySQL manual
  defines it, from behind the opening quote to the closing one: a backslash escapes the next
  character, a doubled quote stands for one. (\<open>NO_BACKSLASH_ESCAPES\<close> is off, which is the default, and
  no byte of a multi-byte character looks like a quote or a backslash, which holds for UTF-8.)
\<close>

definition sql_quote :: char where "sql_quote = CHR 0x27"

definition escape_sql_char :: "char \<Rightarrow> string" where
  "escape_sql_char c =
     (if c = CHR 0x00 then [backslash, CHR ''0'']
      else if c = CHR 0x0A then [backslash, CHR ''n'']
      else if c = CHR 0x0D then [backslash, CHR ''r'']
      else if c = backslash then [backslash, backslash]
      else if c = sql_quote then [backslash, sql_quote]
      else if c = CHR 0x22 then [backslash, CHR 0x22]
      else if c = CHR 0x1A then [backslash, CHR ''Z'']
      else [c])"

definition mysql_string_literal_escape :: "string \<Rightarrow> string" where
  "mysql_string_literal_escape s = concat (map escape_sql_char s)"

subsection \<open>String literals of MySQL\<close>

definition sql_unescape :: "char \<Rightarrow> string" where
  "sql_unescape e =
     (if e = CHR ''0'' then [CHR 0x00] else if e = CHR ''b'' then [CHR 0x08] else if e = CHR ''n'' then [CHR 0x0A]
      else if e = CHR ''r'' then [CHR 0x0D] else if e = CHR ''t'' then [CHR 0x09] else if e = CHR ''Z'' then [CHR 0x1A]
      else if e = CHR ''%'' \<or> e = CHR ''_'' then [backslash, e] else [e])"

definition put_text :: "string \<Rightarrow> (string \<times> string) option \<Rightarrow> (string \<times> string) option" where
  "put_text t res = map_option (\<lambda>(s, rest). (t @ s, rest)) res"

function read_sql_string :: "string \<Rightarrow> (string \<times> string) option" where
  "read_sql_string [] = None"
| "read_sql_string (c # s) =
     (if c = sql_quote then
        (case s of
           [] \<Rightarrow> Some ([], [])
         | d # s' \<Rightarrow> if d = sql_quote then put_text [sql_quote] (read_sql_string s') else Some ([], s))
      else if c = backslash then
        (case s of [] \<Rightarrow> None | e # s' \<Rightarrow> put_text (sql_unescape e) (read_sql_string s'))
      else put_text [c] (read_sql_string s))"
  by pat_completeness auto
termination
  by (relation "measure length") auto

text \<open>\<open>sql_literal t v\<close>: wherever the text \<open>t\<close> stands in a statement, it is a complete literal for the string \<open>v\<close>.\<close>

definition sql_literal :: "string \<Rightarrow> string \<Rightarrow> bool" where
  "sql_literal t v \<longleftrightarrow>
     (\<exists>b. t = sql_quote # b \<and>
        (\<forall>rest. (rest = [] \<or> hd rest \<noteq> sql_quote) \<longrightarrow> read_sql_string (b @ rest) = Some (v, rest)))"

definition sql_text :: "string \<Rightarrow> string" where
  "sql_text s = sql_quote # mysql_string_literal_escape s @ [sql_quote]"

lemma escape_sql_Cons: "mysql_string_literal_escape (c # s) = escape_sql_char c @ mysql_string_literal_escape s"
  by (simp add: mysql_string_literal_escape_def)

lemma read_sql_char: "read_sql_string (escape_sql_char c @ s) = put_text [c] (read_sql_string s)"
  by (auto simp: escape_sql_char_def sql_quote_def backslash_def sql_unescape_def)

lemma read_sql_escaped:
  assumes "after = [] \<or> hd after \<noteq> sql_quote"
  shows "read_sql_string (mysql_string_literal_escape s @ sql_quote # after) = Some (s, after)"
proof (induction s)
  case Nil
  show ?case using assms by (cases after) (auto simp: mysql_string_literal_escape_def)
next
  case (Cons c s)
  then show ?case by (simp add: escape_sql_Cons read_sql_char put_text_def)
qed

lemma sql_text_literal: "sql_literal (sql_text s) s"
  by (simp add: sql_literal_def sql_text_def read_sql_escaped)

lemma sql_literal_unique: "sql_literal t v \<Longrightarrow> sql_literal t w \<Longrightarrow> v = w"
  by (auto simp: sql_literal_def dest!: spec[of _ "[]"])

text \<open>
  C23. No text escapes from its quotes. Whatever string a store puts into a statement, with quotes,
  backslashes and control characters, the database reads the literal up to its closing quote as exactly that
  string, and goes on with the rest of the statement as it was written: there is no SQL injection.
\<close>

theorem sql_text_stays_quoted:
  assumes "after = [] \<or> hd after \<noteq> CHR 0x27"
  shows "\<exists>b. sql_text s = CHR 0x27 # b \<and> read_sql_string (b @ after) = Some (s, after)"
  using sql_text_literal[of s] assms by (auto simp: sql_literal_def sql_quote_def)

theorem sql_text_stays_quoted_witness:
  "\<exists>b. sql_text (CHR 0x27 # '' OR 1=1 -- '') = CHR 0x27 # b \<and>
     read_sql_string (b @ '' LIMIT 1'') = Some (CHR 0x27 # '' OR 1=1 -- '', '' LIMIT 1'')"
  by (rule sql_text_stays_quoted) simp

end
