(* ===== verification/Sql_Stores.thy ===== *)
theory Sql_Stores
  imports Sql_Text
begin

section \<open>The stores in MySQL and Redis (main.cpp)\<close>

text \<open>
  What \<open>MySqlUserStore\<close>, \<open>MySqlAuthStore\<close> and \<open>HiredisLeaderboardStore\<close> do with their client libraries: which
  statements they send, what they make of the answers, and what they leave to the in-memory store beside
  them. The libraries with the servers behind them are the parameters \<open>my\<close> and \<open>red\<close>; \<open>db\<close> is the state of
  the database, of any type.
\<close>

record MysqlSettings =
  mq_host :: string
  mq_user :: string
  mq_password :: string
  mq_db :: string
  mq_port :: int

text \<open>\<open>unsigned int\<close> of an \<open>int\<close> is the residue modulo \<open>2 ^ 32\<close>.\<close>

definition mysql_settings :: "environ \<Rightarrow> MysqlSettings" where
  "mysql_settings env =
     \<lparr>mq_host = get_env env ''MYSQL_HOST'' ''127.0.0.1'', mq_user = get_env env ''MYSQL_USER'' ''root'',
      mq_password = get_env env ''MYSQL_PASSWORD'' [], mq_db = get_env env ''MYSQL_DATABASE'' ''nebula_poker'',
      mq_port = get_env_int env ''MYSQL_PORT'' 3306 mod 2 ^ 32\<rparr>"

text \<open>
  The client library: \<open>my_connect\<close> says whether \<open>mysql_init\<close> and \<open>mysql_real_connect\<close> give a connection, \<open>my_query\<close>
  whether \<open>mysql_query\<close> returns 0, with the database after it, and \<open>my_row\<close> is the first row of the result of a
  query, \<open>None\<close> if it fails or has no row. A column is \<open>None\<close> for \<open>NULL\<close>.
\<close>

record 'db Mysql =
  my_connect :: "MysqlSettings \<Rightarrow> 'db \<Rightarrow> bool"
  my_query :: "string \<Rightarrow> 'db \<Rightarrow> bool \<times> 'db"
  my_row :: "string \<Rightarrow> 'db \<Rightarrow> string option list option"

text \<open>The columns of a row are C strings. A row has all the columns its statement selects.\<close>

definition text_column :: "nat \<Rightarrow> string \<Rightarrow> string option list \<Rightarrow> string" where
  "text_column i d row = (case row ! i of None \<Rightarrow> d | Some v \<Rightarrow> c_str v)"

definition big_column :: "nat \<Rightarrow> int \<Rightarrow> string option list \<Rightarrow> int" where
  "big_column i d row = (case row ! i of None \<Rightarrow> d | Some v \<Rightarrow> atoll v)"

definition int_column :: "nat \<Rightarrow> int \<Rightarrow> string option list \<Rightarrow> int" where
  "int_column i d row = (case row ! i of None \<Rightarrow> d | Some v \<Rightarrow> atoi v)"

subsection \<open>\<open>MySqlUserStore\<close>\<close>

definition users_ddl :: string where
  "users_ddl = concat [
     ''CREATE TABLE IF NOT EXISTS users ('',
     ''id BIGINT PRIMARY KEY AUTO_INCREMENT,'',
     ''external_id VARCHAR(128) NOT NULL UNIQUE,'',
     ''username VARCHAR(128) NOT NULL,'',
     ''avatar VARCHAR(255) NOT NULL DEFAULT '', sql_text [], '','',
     ''gold BIGINT NOT NULL DEFAULT 10000,'',
     ''games_played INT NOT NULL DEFAULT 0,'',
     ''games_won INT NOT NULL DEFAULT 0'',
     '')'']"

definition ensure_users :: "'db Mysql \<Rightarrow> 'db \<Rightarrow> 'db" where
  "ensure_users my db = snd (my_query my users_ddl db)"

definition upsert_user :: "string \<Rightarrow> string \<Rightarrow> string" where
  "upsert_user key name = concat [
     ''INSERT INTO users (external_id, username, avatar, gold, games_played, games_won) VALUES ('',
     sql_text key, '', '', sql_text (if name = [] then ''Player'' else name),
     '', '', sql_text [], '', 10000, 0, 0) ON DUPLICATE KEY UPDATE username=VALUES(username)'']"

definition select_user :: "string \<Rightarrow> string" where
  "select_user key = concat [
     ''SELECT id, external_id, username, avatar, gold, games_played, games_won '',
     ''FROM users WHERE external_id='', sql_text key, '' LIMIT 1'']"

definition update_user :: "MatchStat \<Rightarrow> string" where
  "update_user stat = concat [
     ''UPDATE users SET gold=GREATEST(gold + '', to_string (ms_gold_delta stat),
     '', 0), games_played=games_played+1, games_won=games_won+'', to_string (if ms_winner stat then 1 else 0),
     '' WHERE external_id='', sql_text (stat_key stat)]"

definition user_of_row :: "string \<Rightarrow> string option list \<Rightarrow> UserProfileData \<Rightarrow> UserProfileData" where
  "user_of_row name row u =
     u\<lparr>ud_user_id := big_column 0 0 row, ud_external_id := text_column 1 [] row,
       ud_login_username := text_column 1 [] row, ud_username := text_column 2 name row,
       ud_avatar := text_column 3 [] row, ud_gold := big_column 4 10000 row,
       ud_games_played := int_column 5 0 row, ud_games_won := int_column 6 0 row\<rparr>"

text \<open>\<open>fb\<close> is the in-memory store \<open>fallback_\<close>.\<close>

definition mysql_load_or_create ::
  "'db Mysql \<Rightarrow> MysqlSettings \<Rightarrow> string \<Rightarrow> string \<Rightarrow> 'db \<times> UserTable \<Rightarrow> UserProfileData \<times> 'db \<times> UserTable" where
  "mysql_load_or_create my cfg ext name = (\<lambda>(db, fb).
     if \<not> my_connect my cfg db then (let (u, fb) = load_or_create ext name fb in (u, db, fb))
     else
       let key = (if ext = [] then name else ext);
           db = ensure_users my db;
           db = snd (my_query my (upsert_user key name) db);
           (u, fb) = load_or_create ext name fb;
           u = (case my_row my (select_user key) db of None \<Rightarrow> u | Some row \<Rightarrow> user_of_row name row u)
       in (u, db, fb))"

definition mysql_record_match ::
  "'db Mysql \<Rightarrow> MysqlSettings \<Rightarrow> MatchStat list \<Rightarrow> 'db \<times> UserTable \<Rightarrow> 'db \<times> UserTable" where
  "mysql_record_match my cfg stats = (\<lambda>(db, fb).
     if \<not> my_connect my cfg db then (db, record_match stats fb)
     else
       let db = ensure_users my db;
           db = fold (\<lambda>stat db. snd (my_query my (update_user stat) db)) stats db
       in (db, record_match stats fb))"

subsection \<open>\<open>MySqlAuthStore\<close>\<close>

definition auth_ddl :: string where
  "auth_ddl = concat [
     ''CREATE TABLE IF NOT EXISTS auth_users ('',
     ''user_id BIGINT NOT NULL PRIMARY KEY,'',
     ''username VARCHAR(128) NOT NULL UNIQUE,'',
     ''password_hash VARCHAR(255) NOT NULL,'',
     ''created_at BIGINT NOT NULL,'',
     ''last_login_at BIGINT NOT NULL'',
     '')'']"

definition ensure_auth_users :: "'db Mysql \<Rightarrow> 'db \<Rightarrow> 'db" where
  "ensure_auth_users my db = snd (my_query my auth_ddl db)"

text \<open>The statements, with the literals they contain.\<close>

definition insert_head :: string where
  "insert_head = ''INSERT INTO auth_users (user_id, username, password_hash, created_at, last_login_at) VALUES (''"

definition insert_account :: "int \<Rightarrow> string \<Rightarrow> string \<Rightarrow> int \<Rightarrow> int \<Rightarrow> string" where
  "insert_account uid name_lit hash_lit t t' = concat [
     insert_head, to_string uid, '', '', name_lit, '', '', hash_lit, '', '', to_string t, '', '', to_string t', '')'']"

definition select_account :: string where
  "select_account = ''SELECT user_id, username, password_hash, created_at, last_login_at FROM auth_users WHERE ''"

definition select_by_name :: "string \<Rightarrow> string" where
  "select_by_name name_lit = concat [select_account, ''username='', name_lit, '' LIMIT 1'']"

definition select_by_id :: "int \<Rightarrow> string" where
  "select_by_id uid = concat [select_account, ''user_id='', to_string uid, '' LIMIT 1'']"

definition login_head :: string where
  "login_head = ''UPDATE auth_users SET last_login_at=''"

definition update_login_text :: "int \<Rightarrow> int \<Rightarrow> string" where
  "update_login_text uid ts = concat [login_head, to_string ts, '' WHERE user_id='', to_string uid]"

definition account_of_row :: "string option list \<Rightarrow> Account" where
  "account_of_row row =
     \<lparr>ac_user_id = big_column 0 0 row, ac_username = text_column 1 [] row, ac_password_hash = text_column 2 [] row,
      ac_created_at = big_column 3 0 row, ac_last_login_at = big_column 4 0 row\<rparr>"

definition mysql_find_by_username ::
  "'db Mysql \<Rightarrow> MysqlSettings \<Rightarrow> string \<Rightarrow> 'db \<Rightarrow> Account option \<times> 'db" where
  "mysql_find_by_username my cfg name db =
     (if \<not> my_connect my cfg db then (None, db)
      else
        let db = ensure_auth_users my db
        in (map_option account_of_row (my_row my (select_by_name (sql_text name)) db), db))"

definition mysql_find_by_user_id ::
  "'db Mysql \<Rightarrow> MysqlSettings \<Rightarrow> int \<Rightarrow> 'db \<Rightarrow> Account option \<times> 'db" where
  "mysql_find_by_user_id my cfg uid db =
     (if \<not> my_connect my cfg db then (None, db)
      else
        let db = ensure_auth_users my db
        in (map_option account_of_row (my_row my (select_by_id uid) db), db))"

text \<open>
  \<open>Inl\<close> is the message left in \<open>error\<close>; there is none if the new account cannot be read back. \<open>t\<close> and \<open>t'\<close> are the
  two readings of the clock.
\<close>

definition mysql_register_account ::
  "'db Mysql \<Rightarrow> MysqlSettings \<Rightarrow> int \<Rightarrow> int \<Rightarrow> int \<Rightarrow> string \<Rightarrow> string \<Rightarrow> 'db \<Rightarrow> (string + Account) \<times> 'db" where
  "mysql_register_account my cfg t t' uid name hash db =
     (if \<not> my_connect my cfg db then (Inl ''Auth database unavailable.'', db)
      else
        let db = ensure_auth_users my db;
            (done_ok, db) = my_query my (insert_account uid (sql_text name) (sql_text hash) t t') db
        in if \<not> done_ok then (Inl ''Username already exists.'', db)
           else (case mysql_find_by_username my cfg name db of
                   (None, db) \<Rightarrow> (Inl [], db)
                 | (Some a, db) \<Rightarrow> (Inr a, db)))"

definition mysql_update_last_login :: "'db Mysql \<Rightarrow> MysqlSettings \<Rightarrow> int \<Rightarrow> int \<Rightarrow> 'db \<Rightarrow> 'db" where
  "mysql_update_last_login my cfg uid ts db =
     (if \<not> my_connect my cfg db then db
      else snd (my_query my (update_login_text uid ts) (ensure_auth_users my db)))"

subsection \<open>\<open>HiredisLeaderboardStore\<close>\<close>

text \<open>
  A Redis connection is opened for the whole match; \<open>red_do\<close> sends a command. The doubles of \<open>%f\<close> are
  written by \<open>show_fixed\<close>. A user name goes into the command as one argument, whatever it contains; \<open>%s\<close> takes a C
  string.
\<close>

record 'r Redis =
  red_connect :: "string \<Rightarrow> int \<Rightarrow> 'r \<Rightarrow> bool"
  red_do :: "string list \<Rightarrow> 'r \<Rightarrow> 'r"
  show_fixed :: "rat \<Rightarrow> string"

definition rank_commands :: "(rat \<Rightarrow> string) \<Rightarrow> (string \<rightharpoonup> UserProfileData) \<Rightarrow> MatchStat \<Rightarrow> string list list" where
  "rank_commands fixed us stat =
     (case us (stat_key stat) of
        None \<Rightarrow> []
      | Some u \<Rightarrow>
          [[''ZADD'', ''leaderboard:coins'', to_string (ud_gold u), c_str (ud_username u)],
           [''ZADD'', ''leaderboard:winrate'', fixed (win_rate u), c_str (ud_username u)],
           [''ZADD'', ''leaderboard:weekly'', to_string (if ms_winner stat then 3 else 1), c_str (ud_username u)]])"

definition redis_update ::
  "'r Redis \<Rightarrow> environ \<Rightarrow> MatchStat list \<Rightarrow> (string \<rightharpoonup> UserProfileData) \<Rightarrow> 'r \<times> (string \<rightharpoonup> LeaderRow) \<Rightarrow>
   'r \<times> (string \<rightharpoonup> LeaderRow)" where
  "redis_update red env stats us = (\<lambda>(r, rows).
     if \<not> red_connect red (get_env env ''REDIS_HOST'' ''127.0.0.1'') (get_env_int env ''REDIS_PORT'' 6379) r
     then (r, update_leaderboard stats us rows)
     else (fold (red_do red) (concat (map (rank_commands (show_fixed red) us) stats)) r,
           update_leaderboard stats us rows))"

definition redis_rows :: "string list \<Rightarrow> string \<Rightarrow> int \<Rightarrow> 'r \<times> (string \<rightharpoonup> LeaderRow) \<Rightarrow> LeaderRow list" where
  "redis_rows keys type limit s = leader_rows keys type limit (snd s)"

subsection \<open>What the fallback holds\<close>

text \<open>
  Whatever the database does, the in-memory store beside it goes through exactly the operations of
  a server without MySQL, and without a connection its answers are the program's.
\<close>

lemma mysql_fallback:
  "snd (snd (mysql_load_or_create my cfg ext name (db, fb))) = snd (load_or_create ext name fb)"
  "snd (mysql_record_match my cfg stats (db, fb)) = record_match stats fb"
  by (simp_all add: mysql_load_or_create_def mysql_record_match_def Let_def split_beta)

lemma mysql_unreachable:
  "\<not> my_connect my cfg db \<Longrightarrow>
     mysql_load_or_create my cfg ext name (db, fb) = (fst (load_or_create ext name fb), db, snd (load_or_create ext name fb))"
  by (simp add: mysql_load_or_create_def split_beta)

text \<open>The leaderboard a client sees is the one in memory: nothing is ever read from Redis.\<close>

lemma redis_rows_in_memory:
  "redis_rows keys type limit (redis_update red env stats us (r, rows)) =
   leader_rows keys type limit (update_leaderboard stats us rows)"
  by (simp add: redis_rows_def redis_update_def)

end
