(* ===== verification/Sql_Facts.thy ===== *)
theory Sql_Facts
  imports Sql_Stores
begin

section \<open>Accounts in MySQL are the accounts in memory\<close>

text \<open>
  \<open>serves_accounts\<close> states what the MySQL manual promises of the statements the store sends: literals are read as the
  strings they stand for, a primary or unique key is never given twice, a selection finds the row with the key.
  \<open>tab\<close> reads the table \<open>auth_users\<close> off the database. User names are compared byte by byte (a binary collation)
  and the values fit their columns. \<open>Sql_Facts\<close> shows that a store on such a database and the
  in-memory store simulate each other, operation by operation.
\<close>

subsection \<open>What the database promises\<close>

definition account_row :: "Account \<Rightarrow> string option list" where
  "account_row a =
     [Some (to_string (ac_user_id a)), Some (ac_username a), Some (ac_password_hash a),
      Some (to_string (ac_created_at a)), Some (to_string (ac_last_login_at a))]"

definition account_keys :: "(string \<rightharpoonup> Account) \<Rightarrow> bool" where
  "account_keys tb \<longleftrightarrow>
     (\<forall>n a. tb n = Some a \<longrightarrow> ac_username a = n) \<and>
     (\<forall>n m a b. tb n = Some a \<longrightarrow> tb m = Some b \<longrightarrow> ac_user_id a = ac_user_id b \<longrightarrow> n = m)"

definition id_taken :: "(string \<rightharpoonup> Account) \<Rightarrow> int \<Rightarrow> bool" where
  "id_taken tb uid \<longleftrightarrow> (\<exists>n a. tb n = Some a \<and> ac_user_id a = uid)"

text \<open>\<open>plain s\<close>: a text without the byte 0, where a C string would end.\<close>

definition plain :: "string \<Rightarrow> bool" where
  "plain s \<longleftrightarrow> (\<forall>c\<in>set s. byte c \<noteq> 0)"

definition fits_account :: "Account \<Rightarrow> bool" where
  "fits_account a \<longleftrightarrow>
     in_i64 (ac_user_id a) \<and> in_i64 (ac_created_at a) \<and> in_i64 (ac_last_login_at a) \<and>
     plain (ac_username a) \<and> length (ac_username a) \<le> 128 \<and>
     plain (ac_password_hash a) \<and> length (ac_password_hash a) \<le> 255"

definition inserts_account :: "'db Mysql \<Rightarrow> ('db \<Rightarrow> string \<rightharpoonup> Account) \<Rightarrow> bool" where
  "inserts_account my tab \<longleftrightarrow>
     (\<forall>db a nl hl. account_keys (tab db) \<longrightarrow> fits_account a \<longrightarrow>
        sql_literal nl (ac_username a) \<longrightarrow> sql_literal hl (ac_password_hash a) \<longrightarrow>
        (let res = my_query my (insert_account (ac_user_id a) nl hl (ac_created_at a) (ac_last_login_at a)) db
         in if tab db (ac_username a) \<noteq> None \<or> id_taken (tab db) (ac_user_id a)
            then \<not> fst res \<and> tab (snd res) = tab db
            else fst res \<and> tab (snd res) = (tab db)(ac_username a \<mapsto> a)))"

definition selects_accounts :: "'db Mysql \<Rightarrow> ('db \<Rightarrow> string \<rightharpoonup> Account) \<Rightarrow> bool" where
  "selects_accounts my tab \<longleftrightarrow>
     (\<forall>db n nl. account_keys (tab db) \<longrightarrow> sql_literal nl n \<longrightarrow>
        my_row my (select_by_name nl) db = map_option account_row (tab db n)) \<and>
     (\<forall>db n a. account_keys (tab db) \<longrightarrow> tab db n = Some a \<longrightarrow>
        my_row my (select_by_id (ac_user_id a)) db = Some (account_row a)) \<and>
     (\<forall>db uid. account_keys (tab db) \<longrightarrow> \<not> id_taken (tab db) uid \<longrightarrow> my_row my (select_by_id uid) db = None)"

definition updates_login :: "'db Mysql \<Rightarrow> ('db \<Rightarrow> string \<rightharpoonup> Account) \<Rightarrow> bool" where
  "updates_login my tab \<longleftrightarrow>
     (\<forall>db uid ts. account_keys (tab db) \<longrightarrow> in_i64 ts \<longrightarrow>
        tab (snd (my_query my (update_login_text uid ts) db)) =
          (\<lambda>n. map_option (\<lambda>a. if ac_user_id a = uid then a\<lparr>ac_last_login_at := ts\<rparr> else a) (tab db n)))"

definition serves_accounts :: "'db Mysql \<Rightarrow> MysqlSettings \<Rightarrow> ('db \<Rightarrow> string \<rightharpoonup> Account) \<Rightarrow> bool" where
  "serves_accounts my cfg tab \<longleftrightarrow>
     (\<forall>db. my_connect my cfg db) \<and> (\<forall>db. tab (snd (my_query my auth_ddl db)) = tab db) \<and>
     inserts_account my tab \<and> selects_accounts my tab \<and> updates_login my tab"

lemma servesD:
  assumes "serves_accounts my cfg tab"
  shows "my_connect my cfg db" and "tab (ensure_auth_users my db) = tab db"
    and "account_keys (tab db) \<Longrightarrow> sql_literal nl n \<Longrightarrow> my_row my (select_by_name nl) db = map_option account_row (tab db n)"
    and "account_keys (tab db) \<Longrightarrow> tab db n = Some a \<Longrightarrow> my_row my (select_by_id (ac_user_id a)) db = Some (account_row a)"
    and "account_keys (tab db) \<Longrightarrow> \<not> id_taken (tab db) uid \<Longrightarrow> my_row my (select_by_id uid) db = None"
    and "account_keys (tab db) \<Longrightarrow> in_i64 ts \<Longrightarrow> tab (snd (my_query my (update_login_text uid ts) db)) =
      (\<lambda>n. map_option (\<lambda>a. if ac_user_id a = uid then a\<lparr>ac_last_login_at := ts\<rparr> else a) (tab db n))"
  using assms
  by (simp_all add: serves_accounts_def ensure_auth_users_def selects_accounts_def updates_login_def)

lemma serves_insert:
  assumes "serves_accounts my cfg tab" and "account_keys (tab db)" and "fits_account a"
    and "sql_literal nl (ac_username a)" and "sql_literal hl (ac_password_hash a)"
    and "my_query my (insert_account (ac_user_id a) nl hl (ac_created_at a) (ac_last_login_at a)) db = (done_ok, db')"
  shows "done_ok \<longleftrightarrow> tab db (ac_username a) = None \<and> \<not> id_taken (tab db) (ac_user_id a)"
    and "tab db' = (if done_ok then (tab db)(ac_username a \<mapsto> a) else tab db)"
proof -
  have "inserts_account my tab" using assms(1) by (simp add: serves_accounts_def)
  note this[unfolded inserts_account_def Let_def, rule_format, OF assms(2-5), unfolded assms(6)]
  then show "done_ok \<longleftrightarrow> tab db (ac_username a) = None \<and> \<not> id_taken (tab db) (ac_user_id a)"
    and "tab db' = (if done_ok then (tab db)(ac_username a \<mapsto> a) else tab db)"
    by (auto split: if_splits)
qed

subsection \<open>The rows are read back\<close>

lemma c_str_plain: "plain s \<Longrightarrow> c_str s = s"
  by (simp add: c_str_def plain_def takeWhile_eq_all_conv)

lemma account_row_back: "fits_account a \<Longrightarrow> account_of_row (account_row a) = a"
  by (simp add: account_of_row_def account_row_def big_column_def text_column_def fits_account_def
      atoll_to_string c_str_plain)

subsection \<open>The simulation\<close>

text \<open>The database and the in-memory store hold the same accounts.\<close>

definition same_accounts :: "(string \<rightharpoonup> Account) \<Rightarrow> AccountTable \<Rightarrow> bool" where
  "same_accounts tb s \<longleftrightarrow>
     tb = accounts_by_username s \<and> account_keys tb \<and> (\<forall>n a. tb n = Some a \<longrightarrow> fits_account a) \<and>
     (\<forall>uid n. usernames_by_user_id s uid = Some n \<longleftrightarrow> (\<exists>a. tb n = Some a \<and> ac_user_id a = uid))"

lemma same_accountsD:
  assumes "same_accounts tb s"
  shows "accounts_by_username s = tb" "account_keys tb" "tb n = Some a \<Longrightarrow> fits_account a"
    "usernames_by_user_id s uid = Some n \<longleftrightarrow> (\<exists>a. tb n = Some a \<and> ac_user_id a = uid)"
  using assms by (auto simp: same_accounts_def)

lemma find_by_user_id_table:
  assumes "same_accounts tb s"
  shows "tb n = Some a \<Longrightarrow> find_by_user_id (ac_user_id a) s = Some a"
    and "\<not> id_taken tb uid \<Longrightarrow> find_by_user_id uid s = None"
proof -
  note D = same_accountsD[OF assms]
  show "find_by_user_id (ac_user_id a) s = Some a" if "tb n = Some a"
  proof -
    have "usernames_by_user_id s (ac_user_id a) = Some n" using D(4) that by blast
    then show ?thesis using that D(1) by (simp add: find_by_user_id_def find_by_username_def)
  qed
  show "find_by_user_id uid s = None" if "\<not> id_taken tb uid"
    using that D(4)[of uid] by (auto simp: find_by_user_id_def id_taken_def split: option.split)
qed

lemma mysql_finds:
  assumes "serves_accounts my cfg tab" and "same_accounts (tab db) s"
  shows "fst (mysql_find_by_username my cfg n db) = find_by_username n s"
    and "tab (snd (mysql_find_by_username my cfg n db)) = tab db"
    and "fst (mysql_find_by_user_id my cfg uid db) = find_by_user_id uid s"
    and "tab (snd (mysql_find_by_user_id my cfg uid db)) = tab db"
proof -
  note D = same_accountsD[OF assms(2)]
  define db' where "db' = ensure_auth_users my db"
  note S = servesD[OF assms(1)]
  have db': "tab db' = tab db" by (simp add: db'_def S(2))
  note rows = S(3-5)[of db', unfolded db', OF D(2)]
  show "fst (mysql_find_by_username my cfg n db) = find_by_username n s"
    using D(1,3) rows(1)[OF sql_text_literal] by (cases "tab db n")
      (simp_all add: mysql_find_by_username_def S(1) Let_def find_by_username_def account_row_back flip: db'_def)
  show "fst (mysql_find_by_user_id my cfg uid db) = find_by_user_id uid s"
  proof (cases "id_taken (tab db) uid")
    case True
    then obtain m a where a: "tab db m = Some a" "ac_user_id a = uid" by (auto simp: id_taken_def)
    then show ?thesis
      using find_by_user_id_table(1)[OF assms(2) a(1)] rows(2)[OF a(1)] account_row_back[OF D(3)[OF a(1)]]
      by (simp add: mysql_find_by_user_id_def S(1) Let_def flip: db'_def)
  next
    case False
    then show ?thesis
      using find_by_user_id_table(2)[OF assms(2) False] rows(3)[OF False]
      by (simp add: mysql_find_by_user_id_def S(1) Let_def flip: db'_def)
  qed
qed (simp_all add: mysql_find_by_username_def mysql_find_by_user_id_def servesD[OF assms(1)] Let_def)

lemma same_after_register:
  assumes "same_accounts tb s" and "tb name = None" and "\<not> id_taken tb uid"
    and "a = \<lparr>ac_user_id = uid, ac_username = name, ac_password_hash = hash, ac_created_at = t, ac_last_login_at = t\<rparr>"
    and "fits_account a"
  shows "register_account t uid name hash s = (Inr a, snd (register_account t uid name hash s))"
    and "same_accounts (tb(name \<mapsto> a)) (snd (register_account t uid name hash s))"
proof -
  note D = same_accountsD[OF assms(1)]
  show "register_account t uid name hash s = (Inr a, snd (register_account t uid name hash s))"
    using assms(2,4) D(1) by (simp add: register_account_def Let_def)
  have ids: "((usernames_by_user_id s)(uid \<mapsto> name)) u = Some n \<longleftrightarrow>
      (\<exists>b. (tb(name \<mapsto> a)) n = Some b \<and> ac_user_id b = u)" for u n
    using D(4)[of u n] assms(2,3,4) by (auto simp: id_taken_def)
  have "account_keys (tb(name \<mapsto> a))"
    using D(2) assms(3,4) by (auto simp: account_keys_def id_taken_def)
  then show "same_accounts (tb(name \<mapsto> a)) (snd (register_account t uid name hash s))"
    using D assms(2,4,5) ids by (auto simp: same_accounts_def register_account_def Let_def)
qed

lemma mysql_registers:
  assumes "serves_accounts my cfg tab" and "same_accounts (tab db) s"
    and "fits_account \<lparr>ac_user_id = uid, ac_username = name, ac_password_hash = hash, ac_created_at = t, ac_last_login_at = t\<rparr>"
    and "id_taken (tab db) uid \<longrightarrow> tab db name \<noteq> None"
  shows "fst (mysql_register_account my cfg t t uid name hash db) = fst (register_account t uid name hash s)"
    and "same_accounts (tab (snd (mysql_register_account my cfg t t uid name hash db))) (snd (register_account t uid name hash s))"
proof -
  note D = same_accountsD[OF assms(2)]
  define a where "a = \<lparr>ac_user_id = uid, ac_username = name, ac_password_hash = hash, ac_created_at = t, ac_last_login_at = t\<rparr>"
  note S = servesD[OF assms(1)]
  obtain done_ok db' where ins:
    "my_query my (insert_account uid (sql_text name) (sql_text hash) t t) (ensure_auth_users my db) = (done_ok, db')"
    by fastforce
  note ins' = serves_insert[OF assms(1), of "ensure_auth_users my db" a "sql_text name" "sql_text hash" done_ok db',
      simplified a_def, simplified, unfolded S(2), OF D(2) assms(3) sql_text_literal sql_text_literal ins, folded a_def]
  have reg: "mysql_register_account my cfg t t uid name hash db =
      (if \<not> done_ok then (Inl ''Username already exists.'', db')
       else (case mysql_find_by_username my cfg name db' of
               (None, db) \<Rightarrow> (Inl [], db)
             | (Some a, db) \<Rightarrow> (Inr a, db)))"
    by (simp add: mysql_register_account_def S(1) ins Let_def)
  show "fst (mysql_register_account my cfg t t uid name hash db) = fst (register_account t uid name hash s)"
    and "same_accounts (tab (snd (mysql_register_account my cfg t t uid name hash db))) (snd (register_account t uid name hash s))"
  proof (atomize (full), cases done_ok)
    case False
    then have "tab db name \<noteq> None" using ins'(1) assms(4) by auto
    then have "register_account t uid name hash s = (Inl ''Username already exists.'', s)"
      using D(1) by (simp add: register_account_def)
    then show "fst (mysql_register_account my cfg t t uid name hash db) = fst (register_account t uid name hash s) \<and>
        same_accounts (tab (snd (mysql_register_account my cfg t t uid name hash db))) (snd (register_account t uid name hash s))"
      using False ins'(2) assms(2) by (simp add: reg)
  next
    case True
    then have new: "tab db name = None" "\<not> id_taken (tab db) uid" and tab': "tab db' = (tab db)(name \<mapsto> a)"
      using ins' by (simp_all add: a_def)
    note same = same_after_register[OF assms(2) new a_def assms(3)[folded a_def]]
    have "fst (mysql_find_by_username my cfg name db') = Some a"
      using mysql_finds(1)[OF assms(1), of db' _ name] same(2) tab' find_by_username_def same_accountsD(1)
      by (metis fun_upd_same)
    moreover have "tab (snd (mysql_find_by_username my cfg name db')) = tab db'"
      using mysql_finds(2)[OF assms(1), of db'] same(2) tab' by metis
    ultimately show "fst (mysql_register_account my cfg t t uid name hash db) = fst (register_account t uid name hash s) \<and>
        same_accounts (tab (snd (mysql_register_account my cfg t t uid name hash db))) (snd (register_account t uid name hash s))"
      using True same(2) arg_cong[OF same(1), of fst] tab'
      by (cases "mysql_find_by_username my cfg name db'") (simp add: reg)
  qed
qed

lemma same_after_login:
  assumes "same_accounts tb s" and "in_i64 ts"
  shows "same_accounts (\<lambda>n. map_option (\<lambda>a. if ac_user_id a = uid then a\<lparr>ac_last_login_at := ts\<rparr> else a) (tb n))
    (update_last_login uid ts s)"
proof -
  note D = same_accountsD[OF assms(1)]
  define f :: "Account \<Rightarrow> Account" where "f = (\<lambda>a. if ac_user_id a = uid then a\<lparr>ac_last_login_at := ts\<rparr> else a)"
  have f [simp]: "ac_user_id (f a) = ac_user_id a" "ac_username (f a) = ac_username a" "fits_account a \<Longrightarrow> fits_account (f a)" for a :: Account
    using assms(2) by (auto simp: f_def fits_account_def)
  have "accounts_by_username (update_last_login uid ts s) = (\<lambda>n. map_option f (tb n))"
  proof (cases "usernames_by_user_id s uid")
    case None
    then have "\<not> (tb n = Some a \<and> ac_user_id a = uid)" for n a using D(4)[of uid n] by auto
    then have "map_option f (tb n) = tb n" for n by (cases "tb n") (auto simp: f_def)
    then show ?thesis using None D(1) by (simp add: update_last_login_def)
  next
    case (Some m)
    then obtain a where a: "tb m = Some a" "ac_user_id a = uid" using D(4) by blast
    have "map_option f (tb n) = tb n" if "n \<noteq> m" for n
      using that a D(2) by (cases "tb n") (auto simp: f_def account_keys_def)
    then show ?thesis using Some a D(1) by (auto simp: update_last_login_def f_def fun_eq_iff)
  qed
  moreover have "usernames_by_user_id (update_last_login uid ts s) = usernames_by_user_id s"
    by (simp add: update_last_login_def split: option.split)
  moreover have "account_keys (\<lambda>n. map_option f (tb n))"
    using D(2) by (auto simp: account_keys_def)
  ultimately show ?thesis
    using D(3,4) by (auto simp: same_accounts_def simp flip: f_def)
qed

lemma mysql_logs_in:
  assumes "serves_accounts my cfg tab" and "same_accounts (tab db) s" and "in_i64 ts"
  shows "same_accounts (tab (mysql_update_last_login my cfg uid ts db)) (update_last_login uid ts s)"
  using same_after_login[OF assms(2,3)] servesD(1,2,6)[OF assms(1)] assms(3) same_accountsD(2)[OF assms(2)]
  by (simp add: mysql_update_last_login_def)

subsection \<open>Sequences of operations\<close>

datatype account_op =
    Register int int string string
  | Find_Name string
  | Find_Id int
  | Login int int

datatype account_answer = Registered "string + Account" | Found "Account option" | Logged_In

fun memory_op :: "account_op \<Rightarrow> AccountTable \<Rightarrow> account_answer \<times> AccountTable" where
  "memory_op (Register t uid name hash) s = map_prod Registered id (register_account t uid name hash s)"
| "memory_op (Find_Name name) s = (Found (find_by_username name s), s)"
| "memory_op (Find_Id uid) s = (Found (find_by_user_id uid s), s)"
| "memory_op (Login uid ts) s = (Logged_In, update_last_login uid ts s)"

fun mysql_op :: "'db Mysql \<Rightarrow> MysqlSettings \<Rightarrow> account_op \<Rightarrow> 'db \<Rightarrow> account_answer \<times> 'db" where
  "mysql_op my cfg (Register t uid name hash) db = map_prod Registered id (mysql_register_account my cfg t t uid name hash db)"
| "mysql_op my cfg (Find_Name name) db = map_prod Found id (mysql_find_by_username my cfg name db)"
| "mysql_op my cfg (Find_Id uid) db = map_prod Found id (mysql_find_by_user_id my cfg uid db)"
| "mysql_op my cfg (Login uid ts) db = (Logged_In, mysql_update_last_login my cfg uid ts db)"

fun op_run :: "(account_op \<Rightarrow> 's \<Rightarrow> account_answer \<times> 's) \<Rightarrow> account_op list \<Rightarrow> 's \<Rightarrow> account_answer list \<times> 's" where
  "op_run f [] s = ([], s)"
| "op_run f (x # xs) s = (let (a, s) = f x s; (as, s) = op_run f xs s in (a # as, s))"

text \<open>
  The operations the stores agree on: values fit the columns, and no second account is registered under a
  user id that is in use. (The in-memory store would accept it and forget the first one's id, the
  database refuses it.)
\<close>

fun op_allowed :: "account_op \<Rightarrow> AccountTable \<Rightarrow> bool" where
  "op_allowed (Register t uid name hash) s \<longleftrightarrow>
     fits_account \<lparr>ac_user_id = uid, ac_username = name, ac_password_hash = hash, ac_created_at = t, ac_last_login_at = t\<rparr> \<and>
     (usernames_by_user_id s uid = None \<or> accounts_by_username s name \<noteq> None)"
| "op_allowed (Login uid ts) s \<longleftrightarrow> in_i64 ts"
| "op_allowed _ s \<longleftrightarrow> True"

fun ops_allowed :: "account_op list \<Rightarrow> AccountTable \<Rightarrow> bool" where
  "ops_allowed [] s \<longleftrightarrow> True"
| "ops_allowed (x # xs) s \<longleftrightarrow> op_allowed x s \<and> ops_allowed xs (snd (memory_op x s))"

lemma mysql_op_simulates:
  assumes "serves_accounts my cfg tab" and "same_accounts (tab db) s" and "op_allowed x s"
  shows "fst (mysql_op my cfg x db) = fst (memory_op x s)"
    and "same_accounts (tab (snd (mysql_op my cfg x db))) (snd (memory_op x s))"
proof -
  note finds = mysql_finds[OF assms(1,2)]
  have "fst (mysql_op my cfg x db) = fst (memory_op x s) \<and>
      same_accounts (tab (snd (mysql_op my cfg x db))) (snd (memory_op x s))"
  proof (cases x)
    case (Register t uid name hash)
    have "id_taken (tab db) uid \<Longrightarrow> usernames_by_user_id s uid \<noteq> None"
      using same_accountsD(4)[OF assms(2), of uid] by (auto simp: id_taken_def)
    then have "id_taken (tab db) uid \<longrightarrow> tab db name \<noteq> None"
      using assms(3) same_accountsD(1)[OF assms(2)] by (auto simp: Register)
    then show ?thesis
      using mysql_registers[OF assms(1,2)] assms(3) by (simp add: Register)
  next
    case (Login uid ts)
    then show ?thesis using mysql_logs_in[OF assms(1,2)] assms(3) by simp
  qed (use finds assms(2) in simp_all)
  then show "fst (mysql_op my cfg x db) = fst (memory_op x s)"
    and "same_accounts (tab (snd (mysql_op my cfg x db))) (snd (memory_op x s))" by simp_all
qed

lemma same_accounts_empty: "same_accounts Map.empty no_accounts"
  by (simp add: same_accounts_def no_accounts_def account_keys_def)


subsection \<open>A small SQL server\<close>

text \<open>
  A database that keeps the promises: it parses the statements of the store, and its table is a list of
  accounts.
\<close>

fun strip :: "string \<Rightarrow> string \<Rightarrow> string option" where
  "strip [] s = Some s"
| "strip (c # p) [] = None"
| "strip (c # p) (d # s) = (if c = d then strip p s else None)"

lemma strip_append [simp]: "strip p (p @ s) = Some s"
  by (induction p) auto

definition read_int :: "string \<Rightarrow> int \<times> string" where
  "read_int s =
     (let neg = (s \<noteq> [] \<and> hd s = CHR ''-''); t = (if neg then tl s else s)
      in (signed_value (neg, takeWhile is_digit t), dropWhile is_digit t))"

lemma read_int_to_string [simp]: "not_digit_first r \<Longrightarrow> read_int (to_string i @ r) = (i, r)"
proof -
  assume r: "not_digit_first r"
  have "hd (nat_to_string n @ r) \<noteq> CHR ''-''" for n
    using nat_to_string_digits[of n] digits_not_blank by (cases "nat_to_string n") auto
  then show "read_int (to_string i @ r) = (i, r)"
    by (simp add: read_int_def to_string_def takeWhile_digits[OF r] signed_value_def)
qed

lemma read_int_at_end [simp]: "read_int (to_string i) = (i, [])"
  using read_int_to_string[of "[]" i] by (simp add: not_digit_first_def)

lemma not_digit_first_simps [simp]:
  "not_digit_first (c # s) \<longleftrightarrow> \<not> is_digit c"
  by (simp add: not_digit_first_def)

definition read_literal :: "string \<Rightarrow> (string \<times> string) option" where
  "read_literal s = (case s of [] \<Rightarrow> None | c # b \<Rightarrow> if c = sql_quote then read_sql_string b else None)"

lemma read_literal_append [simp]:
  "sql_literal t v \<Longrightarrow> c \<noteq> sql_quote \<Longrightarrow> read_literal (t @ c # s) = Some (v, c # s)"
  by (auto simp: read_literal_def sql_literal_def)

definition parse_insert :: "string \<Rightarrow> Account option" where
  "parse_insert q = do {
     q \<leftarrow> strip insert_head q;
     let (uid, q) = read_int q;
     q \<leftarrow> strip '', '' q;
     (n, q) \<leftarrow> read_literal q;
     q \<leftarrow> strip '', '' q;
     (h, q) \<leftarrow> read_literal q;
     q \<leftarrow> strip '', '' q;
     let (t, q) = read_int q;
     q \<leftarrow> strip '', '' q;
     let (t', q) = read_int q;
     if q = '')'' then Some \<lparr>ac_user_id = uid, ac_username = n, ac_password_hash = h, ac_created_at = t, ac_last_login_at = t'\<rparr>
     else None }"

definition parse_login :: "string \<Rightarrow> (int \<times> int) option" where
  "parse_login q = do {
     q \<leftarrow> strip login_head q;
     let (ts, q) = read_int q;
     q \<leftarrow> strip '' WHERE user_id='' q;
     let (uid, q) = read_int q;
     if q = [] then Some (uid, ts) else None }"

definition parse_select :: "string \<Rightarrow> (string + int) option" where
  "parse_select q = do {
     q \<leftarrow> strip select_account q;
     (case strip ''username='' q of
        Some q \<Rightarrow> do { (n, q) \<leftarrow> read_literal q; if q = '' LIMIT 1'' then Some (Inl n) else None }
      | None \<Rightarrow> do { q \<leftarrow> strip ''user_id='' q; let (uid, q) = read_int q;
                     if q = '' LIMIT 1'' then Some (Inr uid) else None }) }"

lemma parse_insert_back:
  "sql_literal nl (ac_username a) \<Longrightarrow> sql_literal hl (ac_password_hash a) \<Longrightarrow>
   parse_insert (insert_account (ac_user_id a) nl hl (ac_created_at a) (ac_last_login_at a)) = Some (a :: Account)"
  by (cases a) (simp add: parse_insert_def insert_account_def is_digit_def sql_quote_def)

lemma parse_login_back: "parse_login (update_login_text uid ts) = Some (uid, ts)"
  by (simp add: parse_login_def update_login_text_def is_digit_def)

lemma parse_select_back:
  "sql_literal nl n \<Longrightarrow> parse_select (select_by_name nl) = Some (Inl n)"
  "parse_select (select_by_id uid) = Some (Inr uid)"
  by (simp_all add: parse_select_def select_by_name_def select_by_id_def sql_quote_def is_digit_def)

lemma parse_others:
  "parse_insert (update_login_text uid ts) = None" "parse_insert auth_ddl = None" "parse_login auth_ddl = None"
  by (simp_all add: parse_insert_def parse_login_def update_login_text_def auth_ddl_def insert_head_def login_head_def)

definition rows_named :: "Account list \<Rightarrow> string \<Rightarrow> Account option" where
  "rows_named db n = find (\<lambda>a. ac_username a = n) db"

definition holds_id :: "Account list \<Rightarrow> int \<Rightarrow> Account \<Rightarrow> bool" where
  "holds_id db uid a \<longleftrightarrow> ac_user_id a = uid \<and> rows_named db (ac_username a) = Some a"

definition demo_sql :: "Account list Mysql" where
  "demo_sql =
     \<lparr>my_connect = (\<lambda>cfg db. True),
      my_query = (\<lambda>q db.
        case parse_insert q of
          Some a \<Rightarrow>
            if rows_named db (ac_username a) \<noteq> None \<or> (\<exists>b\<in>set db. holds_id db (ac_user_id a) b) then (False, db)
            else (True, db @ [a])
        | None \<Rightarrow>
            (case parse_login q of
               Some (uid, ts) \<Rightarrow>
                 (True, map (\<lambda>a. if ac_user_id a = uid then a\<lparr>ac_last_login_at := ts\<rparr> else a) db)
             | None \<Rightarrow> (True, db))),
      my_row = (\<lambda>q db.
        case parse_select q of
          Some (Inl n) \<Rightarrow> map_option account_row (rows_named db n)
        | Some (Inr uid) \<Rightarrow> map_option account_row (find (holds_id db uid) db)
        | None \<Rightarrow> None)\<rparr>"

lemma rows_named_Some: "rows_named db n = Some a \<Longrightarrow> a \<in> set db \<and> ac_username a = n"
  by (auto simp: rows_named_def find_Some_iff)

lemma rows_named_append: "rows_named (db @ [a]) = (if rows_named db (ac_username a) = None then (rows_named db)(ac_username a \<mapsto> a) else rows_named db)"
proof
  fix n
  show "rows_named (db @ [a]) n = (if rows_named db (ac_username a) = None then (rows_named db)(ac_username a \<mapsto> a) else rows_named db) n"
    unfolding rows_named_def by (induction db) (auto split: if_splits)
qed

lemma rows_named_map:
  assumes "\<And>a. ac_username (f a) = ac_username a"
  shows "rows_named (map f db) = (\<lambda>n. map_option f (rows_named db n))"
proof
  show "rows_named (map f db) n = map_option f (rows_named db n)" for n
    unfolding rows_named_def by (induction db) (auto simp: assms)
qed

lemma holds_id_taken: "(\<exists>b\<in>set db. holds_id db uid b) \<longleftrightarrow> id_taken (rows_named db) uid"
  using rows_named_Some by (fastforce simp: holds_id_def id_taken_def)

lemma find_holds_id:
  assumes "account_keys (rows_named db)"
  shows "rows_named db n = Some a \<Longrightarrow> find (holds_id db (ac_user_id a)) db = Some a"
    and "\<not> id_taken (rows_named db) uid \<Longrightarrow> find (holds_id db uid) db = None"
proof -
  show "find (holds_id db (ac_user_id a)) db = Some a" if a: "rows_named db n = Some a"
  proof (cases "find (holds_id db (ac_user_id a)) db")
    case None
    then have "\<not> holds_id db (ac_user_id a) a" using rows_named_Some[OF a] by (auto simp: find_None_iff)
    then show ?thesis using a rows_named_Some[OF a] by (simp add: holds_id_def)
  next
    case (Some b)
    then have "holds_id db (ac_user_id a) b" unfolding find_Some_iff by blast
    then have b: "ac_user_id b = ac_user_id a" "rows_named db (ac_username b) = Some b"
      by (simp_all add: holds_id_def)
    then have "ac_username b = n" using assms a unfolding account_keys_def by metis
    then have "b = a" using a b(2) by simp
    then show ?thesis using Some by simp
  qed
  show "find (holds_id db uid) db = None" if "\<not> id_taken (rows_named db) uid"
    using that holds_id_taken[of db uid] unfolding find_None_iff by blast
qed

lemma demo_inserts:
  assumes "sql_literal nl (ac_username a)" and "sql_literal hl (ac_password_hash a)"
  shows "my_query demo_sql (insert_account (ac_user_id a) nl hl (ac_created_at a) (ac_last_login_at a)) db =
    (if rows_named db (ac_username a) \<noteq> None \<or> id_taken (rows_named db) (ac_user_id a) then (False, db)
     else (True, db @ [a]))"
  by (simp add: demo_sql_def parse_insert_back[OF assms] holds_id_taken)

lemma demo_logs_in:
  "my_query demo_sql (update_login_text uid ts) db =
     (True, map (\<lambda>a. if ac_user_id a = uid then a\<lparr>ac_last_login_at := ts\<rparr> else a) db)"
  by (simp add: demo_sql_def parse_login_back parse_others)

lemma demo_selects:
  "sql_literal nl n \<Longrightarrow> my_row demo_sql (select_by_name nl) db = map_option account_row (rows_named db n)"
  "my_row demo_sql (select_by_id uid) db = map_option account_row (find (holds_id db uid) db)"
  by (simp_all add: demo_sql_def parse_select_back)

lemma demo_sql_serves: "serves_accounts demo_sql cfg rows_named"
  unfolding serves_accounts_def
proof (intro conjI)
  show "inserts_account demo_sql rows_named"
    unfolding inserts_account_def by (simp add: demo_inserts Let_def rows_named_append)
  show "selects_accounts demo_sql rows_named"
    unfolding selects_accounts_def by (simp add: demo_selects find_holds_id)
  show "updates_login demo_sql rows_named"
    unfolding updates_login_def by (simp add: demo_logs_in rows_named_map)
qed (simp_all add: demo_sql_def parse_others)

definition demo_ops :: "account_op list" where
  "demo_ops = [Register 5 7 ''ann'' ''h'', Register 6 8 ''ann'' ''x'', Login 7 9, Find_Id 7, Find_Name (CHR 0x27 # ''--'')]"

definition demo_ann :: Account where
  "demo_ann = \<lparr>ac_user_id = 7, ac_username = ''ann'', ac_password_hash = ''h'', ac_created_at = 5, ac_last_login_at = 5\<rparr>"


end
