(* ===== verification/Files.thy ===== *)
theory Files
  imports Environment
begin

section \<open>Static files (main.cpp)\<close>

text \<open>
  \<open>Http_Auth\<close> takes the content of a file as a parameter (\<open>file_at\<close>). Here is how \<open>serve_static_file\<close> looks for
  it: below \<open>NEBULA_REPO_ROOT\<close>, then below the working directory and the directories above it. A path is the list
  of its names; a file system without symbolic links says which paths exist and what reading one gives (nothing,
  for a directory).
\<close>

record File_System =
  there :: "string list \<Rightarrow> bool"
  text_at :: "string list \<Rightarrow> string"
  cwd :: "string list"

text \<open>\<open>std::filesystem::weakly_canonical\<close>: without links, the path with its dots taken away.\<close>

definition normal_step :: "string list \<Rightarrow> string \<Rightarrow> string list" where
  "normal_step out c =
     (if c = [] \<or> c = ''.'' then out else if c = ''..'' then butlast out else out @ [c])"

definition weakly_canonical :: "string list \<Rightarrow> string list" where
  "weakly_canonical names = foldl normal_step [] names"

definition path_names :: "string \<Rightarrow> string list" where
  "path_names p = split_on (CHR ''/'') p"

definition absolute_names :: "File_System \<Rightarrow> string \<Rightarrow> string list" where
  "absolute_names fs p = (if p \<noteq> [] \<and> hd p = CHR ''/'' then path_names p else cwd fs @ path_names p)"

text \<open>The loop over the working directory and its parents.\<close>

function search_up :: "File_System \<Rightarrow> string list \<Rightarrow> string list \<Rightarrow> string list option" where
  "search_up fs names base =
     (let canon = weakly_canonical (base @ names)
      in if there fs canon then Some canon
         else if base = [] then None else search_up fs names (butlast base))"
  by pat_completeness auto
termination
  by (relation "measure (\<lambda>(fs, names, base). length base)") auto

declare search_up.simps [simp del]

definition find_static :: "environ \<Rightarrow> File_System \<Rightarrow> string \<Rightarrow> string list option" where
  "find_static env fs path =
     (let repo = get_env env ''NEBULA_REPO_ROOT'' [];
          canon = weakly_canonical (absolute_names fs (path_append repo path))
      in if repo \<noteq> [] \<and> there fs canon then Some canon
         else search_up fs (path_names path) (cwd fs))"

definition read_static :: "environ \<Rightarrow> File_System \<Rightarrow> string \<Rightarrow> string" where
  "read_static env fs path = (case find_static env fs path of None \<Rightarrow> [] | Some canon \<Rightarrow> text_at fs canon)"

definition with_files :: "environ \<Rightarrow> File_System \<Rightarrow> HttpEnv \<Rightarrow> HttpEnv" where
  "with_files env fs henv = henv\<lparr>file_at := read_static env fs\<rparr>"

subsection \<open>Paths\<close>

fun join_names :: "string list \<Rightarrow> string" where
  "join_names [] = []"
| "join_names [p] = p"
| "join_names (p # ps) = p @ CHR ''/'' # join_names ps"

lemma path_names_join:
  "ps \<noteq> [] \<Longrightarrow> (\<forall>p\<in>set ps. CHR ''/'' \<notin> set p) \<Longrightarrow> path_names (join_names ps) = ps"
  by (induction ps rule: join_names.induct) (auto simp: path_names_def split_on_sep split_on_none)

text \<open>What \<open>NEBULA_REPO_ROOT\<close> puts in front of a relative path does not depend on the path.\<close>

lemma path_below_repo:
  assumes "repo \<noteq> []"
  obtains front where "\<And>path. path \<noteq> [] \<Longrightarrow> hd path \<noteq> CHR ''/'' \<Longrightarrow>
    absolute_names fs (path_append repo path) = front @ path_names path"
proof -
  define r where "r = (if last repo = CHR ''/'' then butlast repo else repo)"
  have names: "path_append repo path = r @ CHR ''/'' # path" if "path \<noteq> []" "hd path \<noteq> CHR ''/''" for path
  proof (cases "last repo = CHR ''/''")
    case True
    then have "repo = r @ ''/''" using append_butlast_last_id[OF assms] by (simp add: r_def)
    then show ?thesis using that by (simp add: path_append_def)
  next
    case False
    then show ?thesis using that assms by (simp add: path_append_def r_def)
  qed
  define start where "start = (case r of [] \<Rightarrow> CHR ''/'' | c # _ \<Rightarrow> c)"
  have first: "hd (r @ CHR ''/'' # path) = start" for path
    by (cases r) (simp_all add: start_def)
  show thesis
  proof (rule that)
    fix path :: string
    assume "path \<noteq> []" "hd path \<noteq> CHR ''/''"
    then show "absolute_names fs (path_append repo path) =
        (if start = CHR ''/'' then path_names r else cwd fs @ path_names r) @ path_names path"
      by (simp add: names absolute_names_def first path_names_def split_on_sep)
  qed
qed

lemma canonical_append: "weakly_canonical (xs @ ys) = foldl normal_step (weakly_canonical xs) ys"
  by (simp add: weakly_canonical_def)

lemma canonical_length: "length (weakly_canonical xs) \<le> length xs"
proof (induction xs rule: rev_induct)
  case (snoc x xs)
  then show ?case
    by (cases "x = ''..''") (auto simp: canonical_append normal_step_def)
qed (simp add: weakly_canonical_def)

definition proper :: "string list \<Rightarrow> bool" where
  "proper names \<longleftrightarrow> (\<forall>n\<in>set names. n \<noteq> [] \<and> n \<noteq> ''.'' \<and> n \<noteq> ''..'' \<and> CHR ''/'' \<notin> set n \<and> CHR ''?'' \<notin> set n)"

lemma canonical_proper: "proper names \<Longrightarrow> foldl normal_step out names = out @ names"
  by (induction names arbitrary: out) (auto simp: proper_def normal_step_def)

lemma canonical_up: "length out \<le> k \<Longrightarrow> foldl normal_step out (replicate k ''..'') = []"
  by (induction k arbitrary: out) (auto simp: normal_step_def)

text \<open>Enough steps up lead to the root, from wherever the search starts.\<close>

lemma canonical_escape:
  assumes "length front < k" and "proper p"
  shows "weakly_canonical (front @ ''assets'' # replicate k ''..'' @ p) = p"
proof -
  have "length (normal_step (weakly_canonical front) ''assets'') \<le> k"
    using canonical_length[of front] assms(1) by (simp add: normal_step_def)
  then show ?thesis
    using canonical_up canonical_proper[OF assms(2)] by (simp add: canonical_append)
qed

subsection \<open>Which files are served\<close>

definition up_uri :: "nat \<Rightarrow> string list \<Rightarrow> string" where
  "up_uri k p = CHR ''/'' # join_names (''assets'' # replicate k ''..'' @ p)"

lemma join_names_chars: "CHR ''?'' \<notin> set (join_names ps) \<longleftrightarrow> (\<forall>p\<in>set ps. CHR ''?'' \<notin> set p)"
  by (induction ps rule: join_names.induct) auto

lemma up_uri_path:
  assumes "proper p" "p \<noteq> []"
  shows "static_path (before_query (up_uri k p)) = join_names (''assets'' # replicate k ''..'' @ p)"
    and "path_names (join_names (''assets'' # replicate k ''..'' @ p)) = ''assets'' # replicate k ''..'' @ p"
proof -
  have "\<forall>n\<in>set (''assets'' # replicate k ''..'' @ p). CHR ''?'' \<notin> set n"
    using assms(1) by (simp add: proper_def ball_Un)
  then have "CHR ''?'' \<notin> set (join_names (''assets'' # replicate k ''..'' @ p))"
    by (subst join_names_chars)
  then have "CHR ''?'' \<notin> set (up_uri k p)"
    by (simp add: up_uri_def del: join_names.simps)
  then have no_query: "before_query (up_uri k p) = up_uri k p"
    unfolding before_query_def takeWhile_eq_all_conv by blast
  have "join_names (''assets'' # qs) = ''assets/'' @ join_names qs" if "qs \<noteq> []" for qs
    using that by (cases qs) simp_all
  then have joined: "join_names (''assets'' # replicate k ''..'' @ p) = ''assets/'' @ join_names (replicate k ''..'' @ p)"
    using assms(2) by simp
  show "static_path (before_query (up_uri k p)) = join_names (''assets'' # replicate k ''..'' @ p)"
    unfolding no_query by (simp add: up_uri_def joined static_path_def starts_with_def del: join_names.simps)
  show "path_names (join_names (''assets'' # replicate k ''..'' @ p)) = ''assets'' # replicate k ''..'' @ p"
    using assms(1) by (intro path_names_join) (simp_all add: proper_def ball_Un)
qed


definition demo_files :: File_System where
  "demo_files =
     \<lparr>there = (\<lambda>p. p = [''etc'', ''passwd'']), text_at = (\<lambda>p. if p = [''etc'', ''passwd''] then ''root'' else []),
      cwd = [''srv'', ''poker'']\<rparr>"


text \<open>A path without dots stays below the directory it was found from.\<close>

lemma clean_paths_stay_below:
  assumes "proper names" and "search_up fs names base = Some canon"
  shows "\<exists>dir. canon = weakly_canonical dir @ names"
  using assms(2)
proof (induction base rule: measure_induct_rule[where f = length])
  case (less base)
  show ?case
  proof (cases "there fs (weakly_canonical (base @ names))")
    case True
    then show ?thesis
      using less.prems canonical_proper[OF assms(1)]
      by (auto simp: search_up.simps[of fs names base] Let_def canonical_append)
  next
    case False
    then have "base \<noteq> []" "search_up fs names (butlast base) = Some canon"
      using less.prems by (auto simp: search_up.simps[of fs names base] Let_def split: if_splits)
    then show ?thesis using less.IH[of "butlast base"] by simp
  qed
qed

end
