(* ===== verification/Takeover.thy ===== *)
theory Takeover
  imports Worlds
begin

section \<open>The takeover of a seat by the AI (main.cpp)\<close>

text \<open>
  \<open>schedule_ai_takeover\<close> arms a timer for the seat of a player who is gone; when it fires and the player is still away,
  the AI plays the seat. Nothing in the code calls it any more, so a run never arms such a timer
  (\<open>Worlds\<close> has no step for it). It is modelled with what it would do: the invariant of the rooms
  would survive it.
\<close>

definition ensure_gameplay_session_id :: "string \<Rightarrow> Session \<Rightarrow> Ctx \<Rightarrow> Session \<times> Ctx" where
  "ensure_gameplay_session_id token s c =
     (let s = (if ses_gameplay_session_id s = [] then s\<lparr>ses_gameplay_session_id := token\<rparr> else s)
      in (s, with_gameplay_session (ses_gameplay_session_id s) (ses_user_id s)
            (\<lambda>g. g\<lparr>gp_room_id := ses_room_id s, gp_seat_idx := ses_seat_idx s, gp_reconnect_token := ses_client_id s,
                   gp_expires_at := now c + kGameplaySessionTtlMs\<rparr>) c))"

definition schedule_ai_takeover :: "int \<Rightarrow> Ctx \<Rightarrow> Ctx" where
  "schedule_ai_takeover seat_idx c =
     (if seat_idx < 0 \<or> seat_idx \<ge> kSeats then c
      else if seat_type (seat_at (rm c) seat_idx) \<noteq> SeatPlayer then c
      else on_room (\<lambda>r. r\<lparr>ai_takeover_timers := insert seat_idx (ai_takeover_timers r)\<rparr>) c)"

text \<open>The handler of the timer, 60 seconds later, unless it was cancelled.\<close>

definition takeover_seat :: "int \<Rightarrow> Ctx \<Rightarrow> Ctx" where
  "takeover_seat seat_idx c =
     (let c = on_room (\<lambda>r. set_seat seat_idx
                ((seat_at r seat_idx)\<lparr>seat_ai_managed := True, seat_ai_takeover_at := now c\<rparr>) r) c;
          seat = seat_at (rm c) seat_idx
      in if seat_gameplay_session_id seat = [] then c
         else with_gameplay_session (seat_gameplay_session_id seat) (seat_user_id seat)
           (\<lambda>g. g\<lparr>gp_ai_managed := True, gp_ai_takeover_at := seat_ai_takeover_at seat, gp_room_id := room_id (rm c),
                  gp_seat_idx := seat_idx, gp_reconnect_token := seat_reconnect_token seat\<rparr>) c)"

definition takeover_fires :: "int \<Rightarrow> Ctx \<Rightarrow> Ctx" where
  "takeover_fires seat_idx c =
     (let seat = seat_at (rm c) seat_idx
      in if seat_idx < 0 \<or> seat_idx \<ge> kSeats then c
         else if seat_type seat \<noteq> SeatPlayer then c
         else if seat_socket_id seat \<noteq> [] \<and> is_online (clients_of c) (seat_socket_id seat) then c
         else
           let c = takeover_seat seat_idx c;
               c = broadcast_activity (seat_name seat @ '' disconnected for 30s. AI takeover enabled.'') c;
               c = broadcast_room c;
               c = broadcast_game c
           in request_turn c)"

subsection \<open>The invariant would survive it\<close>

lemma evolves_schedule: "evolves False mute c d \<Longrightarrow> evolves False mute c (schedule_ai_takeover i d)"
  unfolding schedule_ai_takeover_def by (intro evolving) (simp_all add: same_log_def)

lemma evolves_takeover: "evolves False mute c d \<Longrightarrow> evolves False mute c (takeover_fires i d)"
  unfolding takeover_fires_def takeover_seat_def Let_def
  by (intro evolving) (simp_all add: same_log_def set_seat_def)

lemma takeover_ok: "table_ok (rm c) \<Longrightarrow> table_ok (rm (takeover_fires i c))"
  unfolding takeover_fires_def takeover_seat_def Let_def
  by (intro keeps_ok) simp_all

text \<open>A room whose takeover timer is armed, or fires, leaves the world well formed.\<close>

lemma takeover_world_ok:
  assumes "world_ok w" and "rooms w key = Some r"
  shows "world_ok (close_room key w (False, takeover_fires i (open_room w r)))"
    and "world_ok (close_room key w (False, schedule_ai_takeover i (open_room w r)))"
proof -
  have "table_ok (rm (open_room w r))" using room_table_ok[OF assms] by simp
  then show "world_ok (close_room key w (False, takeover_fires i (open_room w r)))"
    by (intro world_ok_close[OF assms]) (simp_all add: evolves_takeover evolves.start takeover_ok)
  have "table_ok (rm (schedule_ai_takeover i (open_room w r)))"
    using room_table_ok[OF assms] by (simp add: schedule_ai_takeover_def)
  then show "world_ok (close_room key w (False, schedule_ai_takeover i (open_room w r)))"
    by (intro world_ok_close[OF assms]) (simp_all add: evolves_schedule evolves.start)
qed

text \<open>A player who is back keeps the seat.\<close>

lemma takeover_needs_absence:
  "seat_socket_id (seat_at (rm c) i) \<in> clients_of c \<Longrightarrow> seat_socket_id (seat_at (rm c) i) \<noteq> [] \<Longrightarrow> takeover_fires i c = c"
  by (simp add: takeover_fires_def is_online_def Let_def)

end
