(* ===== verification/Login_Cookies.thy ===== *)
theory Login_Cookies
  imports Http_Auth
begin

section \<open>Login cookies (main.cpp)\<close>

text \<open>
  The cookie sessions of logins at the worker itself. Logins have moved to the gateway: requests still present cookies
  (\<open>find_http_session\<close> in \<open>Http_Auth\<close>), but nothing creates a session any more. Here is the other half, and that
  the two halves fit. \<open>draws\<close> are the numbers 0 to 15 the random generator gives.
\<close>

definition kSessionTtlMs :: int where
  "kSessionTtlMs = 1000 * 60 * 60 * 24 * 30"

definition kHex :: string where
  "kHex = ''0123456789abcdef''"

definition next_token :: "(nat \<Rightarrow> nat) \<Rightarrow> nat \<Rightarrow> string" where
  "next_token draws bytes = map (\<lambda>i. kHex ! draws i) [0..<bytes * 2]"

definition create_session_cookie :: "(nat \<Rightarrow> nat) \<Rightarrow> int \<Rightarrow> string \<Rightarrow> Backend \<Rightarrow> string \<times> Backend" where
  "create_session_cookie draws uid name b =
     (let sid = next_token draws 24
      in (sid, b\<lparr>auth_sessions := (auth_sessions b)(sid \<mapsto>
            \<lparr>as_session_id = sid, as_user_id = uid, as_username = name, as_expires_at = now b + kSessionTtlMs\<rparr>)\<rparr>))"

definition build_session_cookie_header :: "string \<Rightarrow> bool \<Rightarrow> string" where
  "build_session_cookie_header sid clear = concat [
     kSessionCookieName, ''='', if clear then [] else sid, ''; Path=/; HttpOnly; SameSite=Lax'',
     if clear then ''; Max-Age=0'' else []]"

text \<open>What a browser sends back: the pair in front of the attributes.\<close>

definition sent_back :: "string \<Rightarrow> string" where
  "sent_back header = takeWhile (\<lambda>c. c \<noteq> CHR '';'') header"

definition first_open_seat :: "Room \<Rightarrow> int option" where
  "first_open_seat r = find (\<lambda>i. seat_type (seat_at r i) = SeatEmpty) [0..kSeats - 1]"

definition bean_entry_fee_for_tier :: "string \<Rightarrow> int" where
  "bean_entry_fee_for_tier tier = (if tier = ''advanced'' then 800 else if tier = ''expert'' then 3000 else 200)"

subsection \<open>A cookie leads back to its session\<close>

definition hex_draws :: "(nat \<Rightarrow> nat) \<Rightarrow> bool" where
  "hex_draws draws \<longleftrightarrow> (\<forall>i. draws i < 16)"

lemma token_chars: "hex_draws draws \<Longrightarrow> set (next_token draws n) \<subseteq> set kHex"
proof -
  have len: "length kHex = 16" by code_simp
  assume "hex_draws draws"
  then have "kHex ! draws i \<in> set kHex" for i
    by (intro nth_mem) (simp add: hex_draws_def len)
  then show ?thesis by (auto simp: next_token_def)
qed

lemma token_length: "length (next_token draws n) = n * 2"
  by (simp add: next_token_def)

lemma kHex_plain: "c \<in> set kHex \<Longrightarrow> c \<noteq> CHR '';'' \<and> c \<noteq> CHR ''='' \<and> \<not> isspace c"
  by (auto simp: kHex_def isspace_def)

lemma trim_solid:
  assumes "s \<noteq> []" "\<not> isspace (hd s)" "\<not> isspace (last s)"
  shows "trim_copy s = s"
  using assms by (simp add: trim_copy_def hd_dropWhile_keep hd_rev)

text \<open>The header that comes back names one cookie.\<close>

lemma cookie_read:
  assumes "\<forall>c\<in>set sid. c \<noteq> CHR '';'' \<and> \<not> isspace c"
  shows "parse_cookie_header (kSessionCookieName @ ''='' @ sid) = [kSessionCookieName \<mapsto> sid]"
proof -
  let ?h = "kSessionCookieName @ ''='' @ sid"
  have "CHR '';'' \<notin> set ?h" using assms by (auto simp: kSessionCookieName_def)
  then have "split_on (CHR '';'') ?h = [?h]" by (rule split_on_none)
  moreover have "trim_copy ?h = ?h"
    using assms by (intro trim_solid) (auto simp: kSessionCookieName_def isspace_def last_append)
  ultimately show ?thesis
    by (simp add: parse_cookie_header_def cookie_part_def before_eq_def after_eq_def kSessionCookieName_def)
qed

text \<open>
  A login lasts thirty days. The cookie that \<open>build_session_cookie_header\<close> sets for a new session, sent back by the
  browser, leads to exactly this session up to thirty days later; then it is forgotten, and the header of a
  logout leads nowhere.
\<close>

theorem login_cookie_lasts:
  assumes "hex_draws draws" and "create_session_cookie draws uid name b = (sid, c)"
  shows "find_http_session (sent_back (build_session_cookie_header sid False)) (c\<lparr>now := t\<rparr>) =
      (if t \<le> now b + kSessionTtlMs
       then (Some \<lparr>as_session_id = sid, as_user_id = uid, as_username = name, as_expires_at = now b + kSessionTtlMs\<rparr>,
             c\<lparr>now := t\<rparr>)
       else (None, b\<lparr>auth_sessions := (auth_sessions b)(sid := None), now := t\<rparr>)) \<and>
    fst (find_http_session (sent_back (build_session_cookie_header sid True)) (c\<lparr>now := t\<rparr>)) = None"
proof -
  have sid: "sid = next_token draws 24" and c: "c = b\<lparr>auth_sessions := (auth_sessions b)(sid \<mapsto>
      \<lparr>as_session_id = sid, as_user_id = uid, as_username = name, as_expires_at = now b + kSessionTtlMs\<rparr>)\<rparr>"
    using assms(2) by (auto simp: create_session_cookie_def Let_def)
  have plain: "\<forall>ch\<in>set sid. ch \<noteq> CHR '';'' \<and> ch \<noteq> CHR ''='' \<and> \<not> isspace ch"
    using token_chars[OF assms(1), of 24] kHex_plain unfolding sid by blast
  have "takeWhile (\<lambda>ch. ch \<noteq> CHR '';'') (sid @ CHR '';'' # s) = sid" for s
    using plain by (subst takeWhile_append2) auto
  then have set_back: "sent_back (build_session_cookie_header sid False) = kSessionCookieName @ ''='' @ sid"
    by (simp add: sent_back_def build_session_cookie_header_def kSessionCookieName_def)
  have clear_back: "sent_back (build_session_cookie_header sid True) = kSessionCookieName @ ''='' @ []"
    by (simp add: sent_back_def build_session_cookie_header_def kSessionCookieName_def)
  have "sid \<noteq> []" using token_length[of draws 24] unfolding sid by auto
  then show ?thesis
    using cookie_read[of sid] cookie_read[of "[]"] plain
    by (simp add: find_http_session_def set_back clear_back) (simp add: c)
qed

theorem login_cookie_lasts_witness:
  "\<forall>b. fst (find_http_session (sent_back (build_session_cookie_header (next_token (\<lambda>_. 7) 24) False))
     ((snd (create_session_cookie (\<lambda>_. 7) 3 ''ann'' b))\<lparr>now := now b + 5\<rparr>)) \<noteq> None"
proof
  fix b :: Backend
  have "hex_draws (\<lambda>_. 7)" by (simp add: hex_draws_def)
  from login_cookie_lasts[OF this, of 3 "''ann''" b]
  show "fst (find_http_session (sent_back (build_session_cookie_header (next_token (\<lambda>_. 7) 24) False))
     ((snd (create_session_cookie (\<lambda>_. 7) 3 ''ann'' b))\<lparr>now := now b + 5\<rparr>)) \<noteq> None"
    by (simp add: create_session_cookie_def Let_def kSessionTtlMs_def)
qed

end
