(* ===== verification/Spec2Isabelle.thy ===== *)
theory Spec2Isabelle
  imports World_Invariant Replay Process Passwords Sql_Facts Files Takeover Login_Cookies
begin

text \<open>
  The program. \<open>src/backend-cpp\<close> is the room worker of a Texas hold'em server: one process with one
  worker thread that keeps rooms of ten seats in memory and plays the game in them. A Java gateway is
  its only client. Over one TCP connection it sends length-prefixed JSON frames: clients that come and
  go, their protobuf envelopes (join a room, take a seat, act, \<dots>) and HTTP requests; the worker answers
  with envelopes for single clients and with HTTP replies. Everything is in \<open>main.cpp\<close>, except the pure
  game rules in \<open>engine/\<close>. The model is one function per function of the code, over records with
  the fields of its structs.

  \<^bold>\<open>The parts, and the theories that model them.\<close>

  \<^item> Game rules (\<open>engine/\<close>): \<open>Round_Phase\<close> (the streets of a hand), \<open>Holdem_Evaluator\<close> (\<open>combinations\<close>,
    \<open>evaluate5\<close>, \<open>compare_hands\<close>, \<open>best_hand\<close>), \<open>Pot_Manager\<close> (\<open>build_pots\<close>).
  \<^item> Data: \<open>Room_State\<close> (\<open>Room\<close>, \<open>Seat\<close>, \<open>PlayerState\<close>, \<open>Session\<close>, \<dots>), \<open>Messages\<close> (the protobuf messages),
    \<open>Std_Map\<close> (\<open>std::map\<close> as a sorted association list).
  \<^item> One hand: \<open>Table_Ops\<close> (who counts, \<open>next_seat_clockwise\<close>, \<open>choose_next_actor\<close>, \<open>place_bet\<close>, cards),
    \<open>Dealing\<close>, \<open>Hand_Start\<close> (\<open>start_hand\<close>), \<open>Betting\<close> (\<open>handle_action\<close>, \<open>ai_act\<close>), \<open>Hand_Flow\<close> (\<open>request_turn\<close>,
    \<open>proceed_to_next_street\<close>, \<open>finish_hand\<close>), \<open>Match_End\<close> (\<open>build_standings\<close>, \<open>emit_match_over\<close>).
  \<^item> Talking to clients: \<open>Events\<close> (\<open>send_event\<close>, the event log of a room, sequence numbers), \<open>Broadcasts\<close>
    (\<open>build_room_state\<close>, \<open>build_game_state\<close>, \<open>broadcast_game\<close>).
  \<^item> Requests: \<open>Lobby\<close> (\<open>handle_join_room\<close>, \<open>handle_take_seat\<close>, \<dots>), \<open>Requests\<close> (the other handlers,
    \<open>handle_disconnect\<close>, \<open>on_ws_message\<close>), \<open>Worlds\<close> (\<open>create_room_for_user\<close>, clients, the gateway, and the
    worker as a step relation).
  \<^item> Snapshots: \<open>Json\<close> (values of the JSON library), \<open>Snapshots\<close> (\<open>room_to_json\<close>, \<open>room_from_json\<close>, the
    room it makes), \<open>Snapshot_Facts\<close>, \<open>Disk\<close> (the server with its files: timers, erased rooms,
    restarts), \<open>Process\<close> (start, acceptance, the system calls of a write).
  \<^item> The gateway connection: \<open>Gateway_Frames\<close> (\<open>GatewaySession\<close>: the queue and the reader), \<open>Base64\<close>,
    \<open>Gateway_Down\<close> (\<open>on_gateway_down_json\<close>: every kind of frame).
  \<^item> HTTP: \<open>Text_Utils\<close> (form bodies, cookies, escaping), \<open>Engine_Api\<close> (the two engine endpoints), \<open>Stores\<close>
    (\<open>MemoryAuthStore\<close>, \<open>MemoryUserStore\<close>, \<open>MemoryLeaderboardStore\<close>), \<open>Http\<close> (reply texts, the state of
    \<open>PokerServer\<close> beyond the rooms), \<open>Http_Auth\<close> (who a request speaks for), \<open>Http_Handlers\<close> (one
    definition per endpoint, \<open>handle_http_request\<close>), \<open>Server_Runs\<close> (runs of the whole server).
  \<^item> Passwords: \<open>Sha256\<close> (\<open>sha256.hpp\<close>), \<open>Passwords\<close> (the records of \<open>main.cpp\<close>).
  \<^item> The rest of the process: \<open>Environment\<close> (settings, numbers as texts), \<open>Files\<close> (the search for a static file),
    \<open>Sql_Text\<close>, \<open>Sql_Stores\<close> (the stores in MySQL and Redis), \<open>Takeover\<close> and \<open>Login_Cookies\<close> (code nothing calls
    in this version).

  \<^bold>\<open>How state and effects are modelled.\<close> A handler of a room works on \<open>Ctx\<close>: the fields of \<open>PokerServer\<close> a room
  can touch (record \<open>Server\<close>) and the room itself (\<open>rm\<close>); \<open>World\<close> is the server with all its rooms,
  \<open>Backend\<close> the world with the books of the HTTP interface. What is sent is appended to \<open>outbox\<close>. A handler
  is a function from state to state; undefined behaviour of C++ (signed overflow, an index out of
  bounds) is a \<open>fault\<close>. Pointers and references into maps are lookups, mutexes do nothing: there is one thread.
  A C++ \<open>int\<close> is an \<open>int\<close>; where a client chooses a summand the range check is in the model, chips
  and times otherwise stay far below the limits. Words with a width are used where the code shifts
  and wraps (\<open>Base64\<close>, \<open>Gateway_Frames\<close>, \<open>Sha256\<close>). Iteration over a hash map follows an order that is a
  parameter. The random generator is a parameter: the shuffle is any permutation, tokens are any texts.

  \<^bold>\<open>What is proved.\<close>

  \<^item> Pure rules: the evaluator agrees with a declarative ranking, ranks do not depend on the order of cards
    and the best five of seven are best; pots are sliced exactly by the all-in amounts.
  \<^item> A hand: the cards in play are one deck, chips are conserved by every action, street and
    payout; pots go to the best hands, odd chips in the order of the seats; the betting rules (turns, minimum raise,
    what an all-in reopens); the exact condition for overflow; play always moves on.
  \<^item> A room: every reachable world satisfies the invariant of \<open>Worlds\<close>; hole cards reach their owner only
    (\<open>Privacy\<close>, over \<open>evolves\<close>, the closure of the primitive writes a handler is made of); requests touch one room;
    what a reconnecting client is sent (\<open>Replay\<close>).
  \<^item> The whole server: runs of frames and HTTP requests refine the room worker, so the invariants
    of rooms hold in them; the books of the HTTP interface stay well formed; rewards are bounded; a match id
    names one room (\<open>Server_Facts\<close>). Framing, base64, JSON strings and snapshots are read back as
    they were written; a restart brings back the rooms on disk and nothing else (\<open>Disk\<close>),
    and a crash while a snapshot is written costs at most that snapshot (\<open>Process\<close>).
  \<^item> The stores: no text escapes from its quotes in an SQL statement, and the account store in MySQL answers every
    sequence of operations as the one in memory does (\<open>Sql_Facts\<close>).

  The locales are contracts: \<open>ordered_map\<close> in \<open>Std_Map\<close> is what the code expects of a \<open>std::map\<close>; \<open>account_store\<close> and \<open>profile_store\<close> in \<open>Stores\<close> say what a store promises and are
  interpreted on the in-memory stores, whose lemmas \<open>Server_Facts\<close> uses. What every handler keeps is not a
  locale but the collection \<open>evolving\<close>: one rule per operation, all with the same conclusion.

  \<^bold>\<open>Bounds.\<close> Loops are structural or have a measure. The one loop that may run forever, the search for an unused
  room code, is a \<open>partial_function\<close>; C17 says exactly when it ends. \<open>request_turn\<close> and
  \<open>proceed_to_next_street\<close> call each other at most once per street, which their measure counts. No fuel is used.

  \<^bold>\<open>Not modelled.\<close> The client libraries of MySQL and Redis and the servers behind them (parameters; what the MySQL
  manual says of the statements is a hypothesis, with a small SQL server that meets it), sockets and timers of
  \<open>boost::asio\<close> as such (their events are steps), opening, binding and listening on the port, the text of JSON values
  and the protobuf wire format (libraries: parameters of the definitions that use them), symbolic links,
  log lines on \<open>stderr\<close>; the two copied logger headers of websocketpp (\<open>tmp_basic.hpp\<close>, \<open>tmp_levels.hpp\<close>: third-party
  code that nothing includes); the Java and TypeScript parts of the repository.
\<close>

end
